theory Spec2Isabelle
  imports Complex_Main "HOL-Library.AList"
begin

section \<open>Conventions\<close>

text \<open>
  The development embeds the symbolic core of the harmony library (package \<open>halmoni\<close>)
  and the beam-search demo that drives it.

  \<^item> Python \<open>int\<close> is \<open>int\<close>; Python \<open>float\<close> is \<open>real\<close>: decimal literals such as
    \<open>0.7\<close> are the exact rationals they denote, and float rounding is not modelled.
    Chord detection compares scores whose exact values can be equal; there the computed
    score is a parameter of the model, within a stated distance of the exact one.
  \<^item> Python \<open>str\<close> is \<open>string\<close>, one \<open>char\<close> per code point; only code points
    below 256 are representable, which covers every literal of the source.
  \<^item> A raised exception is the \<open>Inl\<close> branch of a sum; \<open>Inr\<close> carries the value
    returned.
\<close>

datatype error = ValueError | KeyError | IndexError

text \<open>\<open>list.index(x)\<close>: position of the first occurrence, \<open>None\<close> where Python raises.\<close>

fun list_index :: "'a list \<Rightarrow> 'a \<Rightarrow> nat option" where
  "list_index [] x = None"
| "list_index (y # ys) x = (if y = x then Some 0 else map_option Suc (list_index ys x))"

section \<open>Pitch model: \<open>core/note.py\<close>\<close>

record Note =
  pitch_class :: string
  octave :: int
  midi_number :: int

definition CHROMATIC_SCALE :: "string list" where
  "CHROMATIC_SCALE =
     [''C'', ''C#'', ''D'', ''D#'', ''E'', ''F'', ''F#'', ''G'', ''G#'', ''A'', ''A#'', ''B'']"

definition FLAT_SCALE :: "string list" where
  "FLAT_SCALE =
     [''C'', ''Db'', ''D'', ''Eb'', ''E'', ''F'', ''Gb'', ''G'', ''Ab'', ''A'', ''Bb'', ''B'']"

text \<open>\<open>str.isspace\<close> on the code points below 256.\<close>

definition py_isspace :: "char \<Rightarrow> bool" where
  "py_isspace c = (of_char c \<in> {9, 10, 11, 12, 13, 28, 29, 30, 31, 32, 133, 160 :: nat})"

definition py_strip :: "string \<Rightarrow> string" where
  "py_strip s = rev (dropWhile py_isspace (rev (dropWhile py_isspace s)))"

text \<open>
  \<open>re.match(r'^[A-G][#b]?$', pitch)\<close>. In Python \<open>$\<close> also matches just before a
  trailing newline.
\<close>

definition is_note_letter :: "char \<Rightarrow> bool" where
  "is_note_letter c = (c \<in> set ''ABCDEFG'')"

definition is_accidental :: "char \<Rightarrow> bool" where
  "is_accidental c = (c \<in> set ''#b'')"

fun pitch_regex_match :: "string \<Rightarrow> bool" where
  "pitch_regex_match [l] = is_note_letter l"
| "pitch_regex_match [l, a] = (is_note_letter l \<and> (is_accidental a \<or> a = CHR 0x0A))"
| "pitch_regex_match [l, a, n] = (is_note_letter l \<and> is_accidental a \<and> n = CHR 0x0A)"
| "pitch_regex_match s = False"

definition normalize_pitch_class :: "string \<Rightarrow> error + string" where
  "normalize_pitch_class pitch =
     (let pitch = py_strip pitch
      in if \<not> pitch_regex_match pitch then Inl ValueError else Inr pitch)"

definition calculate_midi_number :: "string \<Rightarrow> int \<Rightarrow> error + int" where
  "calculate_midi_number pc oct =
     (case list_index CHROMATIC_SCALE pc of
        Some pitch_index \<Rightarrow> Inr ((oct + 1) * 12 + int pitch_index)
      | None \<Rightarrow>
          (case list_index FLAT_SCALE pc of
             Some pitch_index \<Rightarrow> Inr ((oct + 1) * 12 + int pitch_index)
           | None \<Rightarrow> Inl ValueError))"

text \<open>The first constructor argument is a pitch name or a MIDI number.\<close>

datatype pitch = PitchName string | PitchMidi int

definition Note_init :: "pitch \<Rightarrow> int option \<Rightarrow> error + Note" where
  "Note_init pitch oct =
     (case pitch of
        PitchMidi p \<Rightarrow>
          if \<not> (0 \<le> p \<and> p \<le> 127) then Inl ValueError
          else Inr \<lparr>pitch_class = CHROMATIC_SCALE ! nat (p mod 12),
                    octave = p div 12 - 1,
                    midi_number = p\<rparr>
      | PitchName s \<Rightarrow>
          (case normalize_pitch_class s of
             Inl e \<Rightarrow> Inl e
           | Inr pc \<Rightarrow>
               (case oct of
                  None \<Rightarrow> Inl ValueError
                | Some oc \<Rightarrow>
                    if \<not> (0 \<le> oc \<and> oc \<le> 10) then Inl ValueError
                    else (case calculate_midi_number pc oc of
                            Inl e \<Rightarrow> Inl e
                          | Inr m \<Rightarrow> Inr \<lparr>pitch_class = pc, octave = oc, midi_number = m\<rparr>))))"

definition Note_transpose :: "Note \<Rightarrow> int \<Rightarrow> error + Note" where
  "Note_transpose n semitones =
     (let new_midi = midi_number n + semitones
      in if \<not> (0 \<le> new_midi \<and> new_midi \<le> 127) then Inl ValueError
         else Note_init (PitchMidi new_midi) None)"

text \<open>\<open>Note.__eq__\<close> compares MIDI numbers only.\<close>

definition Note_eq :: "Note \<Rightarrow> Note \<Rightarrow> bool" where
  "Note_eq a b = (midi_number a = midi_number b)"

section \<open>Python list and string primitives\<close>

text \<open>A loop that appends \<open>f x\<close> for each \<open>x\<close> and stops at the first exception.\<close>

fun traverse :: "('a \<Rightarrow> error + 'b) \<Rightarrow> 'a list \<Rightarrow> error + 'b list" where
  "traverse f [] = Inr []"
| "traverse f (x # xs) =
     (case f x of
        Inl e \<Rightarrow> Inl e
      | Inr y \<Rightarrow> (case traverse f xs of Inl e \<Rightarrow> Inl e | Inr ys \<Rightarrow> Inr (y # ys)))"

text \<open>
  The position an index \<open>i\<close> denotes in \<open>xs\<close>: Python counts a negative index from
  the end, and an index outside \<open>-len(xs) .. len(xs) - 1\<close> denotes no position.
\<close>

definition py_index :: "'a list \<Rightarrow> int \<Rightarrow> nat option" where
  "py_index xs i =
     (if 0 \<le> i \<and> i < int (length xs) then Some (nat i)
      else if i < 0 \<and> - int (length xs) \<le> i then Some (nat (int (length xs) + i))
      else None)"

text \<open>\<open>xs[i]\<close> raises \<open>IndexError\<close> where the index denotes no position.\<close>

definition py_get :: "'a list \<Rightarrow> int \<Rightarrow> error + 'a" where
  "py_get xs i = (case py_index xs i of None \<Rightarrow> Inl IndexError | Some j \<Rightarrow> Inr (xs ! j))"

text \<open>Slice bounds are clamped to the list: \<open>xs[i:]\<close> and \<open>xs[:i]\<close>.\<close>

definition slice_bound :: "'a list \<Rightarrow> int \<Rightarrow> nat" where
  "slice_bound xs i =
     (let n = int (length xs) in nat (if i < 0 then max (n + i) 0 else min i n))"

definition slice_from :: "'a list \<Rightarrow> int \<Rightarrow> 'a list" where
  "slice_from xs i = drop (slice_bound xs i) xs"

definition slice_to :: "'a list \<Rightarrow> int \<Rightarrow> 'a list" where
  "slice_to xs i = take (slice_bound xs i) xs"

text \<open>\<open>xs[i] = v\<close> and \<open>xs.insert(i, v)\<close>.\<close>

definition py_set :: "'a list \<Rightarrow> int \<Rightarrow> 'a \<Rightarrow> error + 'a list" where
  "py_set xs i v =
     (case py_index xs i of None \<Rightarrow> Inl IndexError | Some j \<Rightarrow> Inr (xs[j := v]))"

definition py_insert :: "'a list \<Rightarrow> int \<Rightarrow> 'a \<Rightarrow> 'a list" where
  "py_insert xs i v = take (slice_bound xs i) xs @ v # drop (slice_bound xs i) xs"

text \<open>\<open>xs * n\<close>: the empty list for \<open>n \<le> 0\<close>.\<close>

definition py_repeat :: "'a list \<Rightarrow> int \<Rightarrow> 'a list" where
  "py_repeat xs n = concat (replicate (nat n) xs)"

text \<open>\<open>s.split(sep)\<close> for a one-character separator.\<close>

fun py_split :: "char \<Rightarrow> string \<Rightarrow> string list" where
  "py_split sep [] = [[]]"
| "py_split sep (c # cs) =
     (if c = sep then [] # py_split sep cs
      else (case py_split sep cs of
              w # ws \<Rightarrow> (c # w) # ws
            | [] \<Rightarrow> [[c]]))"

text \<open>\<open>str.lower\<close> on the code points below 256.\<close>

definition py_lower_char :: "char \<Rightarrow> char" where
  "py_lower_char c =
     (let k = (of_char c :: nat)
      in if (65 \<le> k \<and> k \<le> 90) \<or> (192 \<le> k \<and> k \<le> 222 \<and> k \<noteq> 215)
         then char_of (k + 32) else c)"

definition py_lower :: "string \<Rightarrow> string" where
  "py_lower s = map py_lower_char s"

text \<open>\<open>str(n)\<close> for an integer.\<close>

definition digit_char :: "nat \<Rightarrow> char" where
  "digit_char d = char_of (48 + d)"

fun str_nat :: "nat \<Rightarrow> string" where
  "str_nat n = (if n < 10 then [digit_char n] else str_nat (n div 10) @ [digit_char (n mod 10)])"

definition str_int :: "int \<Rightarrow> string" where
  "str_int i = (if i < 0 then CHR ''-'' # str_nat (nat (- i)) else str_nat (nat i))"

section \<open>Intervals: \<open>core/interval.py\<close>\<close>

text \<open>
  The fields \<open>_semitones\<close> and \<open>_octaves\<close> hold the simple part and the number of
  octaves; Python's \<open>%\<close> and \<open>//\<close> round towards minus infinity, as \<open>mod\<close> and
  \<open>div\<close> on \<open>int\<close> do.
\<close>

record Interval =
  i_semitones :: int
  i_octaves :: int

definition Interval_init :: "int \<Rightarrow> Interval" where
  "Interval_init semitones = \<lparr>i_semitones = semitones mod 12, i_octaves = semitones div 12\<rparr>"

definition from_notes :: "Note \<Rightarrow> Note \<Rightarrow> Interval" where
  "from_notes note1 note2 = Interval_init (midi_number note2 - midi_number note1)"

definition semitones :: "Interval \<Rightarrow> int" where
  "semitones iv = i_semitones iv + i_octaves iv * 12"

definition simple_semitones :: "Interval \<Rightarrow> int" where
  "simple_semitones iv = i_semitones iv"

section \<open>Chords: \<open>core/chord.py\<close>\<close>

record Chord =
  root_note :: Note
  quality :: string
  bass :: Note

text \<open>The class dictionaries, in declaration order.\<close>

definition CHORD_TONES :: "(string \<times> int list) list" where
  "CHORD_TONES =
     [(''major'', [0, 4, 7]),
      (''minor'', [0, 3, 7]),
      (''diminished'', [0, 3, 6]),
      (''augmented'', [0, 4, 8]),
      (''major7'', [0, 4, 7, 11]),
      (''minor7'', [0, 3, 7, 10]),
      (''dominant7'', [0, 4, 7, 10]),
      (''diminished7'', [0, 3, 6, 9]),
      (''half_diminished7'', [0, 3, 6, 10]),
      (''major9'', [0, 4, 7, 11, 2]),
      (''minor9'', [0, 3, 7, 10, 2]),
      (''dominant9'', [0, 4, 7, 10, 2]),
      (''major11'', [0, 4, 7, 11, 2, 5]),
      (''minor11'', [0, 3, 7, 10, 2, 5]),
      (''dominant11'', [0, 4, 7, 10, 2, 5]),
      (''major13'', [0, 4, 7, 11, 2, 5, 9]),
      (''minor13'', [0, 3, 7, 10, 2, 5, 9]),
      (''dominant13'', [0, 4, 7, 10, 2, 5, 9]),
      (''sus2'', [0, 2, 7]),
      (''sus4'', [0, 5, 7])]"

definition CHORD_SYMBOLS :: "(string \<times> string) list" where
  "CHORD_SYMBOLS =
     [(''major'', ''''),
      (''minor'', ''m''),
      (''diminished'', ''dim''),
      (''augmented'', ''aug''),
      (''major7'', ''maj7''),
      (''minor7'', ''m7''),
      (''dominant7'', ''7''),
      (''diminished7'', ''dim7''),
      (''half_diminished7'', ''m7b5''),
      (''major9'', ''maj9''),
      (''minor9'', ''m9''),
      (''dominant9'', ''9''),
      (''major11'', ''maj11''),
      (''minor11'', ''m11''),
      (''dominant11'', ''11''),
      (''major13'', ''maj13''),
      (''minor13'', ''m13''),
      (''dominant13'', ''13''),
      (''sus2'', ''sus2''),
      (''sus4'', ''sus4'')]"

text \<open>\<open>self.bass = bass or root\<close>: a note is always truthy, so only \<open>None\<close> is replaced.\<close>

definition Chord_init :: "Note \<Rightarrow> string \<Rightarrow> Note option \<Rightarrow> error + Chord" where
  "Chord_init r q b =
     (if map_of CHORD_TONES q = None then Inl ValueError
      else Inr \<lparr>root_note = r, quality = q, bass = (case b of None \<Rightarrow> r | Some n \<Rightarrow> n)\<rparr>)"

text \<open>
  The alias table of \<open>_parse_quality\<close>. The degree sign and the slashed o are the code
  points \<open>0xB0\<close> and \<open>0xF8\<close>.
\<close>

definition quality_map :: "(string \<times> string) list" where
  "quality_map =
     [('''', ''major''),
      (''M'', ''major''),
      (''maj'', ''major''),
      (''m'', ''minor''),
      (''min'', ''minor''),
      (''dim'', ''diminished''),
      ([CHR 0xB0], ''diminished''),
      (''aug'', ''augmented''),
      (''+'', ''augmented''),
      (''7'', ''dominant7''),
      (''maj7'', ''major7''),
      (''M7'', ''major7''),
      (''m7'', ''minor7''),
      (''min7'', ''minor7''),
      (''dim7'', ''diminished7''),
      ([CHR 0xB0, CHR ''7''], ''diminished7''),
      (''m7b5'', ''half_diminished7''),
      ([CHR 0xF8, CHR ''7''], ''half_diminished7''),
      (''9'', ''dominant9''),
      (''maj9'', ''major9''),
      (''M9'', ''major9''),
      (''m9'', ''minor9''),
      (''11'', ''dominant11''),
      (''maj11'', ''major11''),
      (''m11'', ''minor11''),
      (''13'', ''dominant13''),
      (''maj13'', ''major13''),
      (''m13'', ''minor13''),
      (''sus2'', ''sus2''),
      (''sus4'', ''sus4'')]"

definition parse_quality :: "string \<Rightarrow> error + string" where
  "parse_quality quality_str =
     (case map_of quality_map quality_str of
        Some q \<Rightarrow> Inr q
      | None \<Rightarrow> Inl ValueError)"

definition from_symbol :: "string \<Rightarrow> int \<Rightarrow> error + Chord" where
  "from_symbol symbol oct =
     (case (if CHR ''/'' \<in> set symbol
            then (case py_split CHR ''/'' symbol of
                    [chord_part, bass_part] \<Rightarrow>
                      (case Note_init (PitchName bass_part) (Some oct) of
                         Inl e \<Rightarrow> Inl e
                       | Inr bass_note \<Rightarrow> Inr (chord_part, Some bass_note))
                  | _ \<Rightarrow> Inl ValueError)
            else Inr (symbol, None)) of
        Inl e \<Rightarrow> Inl e
      | Inr (chord_part, bass_note) \<Rightarrow>
          (case chord_part of
             [] \<Rightarrow> Inl ValueError
           | c # remainder \<Rightarrow>
               (let (root_str, remainder) =
                      (case remainder of
                         a # rest \<Rightarrow> if a \<in> set ''#b'' then ([c, a], rest) else ([c], remainder)
                       | [] \<Rightarrow> ([c], remainder))
                in case Note_init (PitchName root_str) (Some oct) of
                     Inl e \<Rightarrow> Inl e
                   | Inr r \<Rightarrow>
                       (case parse_quality remainder of
                          Inl e \<Rightarrow> Inl e
                        | Inr q \<Rightarrow> Chord_init r q bass_note))))"

definition Chord_notes :: "Chord \<Rightarrow> error + Note list" where
  "Chord_notes c =
     (case map_of CHORD_TONES (quality c) of
        None \<Rightarrow> Inl KeyError
      | Some intervals \<Rightarrow> traverse (\<lambda>interval_semitones. Note_transpose (root_note c) interval_semitones) intervals)"

definition Chord_pitch_classes :: "Chord \<Rightarrow> error + string set" where
  "Chord_pitch_classes c =
     (case Chord_notes c of
        Inl e \<Rightarrow> Inl e
      | Inr ns \<Rightarrow> Inr (set (map pitch_class ns)))"

definition Chord_symbol :: "Chord \<Rightarrow> error + string" where
  "Chord_symbol c =
     (case map_of CHORD_SYMBOLS (quality c) of
        None \<Rightarrow> Inl KeyError
      | Some suffix \<Rightarrow>
          (let symbol = pitch_class (root_note c) @ suffix
           in if \<not> Note_eq (bass c) (root_note c)
              then Inr (symbol @ ''/'' @ pitch_class (bass c))
              else Inr symbol))"

text \<open>\<open>Chord.__eq__\<close>: roots and basses by MIDI number, qualities by name.\<close>

definition Chord_eq :: "Chord \<Rightarrow> Chord \<Rightarrow> bool" where
  "Chord_eq a b =
     (Note_eq (root_note a) (root_note b) \<and> quality a = quality b \<and> Note_eq (bass a) (bass b))"

section \<open>Scales: \<open>core/scale.py\<close>\<close>

text \<open>
  \<open>Scale.SCALE_PATTERNS\<close> is a class attribute that \<open>from_mode\<close> writes, so the
  operations of a scale take the catalog they read as an argument, and \<open>from_mode\<close>
  returns the catalog it leaves behind. An item assignment \<open>d[k] = v\<close> keeps the
  position of a key already present and appends a new one, as \<open>AList.update\<close> does.
\<close>

type_synonym catalog = "(string \<times> int list) list"

definition SCALE_PATTERNS :: catalog where
  "SCALE_PATTERNS =
     [(''major'', [0, 2, 4, 5, 7, 9, 11]),
      (''natural_minor'', [0, 2, 3, 5, 7, 8, 10]),
      (''harmonic_minor'', [0, 2, 3, 5, 7, 8, 11]),
      (''melodic_minor'', [0, 2, 3, 5, 7, 9, 11]),
      (''dorian'', [0, 2, 3, 5, 7, 9, 10]),
      (''phrygian'', [0, 1, 3, 5, 7, 8, 10]),
      (''lydian'', [0, 2, 4, 6, 7, 9, 11]),
      (''mixolydian'', [0, 2, 4, 5, 7, 9, 10]),
      (''locrian'', [0, 1, 3, 5, 6, 8, 10]),
      (''chromatic'', [0, 1, 2, 3, 4, 5, 6, 7, 8, 9, 10, 11]),
      (''pentatonic_major'', [0, 2, 4, 7, 9]),
      (''pentatonic_minor'', [0, 3, 5, 7, 10]),
      (''blues'', [0, 3, 5, 6, 7, 10]),
      (''whole_tone'', [0, 2, 4, 6, 8, 10]),
      (''diminished_hw'', [0, 1, 3, 4, 6, 7, 9, 10]),
      (''diminished_wh'', [0, 2, 3, 5, 6, 8, 9, 11])]"

definition MODE_NAMES :: "(int \<times> string) list" where
  "MODE_NAMES =
     [(0, ''ionian''),
      (1, ''dorian''),
      (2, ''phrygian''),
      (3, ''lydian''),
      (4, ''mixolydian''),
      (5, ''aeolian''),
      (6, ''locrian'')]"

text \<open>
  The attributes \<open>_is_mode\<close>, \<open>_parent_scale\<close> and \<open>_mode_number\<close> exist only on a
  scale that \<open>from_mode\<close> returned.
\<close>

record Scale =
  scale_tonic :: Note
  scale_type :: string
  is_mode :: "bool option"
  parent_scale :: "string option"
  mode_number :: "int option"

definition Scale_init :: "catalog \<Rightarrow> Note \<Rightarrow> string \<Rightarrow> error + Scale" where
  "Scale_init cat t st =
     (if map_of cat st = None then Inl ValueError
      else Inr \<lparr>scale_tonic = t, scale_type = st,
                is_mode = None, parent_scale = None, mode_number = None\<rparr>)"

definition from_mode :: "catalog \<Rightarrow> Note \<Rightarrow> int \<Rightarrow> string \<Rightarrow> (error + Scale) \<times> catalog" where
  "from_mode cat t m parent =
     (case map_of cat parent of
        None \<Rightarrow> (Inl ValueError, cat)
      | Some parent_pattern \<Rightarrow>
          if m \<ge> int (length parent_pattern) then (Inl ValueError, cat)
          else
            (case py_get parent_pattern m of
               Inl e \<Rightarrow> (Inl e, cat)
             | Inr mode_root \<Rightarrow>
                 (let mode_pattern =
                        map (\<lambda>degree. (degree - mode_root) mod 12)
                          (slice_from parent_pattern m @ slice_to parent_pattern m);
                      mode_name =
                        (case (if parent = ''major'' then map_of MODE_NAMES m else None) of
                           Some name \<Rightarrow> name
                         | None \<Rightarrow> parent @ ''_mode_'' @ str_int m);
                      original_patterns = cat;
                      cat' = AList.update mode_name mode_pattern cat
                  in case Scale_init cat' t mode_name of
                       Inl e \<Rightarrow> (Inl e, original_patterns)
                     | Inr s \<Rightarrow>
                         (Inr (s\<lparr>is_mode := Some True, parent_scale := Some parent,
                                  mode_number := Some m\<rparr>),
                          original_patterns))))"

definition Scale_pattern :: "catalog \<Rightarrow> Scale \<Rightarrow> error + int list" where
  "Scale_pattern cat s =
     (case map_of cat (scale_type s) of
        None \<Rightarrow> Inl KeyError
      | Some p \<Rightarrow> Inr p)"

definition Scale_notes :: "catalog \<Rightarrow> Scale \<Rightarrow> error + Note list" where
  "Scale_notes cat s =
     (case Scale_pattern cat s of
        Inl e \<Rightarrow> Inl e
      | Inr p \<Rightarrow> traverse (\<lambda>st. Note_transpose (scale_tonic s) st) p)"

definition Scale_pitch_classes :: "catalog \<Rightarrow> Scale \<Rightarrow> error + string list" where
  "Scale_pitch_classes cat s =
     (case Scale_notes cat s of
        Inl e \<Rightarrow> Inl e
      | Inr ns \<Rightarrow> Inr (map pitch_class ns))"

definition get_degree :: "catalog \<Rightarrow> Scale \<Rightarrow> int \<Rightarrow> error + Note" where
  "get_degree cat s degree =
     (case Scale_pattern cat s of
        Inl e \<Rightarrow> Inl e
      | Inr p \<Rightarrow>
          if \<not> (1 \<le> degree \<and> degree \<le> int (length p)) then Inl ValueError
          else (case Scale_notes cat s of
                  Inl e \<Rightarrow> Inl e
                | Inr ns \<Rightarrow> py_get ns (degree - 1)))"

text \<open>The 1-based position of the first scale note with the note's pitch-class name.\<close>

definition get_note_degree :: "catalog \<Rightarrow> Scale \<Rightarrow> Note \<Rightarrow> error + int option" where
  "get_note_degree cat s n =
     (case Scale_notes cat s of
        Inl e \<Rightarrow> Inl e
      | Inr ns \<Rightarrow>
          Inr (case list_index (map pitch_class ns) (pitch_class n) of
                 Some i \<Rightarrow> Some (int i + 1)
               | None \<Rightarrow> None))"

definition Scale_contains_note :: "catalog \<Rightarrow> Scale \<Rightarrow> Note \<Rightarrow> error + bool" where
  "Scale_contains_note cat s n =
     (case Scale_pitch_classes cat s of
        Inl e \<Rightarrow> Inl e
      | Inr pcs \<Rightarrow> Inr (pitch_class n \<in> set pcs))"

definition triad_quality :: "int list \<Rightarrow> string" where
  "triad_quality intervals =
     (if intervals = [4, 7] then ''major''
      else if intervals = [3, 7] then ''minor''
      else if intervals = [3, 6] then ''diminished''
      else if intervals = [4, 8] then ''augmented''
      else ''major'')"

definition seventh_quality :: "int list \<Rightarrow> string" where
  "seventh_quality intervals =
     (if intervals = [4, 7, 11] then ''major7''
      else if intervals = [3, 7, 10] then ''minor7''
      else if intervals = [4, 7, 10] then ''dominant7''
      else if intervals = [3, 6, 10] then ''half_diminished7''
      else if intervals = [3, 6, 9] then ''diminished7''
      else ''dominant7'')"

definition get_chord_for_degree :: "catalog \<Rightarrow> Scale \<Rightarrow> int \<Rightarrow> string \<Rightarrow> error + Chord" where
  "get_chord_for_degree cat s degree chord_type =
     (case get_degree cat s degree of
        Inl e \<Rightarrow> Inl e
      | Inr r \<Rightarrow>
          (case (if chord_type = ''triad'' then Inr [0, 2, 4]
                 else if chord_type = ''seventh'' then Inr [0, 2, 4, 6]
                 else Inl ValueError) of
             Inl e \<Rightarrow> Inl e
           | Inr degrees \<Rightarrow>
               (case Scale_notes cat s of
                  Inl e \<Rightarrow> Inl e
                | Inr scale_notes \<Rightarrow>
                    (let scale_length = int (length scale_notes);
                         root_index = degree - 1;
                         chord_notes =
                           map (\<lambda>deg_offset. scale_notes ! nat ((root_index + deg_offset) mod scale_length))
                             degrees;
                         intervals = map (\<lambda>n. simple_semitones (from_notes r n)) (tl chord_notes);
                         q = (if length intervals = 2 then triad_quality intervals
                              else if length intervals = 3 then seventh_quality intervals
                              else ''major'')
                     in Chord_init r q None))))"

section \<open>Keys: \<open>core/key.py\<close>\<close>

text \<open>
  Outside \<open>from_mode\<close> nothing writes the scale catalog, and \<open>from_mode\<close> hands it back
  with the contents it found, so a key reads the catalog as declared.
\<close>

record Key =
  tonic :: Note
  mode :: string
  key_scale :: Scale

definition Key_init :: "Note \<Rightarrow> string \<Rightarrow> error + Key" where
  "Key_init t m =
     (let lowered = py_lower m
      in if lowered \<notin> set [''major'', ''minor''] then Inl ValueError
         else (case Scale_init SCALE_PATTERNS t (if m = ''major'' then ''major'' else ''natural_minor'') of
                 Inl e \<Rightarrow> Inl e
               | Inr s \<Rightarrow> Inr \<lparr>tonic = t, mode = lowered, key_scale = s\<rparr>))"

definition Key_get_chord_for_degree :: "Key \<Rightarrow> int \<Rightarrow> error + Chord" where
  "Key_get_chord_for_degree k degree =
     get_chord_for_degree SCALE_PATTERNS (key_scale k) degree ''triad''"

definition Key_contains_note :: "Key \<Rightarrow> Note \<Rightarrow> error + bool" where
  "Key_contains_note k n = Scale_contains_note SCALE_PATTERNS (key_scale k) n"

definition parallel_key :: "Key \<Rightarrow> error + Key" where
  "parallel_key k = Key_init (tonic k) (if mode k = ''major'' then ''minor'' else ''major'')"

text \<open>
  The dictionary returned by \<open>analyze_chord\<close>. The value under \<open>'function'\<close> is a label
  or Python's \<open>None\<close>. \<open>non_chord_tones\<close> is filled while iterating over a set, in an
  order Python does not fix, so it is kept as a set.
\<close>

record analysis =
  an_chord :: Chord
  is_diatonic :: bool
  degree :: "int option"
  harmonic_function :: "string option"
  non_chord_tones :: "string set"

text \<open>The two \<open>if\<close>/\<open>elif\<close> chains that assign the function, one per mode.\<close>

definition function_of_degree :: "string \<Rightarrow> int \<Rightarrow> string option" where
  "function_of_degree m root_degree =
     (if m = ''major'' then
        (if root_degree \<in> set [1] then Some ''tonic''
         else if root_degree \<in> set [4] then Some ''subdominant''
         else if root_degree \<in> set [5] then Some ''dominant''
         else if root_degree \<in> set [6, 3] then Some ''tonic''
         else if root_degree \<in> set [2] then Some ''subdominant''
         else if root_degree \<in> set [7] then Some ''dominant''
         else None)
      else
        (if root_degree \<in> set [1] then Some ''tonic''
         else if root_degree \<in> set [4] then Some ''subdominant''
         else if root_degree \<in> set [5] then Some ''dominant''
         else if root_degree \<in> set [3, 6] then Some ''tonic''
         else if root_degree \<in> set [2] then Some ''subdominant''
         else if root_degree \<in> set [7] then Some ''dominant''
         else None))"

text \<open>\<open>if root_degree:\<close> holds for an integer other than 0.\<close>

definition truthy_degree :: "int option \<Rightarrow> bool" where
  "truthy_degree d = (case d of None \<Rightarrow> False | Some i \<Rightarrow> i \<noteq> 0)"

definition analyze_chord :: "Key \<Rightarrow> Chord \<Rightarrow> error + analysis" where
  "analyze_chord k chord =
     (case get_note_degree SCALE_PATTERNS (key_scale k) (root_note chord) of
        Inl e \<Rightarrow> Inl e
      | Inr root_degree \<Rightarrow>
          (case root_degree of
             None \<Rightarrow>
               Inr \<lparr>an_chord = chord, is_diatonic = False, degree = root_degree,
                    harmonic_function = None, non_chord_tones = {}\<rparr>
           | Some d \<Rightarrow>
               if \<not> truthy_degree root_degree then
                 Inr \<lparr>an_chord = chord, is_diatonic = False, degree = root_degree,
                      harmonic_function = None, non_chord_tones = {}\<rparr>
               else
                 (case Key_get_chord_for_degree k d of
                    Inl e \<Rightarrow> Inl e
                  | Inr expected_chord \<Rightarrow>
                      (case Chord_pitch_classes chord of
                         Inl e \<Rightarrow> Inl e
                       | Inr chord_pitch_classes \<Rightarrow>
                           (case Chord_pitch_classes expected_chord of
                              Inl e \<Rightarrow> Inl e
                            | Inr expected_pitch_classes \<Rightarrow>
                                (case Scale_pitch_classes SCALE_PATTERNS (key_scale k) of
                                   Inl e \<Rightarrow> Inl e
                                 | Inr scale_pcs \<Rightarrow>
                                     Inr \<lparr>an_chord = chord,
                                          is_diatonic = (chord_pitch_classes = expected_pitch_classes),
                                          degree = root_degree,
                                          harmonic_function = function_of_degree (mode k) d,
                                          non_chord_tones =
                                            (if chord_pitch_classes = expected_pitch_classes then {}
                                             else Set.filter (\<lambda>pc. pc \<notin> set scale_pcs) chord_pitch_classes)\<rparr>))))))"

section \<open>Progressions: \<open>core/progression.py\<close>\<close>

record ChordProgression =
  chords :: "Chord list"
  key :: "Key option"
  durations :: "real list"

definition ChordProgression_init ::
    "Chord list \<Rightarrow> Key option \<Rightarrow> real list option \<Rightarrow> error + ChordProgression" where
  "ChordProgression_init cs k ds =
     (if cs = [] then Inl ValueError
      else (case ds of
              None \<Rightarrow> Inr \<lparr>chords = cs, key = k, durations = replicate (length cs) 1\<rparr>
            | Some d \<Rightarrow>
                if length d \<noteq> length cs then Inl ValueError
                else Inr \<lparr>chords = cs, key = k, durations = d\<rparr>))"

definition transpose_chord :: "int \<Rightarrow> Chord \<Rightarrow> error + Chord" where
  "transpose_chord st chord =
     (case Note_transpose (root_note chord) st of
        Inl e \<Rightarrow> Inl e
      | Inr new_root \<Rightarrow>
          (case (if \<not> Note_eq (bass chord) (root_note chord)
                 then (case Note_transpose (bass chord) st of
                         Inl e \<Rightarrow> Inl e
                       | Inr b \<Rightarrow> Inr (Some b))
                 else Inr None) of
             Inl e \<Rightarrow> Inl e
           | Inr new_bass \<Rightarrow> Chord_init new_root (quality chord) new_bass))"

definition progression_transpose :: "ChordProgression \<Rightarrow> Interval \<Rightarrow> error + ChordProgression" where
  "progression_transpose p interval =
     (case traverse (transpose_chord (semitones interval)) (chords p) of
        Inl e \<Rightarrow> Inl e
      | Inr transposed_chords \<Rightarrow>
          (case (case key p of
                   None \<Rightarrow> Inr None
                 | Some k \<Rightarrow>
                     (case Note_transpose (tonic k) (semitones interval) of
                        Inl e \<Rightarrow> Inl e
                      | Inr new_tonic \<Rightarrow>
                          (case Key_init new_tonic (mode k) of
                             Inl e \<Rightarrow> Inl e
                           | Inr nk \<Rightarrow> Inr (Some nk)))) of
             Inl e \<Rightarrow> Inl e
           | Inr new_key \<Rightarrow> ChordProgression_init transposed_chords new_key (Some (durations p))))"

definition substitute_chord :: "ChordProgression \<Rightarrow> int \<Rightarrow> Chord \<Rightarrow> error + ChordProgression" where
  "substitute_chord p index new_chord =
     (case py_set (chords p) index new_chord of
        Inl e \<Rightarrow> Inl e
      | Inr new_chords \<Rightarrow> ChordProgression_init new_chords (key p) (Some (durations p)))"

definition insert_chord ::
    "ChordProgression \<Rightarrow> int \<Rightarrow> Chord \<Rightarrow> real \<Rightarrow> error + ChordProgression" where
  "insert_chord p index chord duration =
     (let new_chords = py_insert (chords p) index chord;
          new_durations = py_insert (durations p) index duration
      in ChordProgression_init new_chords (key p) (Some new_durations))"

definition progression_extend :: "ChordProgression \<Rightarrow> ChordProgression \<Rightarrow> error + ChordProgression" where
  "progression_extend p other =
     (let extended_chords = chords p @ chords other;
          extended_durations = durations p @ durations other
      in ChordProgression_init extended_chords (key p) (Some extended_durations))"

definition repeat :: "ChordProgression \<Rightarrow> int \<Rightarrow> error + ChordProgression" where
  "repeat p n_times =
     (if n_times < 1 then Inl ValueError
      else (let repeated_chords = py_repeat (chords p) n_times;
                repeated_durations = py_repeat (durations p) n_times
            in ChordProgression_init repeated_chords (key p) (Some repeated_durations)))"

definition from_symbols ::
    "string list \<Rightarrow> Key option \<Rightarrow> real list option \<Rightarrow> error + ChordProgression" where
  "from_symbols chord_symbols k ds =
     (case traverse (\<lambda>symbol. from_symbol symbol 4) chord_symbols of
        Inl e \<Rightarrow> Inl e
      | Inr cs \<Rightarrow> ChordProgression_init cs k ds)"

section \<open>Suggestions: \<open>suggestions/base_strategy.py\<close>\<close>

text \<open>
  The reasoning of a suggestion is display text with characters beyond code point 255
  (the flat sign, superscript digits), so it is kept as a list of code points;
  \<open>code_points\<close> embeds a string.
\<close>

type_synonym unicode = "nat list"

definition code_points :: "string \<Rightarrow> unicode" where
  "code_points s = map of_char s"

record ChordSuggestion =
  chord :: Chord
  confidence :: real
  reasoning :: unicode
  position :: real
  voice_leading_quality :: real
  strategy_source :: "string option"

text \<open>Sequencing of calls that may raise, and \<open>try: ... except Exception\<close>.\<close>

definition bind_err :: "error + 'a \<Rightarrow> ('a \<Rightarrow> error + 'b) \<Rightarrow> error + 'b" where
  "bind_err m f = (case m of Inl e \<Rightarrow> Inl e | Inr x \<Rightarrow> f x)"

definition try_except :: "error + 'a \<Rightarrow> 'a \<Rightarrow> 'a" where
  "try_except m handler = (case m of Inl e \<Rightarrow> handler | Inr x \<Rightarrow> x)"

text \<open>
  The body of a \<open>try\<close> block that appends to a list in several steps: a step that raises
  ends the block, and what the earlier steps appended stays.
\<close>

fun try_steps :: "(error + 'a list) list \<Rightarrow> 'a list" where
  "try_steps [] = []"
| "try_steps (m # ms) = (case m of Inl e \<Rightarrow> [] | Inr xs \<Rightarrow> xs @ try_steps ms)"

text \<open>\<open>enumerate(xs)\<close> and \<open>sub in s\<close> on strings.\<close>

definition enumerate_py :: "'a list \<Rightarrow> (int \<times> 'a) list" where
  "enumerate_py xs = zip (map int [0..<length xs]) xs"

fun is_substring :: "string \<Rightarrow> string \<Rightarrow> bool" where
  "is_substring sub [] = (sub = [])"
| "is_substring sub (c # cs) = (sub = take (length sub) (c # cs) \<or> is_substring sub cs)"

text \<open>
  \<open>sorted(suggestions, key=lambda x: x.confidence, reverse=True)\<close>: a stable sort that
  keeps suggestions of equal confidence in their order.
\<close>

definition sort_by_confidence :: "ChordSuggestion list \<Rightarrow> ChordSuggestion list" where
  "sort_by_confidence xs = sort_key (\<lambda>x. - confidence x) xs"

definition calculate_voice_leading_quality :: "Chord \<Rightarrow> Chord \<Rightarrow> error + real" where
  "calculate_voice_leading_quality chord1 chord2 =
     bind_err (Chord_pitch_classes chord1) (\<lambda>pc1.
     bind_err (Chord_pitch_classes chord2) (\<lambda>pc2.
       let common_tones = card (pc1 \<inter> pc2);
           max_possible_common = min (card pc1) (card pc2)
       in if max_possible_common = 0 then Inr (1 / 2)
          else
            let common_tone_ratio = real common_tones / real max_possible_common;
                root_interval = from_notes (root_note chord1) (root_note chord2);
                root_motion_semitones = \<bar>simple_semitones root_interval\<bar>;
                effective_semitones = min root_motion_semitones (12 - root_motion_semitones);
                root_motion_quality = 1 - real_of_int effective_semitones / 12;
                root_motion_quality =
                  (if root_motion_semitones \<in> set [5, 7] then root_motion_quality + 2 / 10
                   else if root_motion_semitones \<in> set [1, 2] then root_motion_quality + 1 / 10
                   else if root_motion_semitones \<in> set [3, 4] then root_motion_quality + 15 / 100
                   else root_motion_quality);
                quality_value = common_tone_ratio * (6 / 10) + root_motion_quality * (4 / 10)
            in Inr (min 1 (max 0 quality_value))))"

definition get_scale_degree :: "Chord \<Rightarrow> Key \<Rightarrow> int option" where
  "get_scale_degree c k =
     try_except (get_note_degree SCALE_PATTERNS (key_scale k) (root_note c)) None"

definition is_diatonic_chord :: "Chord \<Rightarrow> Key \<Rightarrow> error + bool" where
  "is_diatonic_chord c k = bind_err (analyze_chord k c) (\<lambda>a. Inr (is_diatonic a))"

text \<open>
  \<open>analysis.get('function', 'unknown')\<close>: the key \<open>'function'\<close> is always present, so
  the default is never used and the result may be \<open>None\<close>.
\<close>

definition get_harmonic_function :: "Chord \<Rightarrow> Key \<Rightarrow> error + string option" where
  "get_harmonic_function c k = bind_err (analyze_chord k c) (\<lambda>a. Inr (harmonic_function a))"

definition is_cadential_position :: "ChordProgression \<Rightarrow> int \<Rightarrow> bool" where
  "is_cadential_position p pos = (pos \<ge> int (length (chords p)) - 2)"

definition get_next_chord :: "ChordProgression \<Rightarrow> int \<Rightarrow> error + Chord option" where
  "get_next_chord p pos =
     (if pos < int (length (chords p)) - 1
      then bind_err (py_get (chords p) (pos + 1)) (\<lambda>c. Inr (Some c))
      else Inr None)"

definition get_previous_chord :: "ChordProgression \<Rightarrow> int \<Rightarrow> error + Chord option" where
  "get_previous_chord p pos =
     (if pos > 0
      then bind_err (py_get (chords p) (pos - 1)) (\<lambda>c. Inr (Some c))
      else Inr None)"

text \<open>\<open>key or progression.key\<close>: a key object is always truthy.\<close>

definition analysis_key_of :: "ChordProgression \<Rightarrow> Key option \<Rightarrow> Key option" where
  "analysis_key_of p k = (case k of Some x \<Rightarrow> Some x | None \<Rightarrow> key p)"

text \<open>\<open>str(x)\<close> of an optional integer, and the lookup \<open>names.get(degree, str(degree))\<close>.\<close>

definition str_opt_int :: "int option \<Rightarrow> string" where
  "str_opt_int d = (case d of None \<Rightarrow> ''None'' | Some i \<Rightarrow> str_int i)"

definition degree_name :: "(int \<times> string) list \<Rightarrow> int option \<Rightarrow> string" where
  "degree_name names d =
     (case d of
        None \<Rightarrow> str_opt_int d
      | Some i \<Rightarrow> (case map_of names i of Some n \<Rightarrow> n | None \<Rightarrow> str_opt_int d))"

text \<open>The dataclass constructor; \<open>strategy_source\<close> defaults to \<open>None\<close>.\<close>

definition ChordSuggestion_init ::
    "Chord \<Rightarrow> real \<Rightarrow> unicode \<Rightarrow> real \<Rightarrow> real \<Rightarrow> ChordSuggestion" where
  "ChordSuggestion_init c conf r pos vlq =
     \<lparr>chord = c, confidence = conf, reasoning = r, position = pos,
      voice_leading_quality = vlq, strategy_source = None\<rparr>"

text \<open>Code points of the flat sign, the superscripts 6 and 7, and the degree sign.\<close>

definition flat_sign :: nat where "flat_sign = 0x266D"
definition superscript_six :: nat where "superscript_six = 0x2076"
definition superscript_seven :: nat where "superscript_seven = 0x2077"
definition degree_sign :: nat where "degree_sign = 0xB0"

section \<open>Borrowed chords: \<open>suggestions/borrowed_chord.py\<close>\<close>

definition is_good_borrowed_chord_position ::
    "ChordProgression \<Rightarrow> int \<Rightarrow> Key \<Rightarrow> error + bool" where
  "is_good_borrowed_chord_position p pos k =
     bind_err (py_get (chords p) pos) (\<lambda>current_chord.
     bind_err (is_diatonic_chord current_chord k) (\<lambda>diatonic.
       if \<not> diatonic then Inr False
       else if is_cadential_position p pos then Inr True
       else
         bind_err (get_harmonic_function current_chord k) (\<lambda>func.
           if func \<in> set [Some ''subdominant'', Some ''tonic''] then Inr True
           else
             bind_err (get_next_chord p pos) (\<lambda>next_chord.
               case next_chord of
                 Some nc \<Rightarrow>
                   bind_err (get_harmonic_function nc k) (\<lambda>next_function.
                     Inr (next_function = Some ''dominant''))
               | None \<Rightarrow> Inr False))))"

definition calculate_borrowed_chord_confidence ::
    "Chord \<Rightarrow> Chord \<Rightarrow> Key \<Rightarrow> int \<Rightarrow> ChordProgression \<Rightarrow> error + real" where
  "calculate_borrowed_chord_confidence current_chord borrowed_chord k pos p =
     (let base_confidence = 7 / 10;
          base_confidence = (if mode k = ''minor'' then base_confidence + 1 / 10 else base_confidence)
      in bind_err (get_harmonic_function current_chord k) (\<lambda>func.
           let base_confidence =
                 (if func = Some ''subdominant'' then base_confidence + 1 / 10
                  else if func = Some ''tonic'' \<and> pos > 0 then base_confidence + 5 / 100
                  else base_confidence)
           in bind_err (calculate_voice_leading_quality current_chord borrowed_chord) (\<lambda>voice_leading.
                let conf = base_confidence + voice_leading * (15 / 100);
                    conf = (if pos \<ge> int (length (chords p)) - 2 then conf + 1 / 10 else conf)
                in Inr (min (95 / 100) conf))))"

definition calculate_modal_borrowed_confidence ::
    "Chord \<Rightarrow> Chord \<Rightarrow> Key \<Rightarrow> string \<Rightarrow> error + real" where
  "calculate_modal_borrowed_confidence current_chord borrowed_chord k source_mode =
     (let base_confidence = 65 / 100;
          base_confidence =
            (if source_mode = ''mixolydian'' then base_confidence + 15 / 100 else base_confidence)
      in bind_err (calculate_voice_leading_quality current_chord borrowed_chord) (\<lambda>voice_leading.
           let conf = base_confidence + voice_leading * (1 / 10)
           in Inr (min (9 / 10) conf)))"

definition borrowed_degree_names :: "(int \<times> string) list" where
  "borrowed_degree_names =
     [(1, ''I''), (2, ''ii''), (3, ''iii''), (4, ''IV''), (5, ''V''), (6, ''vi''), (7, ''vii'')]"

definition get_borrowed_chord_reasoning :: "int \<Rightarrow> string \<Rightarrow> string \<Rightarrow> unicode" where
  "get_borrowed_chord_reasoning deg original_mode borrowed_mode =
     (if original_mode = ''major'' \<and> borrowed_mode = ''minor'' then
        (let mode_desc = ''natural minor''
         in if deg = 4 then
              code_points (''Borrowed iv chord from '' @ mode_desc @ '' - creates plagal modal color'')
            else if deg = 6 then
              code_points (''Borrowed vi chord from '' @ mode_desc @ '' - deceptive resolution preparation'')
            else if deg = 7 then
              code_points ''Borrowed '' @ [flat_sign]
                @ code_points (''VII chord from '' @ mode_desc @ '' - modal mixture'')
            else if deg = 3 then
              code_points (''Borrowed iii chord from '' @ mode_desc @ '' - darker emotional color'')
            else
              code_points (''Borrowed '' @ degree_name borrowed_degree_names (Some deg)
                           @ '' chord from '' @ mode_desc))
      else if original_mode = ''minor'' \<and> borrowed_mode = ''major'' then
        (let mode_desc = ''parallel major''
         in if deg = 1 then
              code_points (''Picardy third - borrowed I chord from '' @ mode_desc)
            else if deg = 4 then
              code_points (''Borrowed IV chord from '' @ mode_desc @ '' - brightened subdominant'')
            else if deg = 5 then
              code_points (''Borrowed V chord from '' @ mode_desc @ '' - stronger dominant'')
            else
              code_points (''Borrowed '' @ degree_name borrowed_degree_names (Some deg)
                           @ '' chord from '' @ mode_desc))
      else code_points (''Modal interchange from '' @ borrowed_mode @ '' mode''))"

definition generate_modal_borrowed_chords ::
    "Chord \<Rightarrow> Key \<Rightarrow> int \<Rightarrow> int \<Rightarrow> ChordProgression \<Rightarrow> ChordSuggestion list" where
  "generate_modal_borrowed_chords current_chord k deg pos p =
     (if mode k \<noteq> ''major'' then []
      else
        (if deg = 7 then
           try_except
             (bind_err (Note_transpose (tonic k) 10) (\<lambda>flat_seventh_root.
              bind_err (Chord_init flat_seventh_root ''major'' None) (\<lambda>mixolydian_chord.
              bind_err (calculate_modal_borrowed_confidence current_chord mixolydian_chord k ''mixolydian'') (\<lambda>conf.
              bind_err (calculate_voice_leading_quality current_chord mixolydian_chord) (\<lambda>vlq.
                Inr [ChordSuggestion_init mixolydian_chord conf
                       ([flat_sign] @ code_points ''VII borrowed from Mixolydian mode - common in popular music'')
                       (of_int pos) vlq])))))
             []
         else [])
        @
        (if deg = 3 then
           try_except
             (bind_err (Note_transpose (tonic k) 3) (\<lambda>flat_third_root.
              bind_err (Chord_init flat_third_root ''major'' None) (\<lambda>minor_borrowed_chord.
              bind_err (calculate_modal_borrowed_confidence current_chord minor_borrowed_chord k ''natural_minor'') (\<lambda>conf.
              bind_err (calculate_voice_leading_quality current_chord minor_borrowed_chord) (\<lambda>vlq.
                Inr [ChordSuggestion_init minor_borrowed_chord conf
                       ([flat_sign] @ code_points ''III borrowed from natural minor - adds modal color'')
                       (of_int pos) vlq])))))
             []
         else []))"

definition generate_borrowed_chords ::
    "Chord \<Rightarrow> Key \<Rightarrow> int \<Rightarrow> ChordProgression \<Rightarrow> error + ChordSuggestion list" where
  "generate_borrowed_chords current_chord k pos p =
     (case get_scale_degree current_chord k of
        None \<Rightarrow> Inr []
      | Some deg \<Rightarrow>
          if deg = 0 then Inr []
          else
            bind_err (parallel_key k) (\<lambda>pk.
              Inr (try_except
                     (bind_err (Key_get_chord_for_degree pk deg) (\<lambda>borrowed_chord.
                        if \<not> Chord_eq borrowed_chord current_chord then
                          bind_err (calculate_borrowed_chord_confidence current_chord borrowed_chord k pos p) (\<lambda>conf.
                          bind_err (calculate_voice_leading_quality current_chord borrowed_chord) (\<lambda>vlq.
                            Inr [ChordSuggestion_init borrowed_chord conf
                                   (get_borrowed_chord_reasoning deg (mode k) (mode pk))
                                   (of_int pos) vlq]))
                        else Inr []))
                     []
                   @ generate_modal_borrowed_chords current_chord k deg pos p)))"

definition BorrowedChord_suggest ::
    "ChordProgression \<Rightarrow> Key option \<Rightarrow> error + ChordSuggestion list" where
  "BorrowedChord_suggest p k =
     (case analysis_key_of p k of
        None \<Rightarrow> Inr []
      | Some analysis_key \<Rightarrow>
          bind_err
            (traverse
               (\<lambda>(i, current_chord).
                  bind_err (is_good_borrowed_chord_position p i analysis_key) (\<lambda>good.
                    if good then generate_borrowed_chords current_chord analysis_key i p
                    else Inr []))
               (enumerate_py (chords p)))
            (\<lambda>found. Inr (sort_by_confidence (concat found))))"

section \<open>Chromatic approach chords: \<open>suggestions/chromatic_approach.py\<close>\<close>

definition should_suggest_passing_chord :: "Interval \<Rightarrow> Chord \<Rightarrow> Chord \<Rightarrow> bool" where
  "should_suggest_passing_chord interval chord1 chord2 =
     (let st = \<bar>semitones interval\<bar>
      in if 2 \<le> st \<and> st \<le> 7 then True
         else if st \<in> set [5, 7] then True
         else False)"

definition is_minor_passing_appropriate :: "Note \<Rightarrow> Chord \<Rightarrow> Chord \<Rightarrow> Key \<Rightarrow> bool" where
  "is_minor_passing_appropriate r chord1 chord2 k =
     try_except (bind_err (Key_contains_note k r) (\<lambda>b. Inr b)) False"

definition is_major_passing_appropriate :: "Note \<Rightarrow> Chord \<Rightarrow> Chord \<Rightarrow> Key \<Rightarrow> bool" where
  "is_major_passing_appropriate r chord1 chord2 k =
     try_except
       (bind_err (get_note_degree SCALE_PATTERNS (key_scale k) r) (\<lambda>deg.
          Inr (truthy_degree deg \<and> deg \<in> set [Some 1, Some 4, Some 5])))
       False"

definition could_be_secondary_dominant :: "Note \<Rightarrow> Chord \<Rightarrow> Key \<Rightarrow> bool" where
  "could_be_secondary_dominant r target_chord k =
     (\<bar>simple_semitones (from_notes r (root_note target_chord))\<bar> = 7)"

definition get_passing_chord_qualities ::
    "Note \<Rightarrow> Chord \<Rightarrow> Chord \<Rightarrow> Key \<Rightarrow> string \<Rightarrow> (string \<times> real \<times> string) list" where
  "get_passing_chord_qualities r chord1 chord2 k direction =
     [(''diminished7'', 1, ''creates smooth voice leading''),
      (''dominant7'', 85 / 100, ''provides forward harmonic drive''),
      (''half_diminished7'', 75 / 100, ''adds sophisticated harmonic color'')]
     @ (if is_minor_passing_appropriate r chord1 chord2 k
        then [(''minor'', 65 / 100, ''creates gentle chromatic motion'')] else [])
     @ (if is_major_passing_appropriate r chord1 chord2 k
        then [(''major'', 6 / 10, ''provides bright passing harmony'')] else [])
     @ (if could_be_secondary_dominant r chord2 k
        then [(''dominant7'', 9 / 10, ''functions as secondary dominant'')] else [])"

text \<open>
  One pass of the loop over the passing-chord options; \<open>base\<close> and \<open>cap\<close> are 0.75 and
  0.95 when descending, 0.7 and 0.9 when ascending, and \<open>lead\<close> is the opening of the
  reasoning text.
\<close>

definition passing_chord_suggestion ::
    "real \<Rightarrow> real \<Rightarrow> string \<Rightarrow> Note \<Rightarrow> Chord \<Rightarrow> Chord \<Rightarrow> int
       \<Rightarrow> string \<times> real \<times> string \<Rightarrow> ChordSuggestion list" where
  "passing_chord_suggestion base cap lead passing_root chord1 chord2 pos option =
     (case option of (chord_quality, confidence_mod, reasoning_suffix) \<Rightarrow>
        try_except
          (bind_err (Chord_init passing_root chord_quality None) (\<lambda>passing_chord.
             let base_confidence = base * confidence_mod
             in bind_err (calculate_voice_leading_quality chord1 passing_chord) (\<lambda>vlq1.
                bind_err (calculate_voice_leading_quality passing_chord chord2) (\<lambda>vlq2.
                  let avg_voice_leading = (vlq1 + vlq2) / 2;
                      conf = min cap (base_confidence + avg_voice_leading * (2 / 10))
                  in bind_err (Chord_symbol chord1) (\<lambda>symbol1.
                     bind_err (Chord_symbol chord2) (\<lambda>symbol2.
                       let r = lead @ symbol1 @ '' to '' @ symbol2;
                           r = (if reasoning_suffix \<noteq> [] then r @ '' - '' @ reasoning_suffix else r)
                       in Inr [ChordSuggestion_init passing_chord conf (code_points r)
                                 (of_int pos + 1 / 2) avg_voice_leading]))))))
          [])"

definition generate_descending_passing_chords ::
    "Chord \<Rightarrow> Chord \<Rightarrow> Key \<Rightarrow> int \<Rightarrow> int \<Rightarrow> error + ChordSuggestion list" where
  "generate_descending_passing_chords chord1 chord2 k pos distance =
     bind_err (Note_transpose (root_note chord1) (- 1)) (\<lambda>passing_root.
       Inr (concat
              (map (passing_chord_suggestion (75 / 100) (95 / 100)
                      ''Chromatic passing chord connecting '' passing_root chord1 chord2 pos)
                 (get_passing_chord_qualities passing_root chord1 chord2 k ''descending''))))"

definition generate_ascending_passing_chords ::
    "Chord \<Rightarrow> Chord \<Rightarrow> Key \<Rightarrow> int \<Rightarrow> int \<Rightarrow> error + ChordSuggestion list" where
  "generate_ascending_passing_chords chord1 chord2 k pos distance =
     bind_err (Note_transpose (root_note chord1) 1) (\<lambda>passing_root.
       Inr (concat
              (map (passing_chord_suggestion (7 / 10) (9 / 10)
                      ''Chromatic approach chord from '' passing_root chord1 chord2 pos)
                 (get_passing_chord_qualities passing_root chord1 chord2 k ''ascending''))))"

definition generate_passing_chords ::
    "Chord \<Rightarrow> Chord \<Rightarrow> Key \<Rightarrow> int \<Rightarrow> error + ChordSuggestion list" where
  "generate_passing_chords chord1 chord2 k pos =
     (let root_interval = from_notes (root_note chord1) (root_note chord2);
          semitone_distance = semitones root_interval
      in if semitone_distance \<le> - 2
         then generate_descending_passing_chords chord1 chord2 k pos \<bar>semitone_distance\<bar>
         else if semitone_distance \<ge> 2
         then generate_ascending_passing_chords chord1 chord2 k pos semitone_distance
         else Inr [])"

text \<open>The adjacent pairs \<open>(i, chords[i], chords[i + 1])\<close> for \<open>i\<close> in \<open>range(len(chords) - 1)\<close>.\<close>

definition adjacent_pairs :: "'a list \<Rightarrow> (int \<times> 'a \<times> 'a) list" where
  "adjacent_pairs xs = zip (map int [0..<length xs - 1]) (zip xs (tl xs))"

definition ChromaticApproach_suggest ::
    "ChordProgression \<Rightarrow> Key option \<Rightarrow> error + ChordSuggestion list" where
  "ChromaticApproach_suggest p k =
     (case analysis_key_of p k of
        None \<Rightarrow> Inr []
      | Some analysis_key \<Rightarrow>
          bind_err
            (traverse
               (\<lambda>(i, current_chord, next_chord).
                  let root_interval = from_notes (root_note current_chord) (root_note next_chord)
                  in if should_suggest_passing_chord root_interval current_chord next_chord
                     then generate_passing_chords current_chord next_chord analysis_key i
                     else Inr [])
               (adjacent_pairs (chords p)))
            (\<lambda>found. Inr (sort_by_confidence (concat found))))"

section \<open>Neapolitan chords: \<open>suggestions/neapolitan.py\<close>\<close>

text \<open>
  \<open>any(f(c) == 'dominant' for c in cs)\<close> stops at the first chord that answers yes; an
  exception raised before that point propagates.
\<close>

fun any_dominant :: "Key \<Rightarrow> Chord list \<Rightarrow> error + bool" where
  "any_dominant k [] = Inr False"
| "any_dominant k (c # cs) =
     bind_err (get_harmonic_function c k) (\<lambda>func.
       if func = Some ''dominant'' then Inr True else any_dominant k cs)"

definition is_good_neapolitan_position ::
    "ChordProgression \<Rightarrow> int \<Rightarrow> Key \<Rightarrow> error + bool" where
  "is_good_neapolitan_position p pos k =
     bind_err (py_get (chords p) pos) (\<lambda>current_chord.
     bind_err (get_harmonic_function current_chord k) (\<lambda>func.
       if func = Some ''subdominant'' then Inr True
       else
         bind_err (get_next_chord p pos) (\<lambda>next_chord.
         bind_err (case next_chord of
                     Some nc \<Rightarrow>
                       bind_err (get_harmonic_function nc k) (\<lambda>next_function.
                         Inr (next_function = Some ''dominant''))
                   | None \<Rightarrow> Inr False) (\<lambda>next_is_dominant.
           if next_is_dominant then Inr True
           else
             bind_err (if is_cadential_position p pos \<and> pos < int (length (chords p)) - 1
                       then any_dominant k (slice_from (chords p) (pos + 1))
                       else Inr False) (\<lambda>sets_up_cadence.
               if sets_up_cadence then Inr True
               else Inr (get_scale_degree current_chord k = Some 2))))))"

record resolution_analysis =
  has_dominant_resolution :: bool
  resolution_quality :: real
  creates_good_bass_line :: bool

definition analyze_neapolitan_resolution ::
    "ChordProgression \<Rightarrow> int \<Rightarrow> Key \<Rightarrow> error + resolution_analysis" where
  "analyze_neapolitan_resolution p pos k =
     (let a = \<lparr>has_dominant_resolution = False, resolution_quality = 1 / 2,
               creates_good_bass_line = False\<rparr>
      in if pos < int (length (chords p)) - 1 then
           bind_err (py_get (chords p) (pos + 1)) (\<lambda>next_chord.
           bind_err (get_harmonic_function next_chord k) (\<lambda>next_function.
             if next_function = Some ''dominant'' then
               (let a = a\<lparr>has_dominant_resolution := True,
                           resolution_quality := resolution_quality a + 3 / 10\<rparr>
                in if pos < int (length (chords p)) - 2 then
                     bind_err (py_get (chords p) (pos + 2)) (\<lambda>final_chord.
                     bind_err (get_harmonic_function final_chord k) (\<lambda>final_function.
                       if final_function = Some ''tonic''
                       then Inr (a\<lparr>resolution_quality := resolution_quality a + 2 / 10\<rparr>)
                       else Inr a))
                   else Inr a)
             else Inr a))
         else Inr a)"

definition neapolitan_base_confidence :: "string \<Rightarrow> real" where
  "neapolitan_base_confidence chord_type =
     (case map_of [(''sixth'', 85 / 100), (''root'', 65 / 100), (''seventh'', 75 / 100)] chord_type of
        Some b \<Rightarrow> b
      | None \<Rightarrow> 7 / 10)"

definition calculate_neapolitan_confidence ::
    "Chord \<Rightarrow> Chord \<Rightarrow> Key \<Rightarrow> int \<Rightarrow> string \<Rightarrow> ChordProgression \<Rightarrow> error + real" where
  "calculate_neapolitan_confidence current_chord neapolitan_chord k pos chord_type p =
     (let base_confidence = neapolitan_base_confidence chord_type;
          base_confidence = (if mode k = ''minor'' then base_confidence + 1 / 10 else base_confidence)
      in bind_err (get_harmonic_function current_chord k) (\<lambda>current_function.
           let base_confidence =
                 (if current_function = Some ''subdominant'' then base_confidence + 1 / 10
                  else base_confidence);
               base_confidence =
                 (if get_scale_degree current_chord k = Some 2 then base_confidence + 15 / 100
                  else base_confidence)
           in bind_err (analyze_neapolitan_resolution p pos k) (\<lambda>res.
                let base_confidence =
                      (if has_dominant_resolution res then base_confidence + 1 / 10
                       else base_confidence);
                    base_confidence = base_confidence + resolution_quality res * (2 / 10)
                in bind_err (calculate_voice_leading_quality current_chord neapolitan_chord) (\<lambda>voice_leading.
                     let voice_leading =
                           (if chord_type = ''sixth'' then voice_leading + 1 / 10 else voice_leading);
                         final_confidence = base_confidence + voice_leading * (1 / 10)
                     in Inr (min (95 / 100) final_confidence)))))"

definition get_neapolitan_reasoning :: "Key \<Rightarrow> string \<Rightarrow> unicode" where
  "get_neapolitan_reasoning k chord_type =
     (let key_desc = pitch_class (tonic k) @ '' '' @ mode k;
          base_reasoning =
            (if chord_type = ''sixth'' then
               code_points ''Neapolitan sixth chord ('' @ [flat_sign] @ code_points ''II''
                 @ [superscript_six]
                 @ code_points ('') providing dramatic pre-dominant function in '' @ key_desc)
             else if chord_type = ''root'' then
               code_points ''Root position Neapolitan chord ('' @ [flat_sign]
                 @ code_points (''II) adding harmonic color in '' @ key_desc)
             else if chord_type = ''seventh'' then
               code_points ''Neapolitan seventh chord ('' @ [flat_sign] @ code_points ''II''
                 @ [superscript_seven]
                 @ code_points ('') for sophisticated pre-dominant harmony in '' @ key_desc)
             else
               code_points (''Neapolitan chord providing pre-dominant function in '' @ key_desc))
      in if mode k = ''minor''
         then base_reasoning @ code_points '' - particularly effective in minor keys''
         else base_reasoning @ code_points '' - borrowed from minor mode for dramatic effect'')"

definition create_neapolitan_sixth :: "Chord \<Rightarrow> Chord option" where
  "create_neapolitan_sixth neapolitan_triad =
     try_except
       (bind_err (Chord_notes neapolitan_triad) (\<lambda>chord_notes.
          if length chord_notes \<ge> 2 then
            bind_err (py_get chord_notes 1) (\<lambda>third_note.
            bind_err (Chord_init (root_note neapolitan_triad) ''major'' (Some third_note)) (\<lambda>c.
              Inr (Some c)))
          else Inr None))
       None"

definition create_neapolitan_seventh :: "Note \<Rightarrow> Chord option" where
  "create_neapolitan_seventh flat_ii_root =
     try_except (bind_err (Chord_init flat_ii_root ''dominant7'' None) (\<lambda>c. Inr (Some c))) None"

text \<open>One suggestion of the \<open>try\<close> block: confidence, then reasoning, then voice leading.\<close>

definition neapolitan_suggestion ::
    "Chord \<Rightarrow> Chord \<Rightarrow> Key \<Rightarrow> int \<Rightarrow> string \<Rightarrow> ChordProgression \<Rightarrow> error + ChordSuggestion list" where
  "neapolitan_suggestion current_chord neapolitan_chord k pos chord_type p =
     bind_err (calculate_neapolitan_confidence current_chord neapolitan_chord k pos chord_type p) (\<lambda>conf.
     bind_err (calculate_voice_leading_quality current_chord neapolitan_chord) (\<lambda>vlq.
       Inr [ChordSuggestion_init neapolitan_chord conf (get_neapolitan_reasoning k chord_type)
              (of_int pos) vlq]))"

definition generate_neapolitan_chords ::
    "Chord \<Rightarrow> Key \<Rightarrow> int \<Rightarrow> ChordProgression \<Rightarrow> error + ChordSuggestion list" where
  "generate_neapolitan_chords current_chord k pos p =
     bind_err (Note_transpose (tonic k) 1) (\<lambda>flat_ii_root.
       Inr (case Chord_init flat_ii_root ''major'' None of
              Inl e \<Rightarrow> []
            | Inr neapolitan_triad \<Rightarrow>
                try_steps
                  [case create_neapolitan_sixth neapolitan_triad of
                     Some neapolitan_sixth \<Rightarrow>
                       neapolitan_suggestion current_chord neapolitan_sixth k pos ''sixth'' p
                   | None \<Rightarrow> Inr [],
                   neapolitan_suggestion current_chord neapolitan_triad k pos ''root'' p,
                   case create_neapolitan_seventh flat_ii_root of
                     Some neapolitan_seventh \<Rightarrow>
                       neapolitan_suggestion current_chord neapolitan_seventh k pos ''seventh'' p
                   | None \<Rightarrow> Inr []]))"

definition Neapolitan_suggest ::
    "ChordProgression \<Rightarrow> Key option \<Rightarrow> error + ChordSuggestion list" where
  "Neapolitan_suggest p k =
     (case analysis_key_of p k of
        None \<Rightarrow> Inr []
      | Some analysis_key \<Rightarrow>
          bind_err
            (traverse
               (\<lambda>(i, c).
                  bind_err (is_good_neapolitan_position p i analysis_key) (\<lambda>good.
                    if good then generate_neapolitan_chords c analysis_key i p
                    else Inr []))
               (enumerate_py (chords p)))
            (\<lambda>found. Inr (sort_by_confidence (concat found))))"

section \<open>Tritone substitution: \<open>suggestions/sub_v7.py\<close>\<close>

definition is_substitutable_dominant :: "Chord \<Rightarrow> Key \<Rightarrow> error + bool" where
  "is_substitutable_dominant c k =
     (if quality c \<notin> set [''dominant7'', ''dominant9'', ''dominant11'', ''dominant13'']
      then Inr False
      else
        bind_err (get_harmonic_function c k) (\<lambda>func.
          if func = Some ''dominant'' then Inr True
          else
            bind_err (is_diatonic_chord c k) (\<lambda>diatonic.
              if \<not> diatonic \<and> is_substring ''dominant'' (quality c) then Inr True
              else Inr False)))"

text \<open>The \<open>try\<close>/\<open>except\<close> of the source cannot fire: no call of the body raises.\<close>

definition calculate_bass_motion_smoothness :: "Chord \<Rightarrow> Chord \<Rightarrow> real" where
  "calculate_bass_motion_smoothness chord1 chord2 =
     (let st = \<bar>simple_semitones (from_notes (root_note chord1) (root_note chord2))\<bar>
      in if st \<le> 2 then 1
         else if st \<le> 4 then 7 / 10
         else if st \<in> set [5, 7] then 6 / 10
         else 4 / 10)"

definition creates_smooth_bass_line :: "Chord \<Rightarrow> ChordProgression \<Rightarrow> int \<Rightarrow> error + bool" where
  "creates_smooth_bass_line sub_chord p pos =
     bind_err (if pos > 0
               then bind_err (py_get (chords p) (pos - 1)) (\<lambda>prev_chord.
                      Inr (calculate_bass_motion_smoothness prev_chord sub_chord \<ge> 8 / 10))
               else Inr False) (\<lambda>smooth_from_previous.
       if smooth_from_previous then Inr True
       else if pos < int (length (chords p)) - 1
       then bind_err (py_get (chords p) (pos + 1)) (\<lambda>next_chord.
              Inr (calculate_bass_motion_smoothness sub_chord next_chord \<ge> 8 / 10))
       else Inr False)"

text \<open>
  A progression is truthy when it has a chord (\<open>__len__\<close>); the test \<open>if not
  progression\<close> of the source is this one, as the argument is never \<open>None\<close> here.
\<close>

definition appears_to_be_jazz_context :: "ChordProgression \<Rightarrow> Key \<Rightarrow> bool" where
  "appears_to_be_jazz_context p k =
     (if chords p = [] then False
      else
        (let jazz_indicators =
               length (filter (\<lambda>c. quality c \<in> set [''major7'', ''minor7'', ''dominant7'', ''dominant9'',
                                                      ''dominant11'', ''dominant13'', ''minor9'', ''major9''])
                         (chords p))
         in real jazz_indicators \<ge> real (length (chords p)) / 2))"

definition calculate_sub_confidence ::
    "Chord \<Rightarrow> Chord \<Rightarrow> Key \<Rightarrow> int \<Rightarrow> ChordProgression \<Rightarrow> error + real" where
  "calculate_sub_confidence original_chord sub_chord k pos p =
     (let base_confidence = 8 / 10;
          base_confidence =
            (if get_scale_degree original_chord k = Some 5 then base_confidence + 1 / 10
             else base_confidence)
      in bind_err (if chords p \<noteq> [] then creates_smooth_bass_line sub_chord p pos else Inr False) (\<lambda>smooth.
           let base_confidence = (if smooth then base_confidence + 1 / 10 else base_confidence)
           in bind_err (if chords p \<noteq> [] \<and> pos < int (length (chords p)) - 1
                        then bind_err (py_get (chords p) (pos + 1)) (\<lambda>next_chord.
                             bind_err (get_harmonic_function next_chord k) (\<lambda>next_function.
                               Inr (next_function = Some ''tonic'')))
                        else Inr False) (\<lambda>resolves_to_tonic.
                let base_confidence =
                      (if resolves_to_tonic then base_confidence + 1 / 10 else base_confidence);
                    base_confidence =
                      (if appears_to_be_jazz_context p k then base_confidence + 15 / 100
                       else base_confidence)
                in Inr (min (95 / 100) base_confidence))))"

definition calculate_tritone_voice_leading ::
    "Chord \<Rightarrow> Chord \<Rightarrow> ChordProgression \<Rightarrow> int \<Rightarrow> error + real" where
  "calculate_tritone_voice_leading original_chord sub_chord p pos =
     (let base_voice_leading = 85 / 100
      in bind_err (if pos < int (length (chords p)) - 1
                   then bind_err (py_get (chords p) (pos + 1)) (\<lambda>next_chord.
                          let orig_bass_motion = calculate_bass_motion_smoothness original_chord next_chord;
                              sub_bass_motion = calculate_bass_motion_smoothness sub_chord next_chord
                          in Inr (if sub_bass_motion > orig_bass_motion
                                  then base_voice_leading + 1 / 10 else base_voice_leading))
                   else Inr base_voice_leading) (\<lambda>base_voice_leading.
           Inr (min 1 base_voice_leading)))"

definition sub_degree_names :: "(int \<times> string) list" where
  "sub_degree_names =
     [(1, ''I''), (2, ''II''), (3, ''III''), (4, ''IV''), (5, ''V''), (6, ''VI''), (7, ''VII'')]"

definition get_sub_reasoning :: "Chord \<Rightarrow> Chord \<Rightarrow> Key \<Rightarrow> error + unicode" where
  "get_sub_reasoning original_chord sub_chord k =
     (let deg = get_scale_degree original_chord k;
          name = degree_name sub_degree_names deg
      in bind_err (Chord_symbol original_chord) (\<lambda>symbol.
           let base_reasoning = code_points (''Tritone substitution of '' @ symbol);
               base_reasoning =
                 (if deg = Some 5
                  then base_reasoning @ code_points '' ('' @ [flat_sign]
                         @ code_points (name @ ''7 substituting V7)'')
                  else base_reasoning @ code_points '' creating chromatic bass motion'')
           in Inr (base_reasoning @ code_points '' - shares same tritone for smooth voice leading'')))"

definition get_altered_dominant_qualities :: "Chord \<Rightarrow> (string \<times> unicode) list" where
  "get_altered_dominant_qualities original_chord =
     filter (\<lambda>(q, description). map_of CHORD_TONES q \<noteq> None)
       [(''dominant7b5'', code_points ''with '' @ [flat_sign] @ code_points ''5''),
        (''dominant7#5'', code_points ''with #5'')]"

definition generate_sub_variations ::
    "Note \<Rightarrow> Chord \<Rightarrow> Key \<Rightarrow> int \<Rightarrow> ChordProgression \<Rightarrow> ChordSuggestion list" where
  "generate_sub_variations sub_root original_chord k pos p =
     (if quality original_chord = ''dominant7'' then
        concat
          (map (\<lambda>q.
                  try_except
                    (bind_err (Chord_init sub_root q None) (\<lambda>var_chord.
                     bind_err (calculate_sub_confidence original_chord var_chord k pos p) (\<lambda>conf.
                       Inr [ChordSuggestion_init var_chord (conf * (85 / 100))
                              (code_points (''Tritone substitution with '' @ q
                                            @ '' extension for added sophistication''))
                              (of_int pos) (8 / 10)])))
                    [])
             [''dominant9'', ''dominant13''])
      else [])
     @ concat
         (map (\<lambda>(q, alt_description).
                 try_except
                   (bind_err (Chord_init sub_root q None) (\<lambda>alt_chord.
                    bind_err (calculate_sub_confidence original_chord alt_chord k pos p) (\<lambda>conf.
                      Inr [ChordSuggestion_init alt_chord (conf * (75 / 100))
                             (code_points ''Altered tritone substitution ('' @ alt_description
                                @ code_points '') for jazz harmony'')
                             (of_int pos) (75 / 100)])))
                   [])
            (get_altered_dominant_qualities original_chord))"

definition generate_tritone_substitutions ::
    "Chord \<Rightarrow> Key \<Rightarrow> int \<Rightarrow> ChordProgression \<Rightarrow> error + ChordSuggestion list" where
  "generate_tritone_substitutions dominant_chord k pos p =
     bind_err (Note_transpose (root_note dominant_chord) 6) (\<lambda>sub_root.
       Inr (try_except
              (bind_err (Chord_init sub_root (quality dominant_chord) None) (\<lambda>sub_chord.
               bind_err (calculate_sub_confidence dominant_chord sub_chord k pos p) (\<lambda>conf.
               bind_err (get_sub_reasoning dominant_chord sub_chord k) (\<lambda>r.
               bind_err (calculate_tritone_voice_leading dominant_chord sub_chord p pos) (\<lambda>vlq.
                 Inr (ChordSuggestion_init sub_chord conf r (of_int pos) vlq
                      # generate_sub_variations sub_root dominant_chord k pos p))))))
              []))"

definition SubV7_suggest ::
    "ChordProgression \<Rightarrow> Key option \<Rightarrow> error + ChordSuggestion list" where
  "SubV7_suggest p k =
     (case analysis_key_of p k of
        None \<Rightarrow> Inr []
      | Some analysis_key \<Rightarrow>
          bind_err
            (traverse
               (\<lambda>(i, c).
                  bind_err (is_substitutable_dominant c analysis_key) (\<lambda>good.
                    if good then generate_tritone_substitutions c analysis_key i p
                    else Inr []))
               (enumerate_py (chords p)))
            (\<lambda>found. Inr (sort_by_confidence (concat found))))"

section \<open>Suspensions: \<open>suggestions/suspend.py\<close>\<close>

definition is_good_suspension_candidate :: "Chord \<Rightarrow> Key option \<Rightarrow> bool" where
  "is_good_suspension_candidate c k =
     (if quality c \<in> set [''major'', ''minor''] then True
      else if quality c \<in> set [''dominant7'', ''dominant9'', ''dominant11'', ''dominant13''] then True
      else if quality c \<in> set [''major7'', ''minor7''] then True
      else False)"

definition can_use_sus2 :: "Chord \<Rightarrow> bool" where
  "can_use_sus2 c =
     (if quality c \<in> set [''major'', ''minor''] then True
      else if quality c \<in> set [''major7'', ''minor7''] then True
      else False)"

definition can_use_sus4 :: "Chord \<Rightarrow> bool" where
  "can_use_sus4 c =
     (quality c \<in> set [''major'', ''minor'', ''dominant7'', ''major7'', ''minor7'',
                          ''dominant9'', ''major9'', ''minor9''])"

definition suspension_base_confidence :: "string \<Rightarrow> real" where
  "suspension_base_confidence sus_type =
     (case map_of [(''sus2'', 75 / 100), (''sus4'', 8 / 10)] sus_type of
        Some b \<Rightarrow> b
      | None \<Rightarrow> 7 / 10)"

definition calculate_suspension_confidence ::
    "Chord \<Rightarrow> Chord \<Rightarrow> Key option \<Rightarrow> int \<Rightarrow> string \<Rightarrow> error + real" where
  "calculate_suspension_confidence original_chord suspended_chord k pos sus_type =
     (let base_confidence = suspension_base_confidence sus_type
      in bind_err (case k of
                     Some ky \<Rightarrow>
                       bind_err (get_harmonic_function original_chord ky) (\<lambda>func.
                         Inr (if func \<in> set [Some ''dominant'', Some ''subdominant'']
                              then base_confidence + 15 / 100 else base_confidence))
                   | None \<Rightarrow> Inr base_confidence) (\<lambda>base_confidence.
           let base_confidence =
                 (if sus_type = ''sus4'' \<and> quality original_chord \<in> set [''dominant7'', ''major'']
                  then base_confidence + 1 / 10 else base_confidence);
               base_confidence =
                 (if quality original_chord \<in> set [''major'', ''minor'']
                  then base_confidence + 5 / 100 else base_confidence)
           in Inr (min (95 / 100) base_confidence)))"

definition get_suspension_reasoning :: "Chord \<Rightarrow> string \<Rightarrow> Key option \<Rightarrow> error + unicode" where
  "get_suspension_reasoning original_chord sus_type k =
     bind_err (Chord_symbol original_chord) (\<lambda>chord_symbol.
       let base_reasoning =
             (if sus_type = ''sus2'' then
                ''Sus2 suspension of '' @ chord_symbol
                  @ '' creating melodic tension and modern harmonic color''
              else if sus_type = ''sus4'' then
                ''Sus4 suspension of '' @ chord_symbol
                  @ '' creating harmonic tension that resolves to the third''
              else ''Suspension of '' @ chord_symbol @ '' adding harmonic interest'')
       in case k of
            Some ky \<Rightarrow>
              bind_err (get_harmonic_function original_chord ky) (\<lambda>func.
                Inr (code_points
                       (if func = Some ''dominant''
                        then base_reasoning @ '' - particularly effective on dominant chords''
                        else if func = Some ''tonic''
                        then base_reasoning @ '' - adds color to tonic harmony''
                        else base_reasoning)))
          | None \<Rightarrow> Inr (code_points base_reasoning))"

definition generate_suspensions :: "Chord \<Rightarrow> Key option \<Rightarrow> int \<Rightarrow> ChordSuggestion list" where
  "generate_suspensions c k pos =
     (if can_use_sus2 c then
        try_except
          (bind_err (Chord_init (root_note c) ''sus2'' (Some (bass c))) (\<lambda>sus2_chord.
           bind_err (calculate_suspension_confidence c sus2_chord k pos ''sus2'') (\<lambda>conf.
           bind_err (get_suspension_reasoning c ''sus2'' k) (\<lambda>r.
           bind_err (calculate_voice_leading_quality c sus2_chord) (\<lambda>vlq.
             Inr [ChordSuggestion_init sus2_chord conf r (of_int pos) vlq])))))
          []
      else [])
     @
     (if can_use_sus4 c then
        try_except
          (bind_err (Chord_init (root_note c) ''sus4'' (Some (bass c))) (\<lambda>sus4_chord.
           bind_err (calculate_suspension_confidence c sus4_chord k pos ''sus4'') (\<lambda>conf.
             let conf = (if quality c \<in> set [''dominant7'', ''major'']
                         then min (95 / 100) (conf + 1 / 10) else conf)
             in bind_err (get_suspension_reasoning c ''sus4'' k) (\<lambda>r.
                bind_err (calculate_voice_leading_quality c sus4_chord) (\<lambda>vlq.
                  Inr [ChordSuggestion_init sus4_chord conf r (of_int pos) vlq])))))
          []
      else [])"

definition chords_suitable_for_suspension_resolution :: "Chord \<Rightarrow> Chord \<Rightarrow> error + bool" where
  "chords_suitable_for_suspension_resolution chord1 chord2 =
     (if pitch_class (root_note chord1) = pitch_class (root_note chord2) then Inr True
      else
        bind_err (Chord_pitch_classes chord1) (\<lambda>pc1.
        bind_err (Chord_pitch_classes chord2) (\<lambda>pc2.
          if card (pc1 \<inter> pc2) \<ge> 2 then Inr True
          else if quality chord1 \<in> set [''dominant7'', ''dominant9'']
                  \<and> quality chord2 \<in> set [''major'', ''minor'']
          then Inr True
          else Inr False)))"

definition create_resolving_suspension :: "Chord \<Rightarrow> Chord \<Rightarrow> Chord option" where
  "create_resolving_suspension chord1 chord2 =
     (if pitch_class (root_note chord1) = pitch_class (root_note chord2) then
        (case (if quality chord2 \<in> set [''major'', ''minor''] \<and> quality chord1 \<noteq> ''sus4''
               then try_except
                      (bind_err (Chord_init (root_note chord1) ''sus4'' (Some (bass chord1))) (\<lambda>c.
                         Inr (Some c)))
                      None
               else None) of
           Some c \<Rightarrow> Some c
         | None \<Rightarrow>
             if quality chord2 \<in> set [''major'', ''minor''] \<and> quality chord1 \<noteq> ''sus2''
             then try_except
                    (bind_err (Chord_init (root_note chord1) ''sus2'' (Some (bass chord1))) (\<lambda>c.
                       Inr (Some c)))
                    None
             else None)
      else None)"

text \<open>
  The arrow of the reasoning text is stored in the source as the three code points
  \<open>0xE2\<close>, \<open>0x2020\<close>, \<open>0x2019\<close>.
\<close>

definition get_resolution_reasoning :: "Chord \<Rightarrow> Chord \<Rightarrow> Chord \<Rightarrow> error + unicode" where
  "get_resolution_reasoning chord1 chord2 suspension_chord =
     bind_err (Chord_symbol suspension_chord) (\<lambda>suspension_symbol.
     bind_err (Chord_symbol chord2) (\<lambda>symbol2.
       Inr (code_points (''Suspension-resolution pattern: '' @ suspension_symbol @ '' '')
            @ [0xE2, 0x2020, 0x2019]
            @ code_points ('' '' @ symbol2 @ '' creating smooth voice leading and harmonic motion''))))"

definition generate_suspension_resolutions ::
    "Chord \<Rightarrow> Chord \<Rightarrow> Key option \<Rightarrow> int \<Rightarrow> error + ChordSuggestion list" where
  "generate_suspension_resolutions chord1 chord2 k pos =
     bind_err (chords_suitable_for_suspension_resolution chord1 chord2) (\<lambda>suitable.
       if suitable then
         (case create_resolving_suspension chord1 chord2 of
            Some resolving_suspension \<Rightarrow>
              bind_err (get_resolution_reasoning chord1 chord2 resolving_suspension) (\<lambda>r.
                Inr [ChordSuggestion_init resolving_suspension (85 / 100) r (of_int pos) (9 / 10)])
          | None \<Rightarrow> Inr [])
       else Inr [])"

definition Suspend_suggest ::
    "ChordProgression \<Rightarrow> Key option \<Rightarrow> error + ChordSuggestion list" where
  "Suspend_suggest p k =
     (let analysis_key = analysis_key_of p k;
          suspensions =
            concat
              (map (\<lambda>(i, c).
                      if is_good_suspension_candidate c analysis_key
                      then generate_suspensions c analysis_key i else [])
                 (enumerate_py (chords p)))
      in bind_err
           (traverse
              (\<lambda>(i, chord1, chord2). generate_suspension_resolutions chord1 chord2 analysis_key i)
              (adjacent_pairs (chords p)))
           (\<lambda>resolutions. Inr (sort_by_confidence (suspensions @ concat resolutions))))"

section \<open>Functional movement: \<open>suggestions/tsd_movement.py\<close>\<close>

definition FUNCTIONAL_GROUPS :: "(string \<times> (string \<times> int list) list) list" where
  "FUNCTIONAL_GROUPS =
     [(''major'',
         [(''tonic'', [1, 6, 3]),
          (''subdominant'', [4, 2]),
          (''dominant'', [5, 7])]),
      (''minor'',
         [(''tonic'', [1, 6, 3]),
          (''subdominant'', [4, 2, 6]),
          (''dominant'', [5, 7])])]"

text \<open>
  \<open>FUNCTIONAL_GROUPS[key.mode]\<close> and a further subscript raise \<open>KeyError\<close> on a missing
  key; a function that is \<open>None\<close> is a key of no group.
\<close>

definition functional_groups_of_mode :: "string \<Rightarrow> error + (string \<times> int list) list" where
  "functional_groups_of_mode m =
     (case map_of FUNCTIONAL_GROUPS m of None \<Rightarrow> Inl KeyError | Some g \<Rightarrow> Inr g)"

definition functional_group :: "string \<Rightarrow> string \<Rightarrow> error + int list" where
  "functional_group m func =
     bind_err (functional_groups_of_mode m) (\<lambda>groups.
       case map_of groups func of None \<Rightarrow> Inl KeyError | Some ds \<Rightarrow> Inr ds)"

definition analyze_functional_progression ::
    "ChordProgression \<Rightarrow> Key \<Rightarrow> error + (Chord \<times> string option) list" where
  "analyze_functional_progression p k =
     traverse (\<lambda>c. bind_err (get_harmonic_function c k) (\<lambda>func. Inr (c, func))) (chords p)"

definition primary_degrees :: "(string \<times> int) list" where
  "primary_degrees = [(''tonic'', 1), (''subdominant'', 4), (''dominant'', 5)]"

definition common_substitutions :: "(string \<times> int list) list" where
  "common_substitutions = [(''tonic'', [6]), (''subdominant'', [2]), (''dominant'', [])]"

definition calculate_functional_confidence ::
    "Chord \<Rightarrow> Chord \<Rightarrow> string option \<Rightarrow> Key \<Rightarrow> int \<Rightarrow> error + real" where
  "calculate_functional_confidence current_chord suggested_chord func k pos =
     (let base_confidence = 6 / 10;
          suggested_degree = get_scale_degree suggested_chord k
      in if \<not> truthy_degree suggested_degree then Inr base_confidence
         else
           (let base_confidence =
                  (if (case func of
                         None \<Rightarrow> False
                       | Some f \<Rightarrow>
                           (case map_of primary_degrees f of
                              None \<Rightarrow> False
                            | Some d \<Rightarrow> suggested_degree = Some d))
                   then base_confidence + 2 / 10 else base_confidence);
                base_confidence =
                  (if (case func of
                         None \<Rightarrow> False
                       | Some f \<Rightarrow>
                           (case map_of common_substitutions f of
                              None \<Rightarrow> False
                            | Some ds \<Rightarrow> suggested_degree \<in> Some ` set ds))
                   then base_confidence + 15 / 100 else base_confidence)
            in bind_err (calculate_voice_leading_quality current_chord suggested_chord) (\<lambda>voice_leading.
                 let final_confidence = base_confidence + voice_leading * (15 / 100)
                 in Inr (min (95 / 100) final_confidence))))"

definition tsd_degree_names :: "(int \<times> unicode) list" where
  "tsd_degree_names =
     [(1, code_points ''I''), (2, code_points ''ii''), (3, code_points ''iii''),
      (4, code_points ''IV''), (5, code_points ''V''), (6, code_points ''vi''),
      (7, code_points ''vii'' @ [degree_sign])]"

text \<open>The function is interpolated with \<open>str\<close>, which prints \<open>None\<close> as \<open>'None'\<close>.\<close>

definition get_functional_improvement_reasoning ::
    "Chord \<Rightarrow> Chord \<Rightarrow> string option \<Rightarrow> int \<Rightarrow> unicode" where
  "get_functional_improvement_reasoning current_chord suggested_chord func suggested_degree =
     (let name = (case map_of tsd_degree_names suggested_degree of
                    Some n \<Rightarrow> n
                  | None \<Rightarrow> code_points (str_int suggested_degree));
          base_reasoning =
            code_points (''Stronger '' @ (case func of None \<Rightarrow> ''None'' | Some f \<Rightarrow> f)
                         @ '' function using '')
            @ name @ code_points '' chord''
      in if func = Some ''tonic'' \<and> suggested_degree = 1 then
           base_reasoning @ code_points '' - primary tonic provides strongest sense of resolution''
         else if func = Some ''subdominant'' \<and> suggested_degree = 4 then
           base_reasoning @ code_points '' - IV chord provides classic subdominant sound''
         else if func = Some ''subdominant'' \<and> suggested_degree = 2 then
           base_reasoning @ code_points '' - ii chord adds sophistication to subdominant function''
         else if func = Some ''dominant'' \<and> suggested_degree = 5 then
           base_reasoning @ code_points '' - V chord provides strongest dominant drive''
         else if func = Some ''tonic'' \<and> suggested_degree = 6 then
           base_reasoning @ code_points '' - vi chord as relative minor provides gentle tonic function''
         else base_reasoning)"

definition suggest_functional_improvements ::
    "ChordProgression \<Rightarrow> int \<Rightarrow> string option \<Rightarrow> Key \<Rightarrow> error + ChordSuggestion list" where
  "suggest_functional_improvements p pos current_function k =
     bind_err (py_get (chords p) pos) (\<lambda>current_chord.
       if current_function = Some ''unknown'' then Inr []
       else
         (let deg = get_scale_degree current_chord k
          in if \<not> truthy_degree deg then Inr []
             else
               bind_err (functional_groups_of_mode (mode k)) (\<lambda>groups.
                 case (case current_function of None \<Rightarrow> None | Some f \<Rightarrow> map_of groups f) of
                   None \<Rightarrow> Inr []
                 | Some degrees_of_function \<Rightarrow>
                     Inr (concat
                            (map (\<lambda>alt_degree.
                                    if Some alt_degree \<noteq> deg then
                                      try_except
                                        (bind_err (Key_get_chord_for_degree k alt_degree) (\<lambda>alt_chord.
                                           if \<not> Chord_eq alt_chord current_chord then
                                             bind_err (calculate_functional_confidence current_chord alt_chord
                                                         current_function k pos) (\<lambda>conf.
                                               if conf > 6 / 10 then
                                                 bind_err (calculate_voice_leading_quality current_chord alt_chord) (\<lambda>vlq.
                                                   Inr [ChordSuggestion_init alt_chord conf
                                                          (get_functional_improvement_reasoning current_chord
                                                             alt_chord current_function alt_degree)
                                                          (of_int pos) vlq])
                                               else Inr [])
                                           else Inr []))
                                        []
                                    else [])
                               degrees_of_function)))))"

definition should_insert_functional_bridge :: "string option \<Rightarrow> string option \<Rightarrow> bool" where
  "should_insert_functional_bridge func1 func2 =
     (if func1 = Some ''unknown'' \<or> func2 = Some ''unknown'' then False
      else (func1, func2) \<in> set [(Some ''tonic'', Some ''dominant''),
                                  (Some ''dominant'', Some ''subdominant''),
                                  (Some ''tonic'', Some ''tonic''),
                                  (Some ''subdominant'', Some ''subdominant''),
                                  (Some ''dominant'', Some ''dominant'')])"

definition get_functional_bridge_suggestions ::
    "string option \<Rightarrow> string option \<Rightarrow> Key \<Rightarrow> int \<Rightarrow> error + ChordSuggestion list" where
  "get_functional_bridge_suggestions func1 func2 k pos =
     (if func1 = Some ''tonic'' \<and> func2 = Some ''dominant'' then
        bind_err (functional_group (mode k) ''subdominant'') (\<lambda>subdominant_degrees.
          Inr (concat
                 (map (\<lambda>deg.
                         try_except
                           (bind_err (Key_get_chord_for_degree k deg) (\<lambda>bridge_chord.
                              Inr [ChordSuggestion_init bridge_chord (8 / 10)
                                     (code_points ''Subdominant bridge chord to strengthen T-S-D progression'')
                                     (of_int pos + 1 / 2) (8 / 10)]))
                           [])
                    subdominant_degrees)))
      else if func1 = Some ''dominant'' \<and> func2 = Some ''subdominant'' then
        bind_err (functional_group (mode k) ''tonic'') (\<lambda>tonic_degrees.
          Inr (concat
                 (map (\<lambda>deg.
                         try_except
                           (bind_err (Key_get_chord_for_degree k deg) (\<lambda>bridge_chord.
                              Inr [ChordSuggestion_init bridge_chord (7 / 10)
                                     (code_points ''Tonic resolution before subdominant to avoid retrograde motion'')
                                     (of_int pos + 1 / 2) (75 / 100)]))
                           [])
                    (slice_to tonic_degrees 1))))
      else Inr [])"

definition suggest_cadential_completions ::
    "ChordProgression \<Rightarrow> (Chord \<times> string option) list \<Rightarrow> Key \<Rightarrow> ChordSuggestion list" where
  "suggest_cadential_completions p functional_analysis k =
     (if length functional_analysis \<ge> 2 then
        (let last_two_functions = map snd (slice_from functional_analysis (- 2))
         in if last_two_functions \<noteq> [Some ''dominant'', Some ''tonic''] then
              (if snd (last functional_analysis) = Some ''dominant'' then
                 try_except
                   (bind_err (Key_get_chord_for_degree k 1) (\<lambda>tonic_chord.
                      Inr [ChordSuggestion_init tonic_chord (9 / 10)
                             (code_points ''Tonic resolution to complete dominant-tonic cadence'')
                             (of_nat (length (chords p))) (95 / 100)]))
                   []
               else if Some ''dominant'' \<notin> set last_two_functions then
                 try_except
                   (bind_err (Key_get_chord_for_degree k 5) (\<lambda>dominant_chord.
                      Inr [ChordSuggestion_init dominant_chord (85 / 100)
                             (code_points ''Dominant chord to prepare final cadence'')
                             (of_nat (length (chords p))) (8 / 10)]))
                   []
               else [])
            else [])
      else [])"

definition suggest_functional_completions ::
    "ChordProgression \<Rightarrow> (Chord \<times> string option) list \<Rightarrow> Key \<Rightarrow> error + ChordSuggestion list" where
  "suggest_functional_completions p functional_analysis k =
     bind_err
       (traverse
          (\<lambda>(i, current, following).
             if should_insert_functional_bridge (snd current) (snd following)
             then get_functional_bridge_suggestions (snd current) (snd following) k i
             else Inr [])
          (adjacent_pairs functional_analysis))
       (\<lambda>bridges.
          Inr (concat bridges @ suggest_cadential_completions p functional_analysis k))"

definition TSDMovement_suggest ::
    "ChordProgression \<Rightarrow> Key option \<Rightarrow> error + ChordSuggestion list" where
  "TSDMovement_suggest p k =
     (case analysis_key_of p k of
        None \<Rightarrow> Inr []
      | Some analysis_key \<Rightarrow>
          bind_err (analyze_functional_progression p analysis_key) (\<lambda>functional_analysis.
          bind_err
            (traverse
               (\<lambda>(i, c, func). suggest_functional_improvements p i func analysis_key)
               (enumerate_py functional_analysis)) (\<lambda>improvements.
          bind_err (suggest_functional_completions p functional_analysis analysis_key) (\<lambda>completions.
            Inr (sort_by_confidence (concat improvements @ completions))))))"

section \<open>Suggestion engine: \<open>suggestions/suggestion_engine.py\<close>\<close>

text \<open>
  A strategy object is its name and its \<open>suggest\<close> method. The engine holds the six
  strategies in the order of its constructor.
\<close>

record strategy =
  get_strategy_name :: string
  suggest :: "ChordProgression \<Rightarrow> Key option \<Rightarrow> error + ChordSuggestion list"

definition ChordSuggestionEngine_init :: "strategy list" where
  "ChordSuggestionEngine_init =
     [\<lparr>get_strategy_name = ''BorrowedChord'', suggest = BorrowedChord_suggest\<rparr>,
      \<lparr>get_strategy_name = ''ChromaticApproach'', suggest = ChromaticApproach_suggest\<rparr>,
      \<lparr>get_strategy_name = ''Neapolitan'', suggest = Neapolitan_suggest\<rparr>,
      \<lparr>get_strategy_name = ''SubV7'', suggest = SubV7_suggest\<rparr>,
      \<lparr>get_strategy_name = ''Suspend'', suggest = Suspend_suggest\<rparr>,
      \<lparr>get_strategy_name = ''TSDMovement'', suggest = TSDMovement_suggest\<rparr>]"

text \<open>
  The dictionary of \<open>_remove_duplicates\<close>, keyed by chord symbol and position, in
  insertion order; a later suggestion replaces the one kept under its key only when its
  confidence is strictly higher.
\<close>

type_synonym suggestion_groups = "((string \<times> real) \<times> ChordSuggestion) list"

fun remove_duplicates_loop ::
    "suggestion_groups \<Rightarrow> ChordSuggestion list \<Rightarrow> error + suggestion_groups" where
  "remove_duplicates_loop groups [] = Inr groups"
| "remove_duplicates_loop groups (s # rest) =
     (case Chord_symbol (chord s) of
        Inl e \<Rightarrow> Inl e
      | Inr symbol \<Rightarrow>
          (case map_of groups (symbol, position s) of
             None \<Rightarrow> remove_duplicates_loop (AList.update (symbol, position s) s groups) rest
           | Some kept \<Rightarrow>
               if confidence s > confidence kept
               then remove_duplicates_loop (AList.update (symbol, position s) s groups) rest
               else remove_duplicates_loop groups rest))"

definition remove_duplicates :: "ChordSuggestion list \<Rightarrow> error + ChordSuggestion list" where
  "remove_duplicates suggestions =
     bind_err (remove_duplicates_loop [] suggestions) (\<lambda>groups. Inr (map snd groups))"

text \<open>
  The suggestions collected from the active strategies, each tagged with its source; a
  strategy that raises contributes nothing.
\<close>

definition collect_suggestions ::
    "strategy list \<Rightarrow> ChordProgression \<Rightarrow> Key option \<Rightarrow> string list option
       \<Rightarrow> ChordSuggestion list" where
  "collect_suggestions strategies p k strategy_filter =
     (let active_strategies =
            (case strategy_filter of
               None \<Rightarrow> strategies
             | Some names \<Rightarrow>
                 if names \<noteq> []
                 then filter (\<lambda>s. get_strategy_name s \<in> set names) strategies
                 else strategies)
      in concat
           (map (\<lambda>s.
                   try_except
                     (bind_err (suggest s p k) (\<lambda>suggestions.
                        Inr (map (\<lambda>x. x\<lparr>strategy_source := Some (get_strategy_name s)\<rparr>) suggestions)))
                     [])
              active_strategies))"

definition get_suggestions ::
    "strategy list \<Rightarrow> ChordProgression \<Rightarrow> Key option \<Rightarrow> string list option \<Rightarrow> int
       \<Rightarrow> error + ChordSuggestion list" where
  "get_suggestions strategies p k strategy_filter max_suggestions =
     bind_err (remove_duplicates (collect_suggestions strategies p k strategy_filter)) (\<lambda>unique_suggestions.
       Inr (slice_to (sort_by_confidence unique_suggestions) max_suggestions))"

text \<open>
  The key under which two suggestions count as duplicates, and the invariant of the loop
  of \<open>_remove_duplicates\<close>: the keys of the dictionary are distinct; the suggestion kept
  under a key has that key, was seen, and has the highest confidence of the suggestions
  seen with that key; every key seen is in the dictionary.
\<close>

definition suggestion_key :: "ChordSuggestion \<Rightarrow> (error + string) \<times> real" where
  "suggestion_key s = (Chord_symbol (chord s), position s)"

definition dedup_inv :: "suggestion_groups \<Rightarrow> ChordSuggestion list \<Rightarrow> bool" where
  "dedup_inv g seen \<longleftrightarrow>
     distinct (map fst g)
     \<and> (\<forall>k s. map_of g k = Some s \<longrightarrow>
            suggestion_key s = (Inr (fst k), snd k) \<and> s \<in> set seen
            \<and> (\<forall>t \<in> set seen. suggestion_key t = suggestion_key s \<longrightarrow> confidence t \<le> confidence s))
     \<and> (\<forall>t \<in> set seen. \<exists>k s. map_of g k = Some s \<and> suggestion_key t = (Inr (fst k), snd k))"

section \<open>Beam search scoring: \<open>examples/chord_jazzer_demo.py\<close>\<close>

definition score_functional_transition :: "string \<Rightarrow> string \<Rightarrow> real" where
  "score_functional_transition func1 func2 =
     (if func1 = ''subdominant'' \<and> func2 = ''dominant'' then 1
      else if func1 = ''dominant'' \<and> func2 = ''tonic'' then 1
      else if func1 = ''tonic'' \<and> func2 \<in> set [''subdominant'', ''dominant''] then 7 / 10
      else if func1 = ''dominant'' \<and> func2 = ''subdominant'' then 1 / 10
      else if func1 = ''tonic'' \<and> func2 = ''tonic'' then 1 / 2
      else 3 / 10)"

section \<open>Bounds of a suggestion\<close>

text \<open>
  The ranges that the comments of the \<open>ChordSuggestion\<close> dataclass give for its two
  scores, and the same for the result of a call that may raise.
\<close>

definition within_bounds :: "ChordSuggestion \<Rightarrow> bool" where
  "within_bounds s \<longleftrightarrow>
     0 \<le> confidence s \<and> confidence s \<le> 1
     \<and> 0 \<le> voice_leading_quality s \<and> voice_leading_quality s \<le> 1"

definition all_within_bounds :: "error + ChordSuggestion list \<Rightarrow> bool" where
  "all_within_bounds m = (case m of Inl e \<Rightarrow> True | Inr xs \<Rightarrow> list_all within_bounds xs)"

text \<open>
  The other two methods of the engine that return suggestions.
  \<open>get_suggestions_by_strategy\<close> fills a dictionary, keyed by strategy name, with the
  sorted output of each strategy, and with the empty list for a strategy that raises;
  \<open>get_suggestions_for_position\<close> calls \<open>get_suggestions\<close> with the default of 20
  suggestions and keeps those placed within \<open>0.1\<close> of the position.
\<close>

definition get_suggestions_by_strategy ::
    "strategy list \<Rightarrow> ChordProgression \<Rightarrow> Key option \<Rightarrow> (string \<times> ChordSuggestion list) list" where
  "get_suggestions_by_strategy strategies p k =
     foldl (\<lambda>results s.
              AList.update (get_strategy_name s)
                (try_except
                   (bind_err (suggest s p k) (\<lambda>suggestions. Inr (sort_by_confidence suggestions)))
                   [])
                results)
       [] strategies"

definition get_suggestions_for_position ::
    "strategy list \<Rightarrow> ChordProgression \<Rightarrow> int \<Rightarrow> Key option \<Rightarrow> string list option
       \<Rightarrow> error + ChordSuggestion list" where
  "get_suggestions_for_position strategies p pos k strategy_filter =
     bind_err (get_suggestions strategies p k strategy_filter 20) (\<lambda>all_suggestions.
       Inr (filter (\<lambda>suggestion. \<bar>position suggestion - of_int pos\<bar> < 1 / 10) all_suggestions))"

section \<open>Chord detection: \<open>analysis/chord_detector.py\<close>\<close>

text \<open>The detector's own table of templates, in declaration order.\<close>

definition CHORD_TEMPLATES :: "(string \<times> int list) list" where
  "CHORD_TEMPLATES =
     [(''major'', [0, 4, 7]),
      (''minor'', [0, 3, 7]),
      (''diminished'', [0, 3, 6]),
      (''augmented'', [0, 4, 8]),
      (''sus2'', [0, 2, 7]),
      (''sus4'', [0, 5, 7]),
      (''major7'', [0, 4, 7, 11]),
      (''minor7'', [0, 3, 7, 10]),
      (''dominant7'', [0, 4, 7, 10]),
      (''diminished7'', [0, 3, 6, 9]),
      (''half_diminished7'', [0, 3, 6, 10]),
      (''minor_major7'', [0, 3, 7, 11]),
      (''augmented7'', [0, 4, 8, 10]),
      (''major9'', [0, 4, 7, 11, 2]),
      (''minor9'', [0, 3, 7, 10, 2]),
      (''dominant9'', [0, 4, 7, 10, 2]),
      (''major11'', [0, 4, 7, 11, 2, 5]),
      (''minor11'', [0, 3, 7, 10, 2, 5]),
      (''dominant11'', [0, 4, 7, 10, 2, 5]),
      (''major13'', [0, 4, 7, 11, 2, 5, 9]),
      (''minor13'', [0, 3, 7, 10, 2, 5, 9]),
      (''dominant13'', [0, 4, 7, 10, 2, 5, 9]),
      (''dominant7b5'', [0, 4, 6, 10]),
      (''dominant7#5'', [0, 4, 8, 10]),
      (''dominant7b9'', [0, 4, 7, 10, 1]),
      (''dominant7#9'', [0, 4, 7, 10, 3]),
      (''dominant7#11'', [0, 4, 7, 10, 6]),
      (''dominant7b13'', [0, 4, 7, 10, 8])]"

text \<open>\<open>min(notes, key=lambda n: n.midi_number)\<close>: the first note of lowest MIDI number.\<close>

definition lowest_note :: "Note list \<Rightarrow> Note" where
  "lowest_note notes =
     foldl (\<lambda>lowest n. if midi_number n < midi_number lowest then n else lowest)
       (hd notes) (tl notes)"

text \<open>
  The expression of \<open>_calculate_chord_score\<close>, evaluated in exact arithmetic. Python
  evaluates it in double precision, and the loop below compares the rounded values: two
  candidates whose exact scores are equal can compare either way there. The loop
  therefore takes the computed score as a parameter, a function of the same arguments,
  and \<open>score_within\<close> bounds its distance from the exact value.
\<close>

definition calculate_chord_score :: "int list \<Rightarrow> int list \<Rightarrow> Note list \<Rightarrow> int \<Rightarrow> real" where
  "calculate_chord_score normalized_semitones template notes root_semitone =
     (let template_set = set template;
          notes_set = set normalized_semitones;
          matches = card (template_set \<inter> notes_set);
          template_size = card template_set
      in if template_size = 0 then 0
         else
           let match_score = real matches / real template_size;
               extra_notes = card (notes_set - template_set);
               total_notes = card notes_set
           in if total_notes = 0 then 0
              else
                let extra_penalty = real extra_notes / real total_notes;
                    bass_bonus =
                      (if notes \<noteq> [] \<and> midi_number (lowest_note notes) mod 12 = root_semitone
                       then 2 / 10 else 0);
                    third_bonus =
                      (if (3 \<in> template_set \<or> 4 \<in> template_set) \<and> (3 \<in> notes_set \<or> 4 \<in> notes_set)
                       then 1 / 10 else 0);
                    fifth_bonus =
                      (if 7 \<in> template_set \<and> 7 \<in> notes_set then 1 / 10 else 0);
                    essential_bonus = third_bonus + fifth_bonus;
                    total_score = match_score - (1 / 2) * extra_penalty + bass_bonus + essential_bonus
                in max 0 total_score)"

type_synonym scoring = "int list \<Rightarrow> int list \<Rightarrow> Note list \<Rightarrow> int \<Rightarrow> real"

definition score_within :: "real \<Rightarrow> scoring \<Rightarrow> bool" where
  "score_within eps score \<longleftrightarrow>
     (\<forall>normalized template ns r.
        \<bar>score normalized template ns r - calculate_chord_score normalized template ns r\<bar> \<le> eps)"

text \<open>
  The two nested loops of \<open>_find_best_chord_match\<close> thread the pair
  \<open>(best_score, best_chord)\<close>. One round of the inner loop: the score is recorded as the
  best before the chord is constructed, and a \<open>ValueError\<close> of the constructor leaves
  the chord found so far in place.
\<close>

type_synonym best_match = "real \<times> Chord option"

fun for_each :: "('a \<Rightarrow> 's \<Rightarrow> error + 's) \<Rightarrow> 'a list \<Rightarrow> 's \<Rightarrow> error + 's" where
  "for_each body [] s = Inr s"
| "for_each body (x # xs) s =
     (case body x s of Inl e \<Rightarrow> Inl e | Inr s' \<Rightarrow> for_each body xs s')"

definition normalize_to_root :: "int list \<Rightarrow> int \<Rightarrow> int list" where
  "normalize_to_root semitone_list root_semitone =
     sort (remdups (map (\<lambda>s. (s - root_semitone) mod 12) semitone_list))"

definition try_template ::
    "scoring \<Rightarrow> int list \<Rightarrow> Note list \<Rightarrow> Note option \<Rightarrow> int \<Rightarrow> string \<times> int list
       \<Rightarrow> best_match \<Rightarrow> error + best_match" where
  "try_template computed normalized notes bass_note root_semitone entry best =
     (let chord_quality = fst entry;
          template = snd entry;
          best_score = fst best;
          best_chord = snd best;
          score = computed normalized template notes root_semitone
      in if score > best_score
         then bind_err (Note_init (PitchMidi root_semitone) None) (\<lambda>r.
                let slash_bass =
                      (case bass_note of
                         None \<Rightarrow> None
                       | Some b \<Rightarrow> if pitch_class b \<noteq> pitch_class r then Some b else None)
                in case Chord_init r chord_quality slash_bass of
                     Inl ValueError \<Rightarrow> Inr (score, best_chord)
                   | Inl e \<Rightarrow> Inl e
                   | Inr c \<Rightarrow> Inr (score, Some c))
         else Inr best)"

definition try_root ::
    "scoring \<Rightarrow> int list \<Rightarrow> Note list \<Rightarrow> Note option \<Rightarrow> int \<Rightarrow> best_match
       \<Rightarrow> error + best_match" where
  "try_root computed semitone_list notes bass_note root_semitone best =
     for_each
       (try_template computed (normalize_to_root semitone_list root_semitone) notes bass_note
          root_semitone)
       CHORD_TEMPLATES best"

definition find_best_chord_match ::
    "scoring \<Rightarrow> int list \<Rightarrow> Note list \<Rightarrow> Note option \<Rightarrow> error + Chord option" where
  "find_best_chord_match computed semitone_list notes bass_note =
     bind_err (for_each (try_root computed semitone_list notes bass_note) semitone_list (- 1, None)) (\<lambda>best.
       let threshold = 1 / 2
       in if fst best > threshold then Inr (snd best) else Inr None)"

text \<open>
  \<open>detect_chord_from_notes\<close> of a detector with the given \<open>min_notes\<close>. The pitch-class
  names are collected in a Python set, whose iteration order is not fixed; the semitones
  computed from them are sorted before use, so the order does not reach the result.
\<close>

definition pitch_class_semitones :: "string list \<Rightarrow> error + int list" where
  "pitch_class_semitones pitch_classes =
     bind_err
       (traverse (\<lambda>pc. bind_err (Note_init (PitchName pc) (Some 4)) (\<lambda>n.
                    Inr (midi_number n mod 12)))
          pitch_classes)
       (\<lambda>semitone_list. Inr (sort (remdups semitone_list)))"

definition detect_chord_from_notes ::
    "scoring \<Rightarrow> int \<Rightarrow> Note list \<Rightarrow> Note option \<Rightarrow> error + Chord option" where
  "detect_chord_from_notes computed min_notes notes bass_note =
     (if int (length notes) < min_notes then Inr None
      else
        let pitch_classes = remdups (map pitch_class notes)
        in if int (length pitch_classes) < min_notes then Inr None
           else
             bind_err (pitch_class_semitones pitch_classes) (\<lambda>semitone_list.
               find_best_chord_match computed semitone_list notes bass_note))"

text \<open>
  The candidates (root, quality, template) in the order of the two loops, the computed and
  the exact score of a candidate for a note list, and one round of the inner loop seen as
  a step over the list of candidates.
\<close>

definition candidates :: "int list \<Rightarrow> (int \<times> string \<times> int list) list" where
  "candidates semitone_list = concat (map (\<lambda>r. map (Pair r) CHORD_TEMPLATES) semitone_list)"

definition computed_score ::
    "scoring \<Rightarrow> int list \<Rightarrow> Note list \<Rightarrow> int \<times> string \<times> int list \<Rightarrow> real" where
  "computed_score computed semitone_list notes cand =
     computed (normalize_to_root semitone_list (fst cand)) (snd (snd cand)) notes (fst cand)"

definition candidate_score :: "int list \<Rightarrow> Note list \<Rightarrow> int \<times> string \<times> int list \<Rightarrow> real" where
  "candidate_score semitone_list notes cand =
     computed_score calculate_chord_score semitone_list notes cand"

definition try_candidate ::
    "scoring \<Rightarrow> int list \<Rightarrow> Note list \<Rightarrow> Note option \<Rightarrow> int \<times> string \<times> int list
       \<Rightarrow> best_match \<Rightarrow> error + best_match" where
  "try_candidate computed semitone_list notes bass_note cand best =
     try_template computed (normalize_to_root semitone_list (fst cand)) notes bass_note (fst cand)
       (snd cand) best"

section \<open>Key detection: \<open>analysis/key_detector.py\<close>\<close>

text \<open>
  The key profiles of the class. A detector is the pair of profiles its constructor
  selects.
\<close>

definition MAJOR_PROFILE :: "real list" where
  "MAJOR_PROFILE =
     [635 / 100, 223 / 100, 348 / 100, 233 / 100, 438 / 100, 409 / 100,
      252 / 100, 519 / 100, 239 / 100, 366 / 100, 229 / 100, 288 / 100]"

definition MINOR_PROFILE :: "real list" where
  "MINOR_PROFILE =
     [633 / 100, 268 / 100, 352 / 100, 538 / 100, 260 / 100, 353 / 100,
      254 / 100, 475 / 100, 398 / 100, 269 / 100, 334 / 100, 317 / 100]"

definition CLASSICAL_MAJOR_PROFILE :: "real list" where
  "CLASSICAL_MAJOR_PROFILE =
     [66 / 10, 20 / 10, 35 / 10, 23 / 10, 44 / 10, 41 / 10,
      25 / 10, 52 / 10, 24 / 10, 37 / 10, 23 / 10, 29 / 10]"

definition CLASSICAL_MINOR_PROFILE :: "real list" where
  "CLASSICAL_MINOR_PROFILE =
     [64 / 10, 27 / 10, 36 / 10, 54 / 10, 25 / 10, 35 / 10,
      26 / 10, 48 / 10, 40 / 10, 27 / 10, 34 / 10, 32 / 10]"

definition FOLK_MAJOR_PROFILE :: "real list" where
  "FOLK_MAJOR_PROFILE =
     [68 / 10, 15 / 10, 32 / 10, 20 / 10, 42 / 10, 43 / 10,
      22 / 10, 55 / 10, 21 / 10, 34 / 10, 20 / 10, 25 / 10]"

definition FOLK_MINOR_PROFILE :: "real list" where
  "FOLK_MINOR_PROFILE =
     [65 / 10, 22 / 10, 38 / 10, 58 / 10, 22 / 10, 32 / 10,
      22 / 10, 50 / 10, 43 / 10, 24 / 10, 30 / 10, 28 / 10]"

definition CHROMATIC_NOTES :: "string list" where
  "CHROMATIC_NOTES =
     [''C'', ''C#'', ''D'', ''D#'', ''E'', ''F'', ''F#'', ''G'', ''G#'', ''A'', ''A#'', ''B'']"

record KeyDetector =
  profile_type :: string
  major_profile :: "real list"
  minor_profile :: "real list"

definition KeyDetector_init :: "string \<Rightarrow> KeyDetector" where
  "KeyDetector_init ptype =
     (if ptype = ''classical''
      then \<lparr>profile_type = ptype, major_profile = CLASSICAL_MAJOR_PROFILE,
            minor_profile = CLASSICAL_MINOR_PROFILE\<rparr>
      else if ptype = ''folk''
      then \<lparr>profile_type = ptype, major_profile = FOLK_MAJOR_PROFILE,
            minor_profile = FOLK_MINOR_PROFILE\<rparr>
      else \<lparr>profile_type = ptype, major_profile = MAJOR_PROFILE,
            minor_profile = MINOR_PROFILE\<rparr>)"

text \<open>
  \<open>_create_pitch_class_histogram\<close>: \<open>list.index\<close> raises \<open>ValueError\<close> on a pitch-class
  name that is not in \<open>CHROMATIC_NOTES\<close>, and \<open>weights[i]\<close> raises \<open>IndexError\<close> on a
  weight list that is too short. An empty weight list is falsy, like \<open>None\<close>.
\<close>

definition add_to_histogram ::
    "real list option \<Rightarrow> int \<times> Note \<Rightarrow> real list \<Rightarrow> error + real list" where
  "add_to_histogram weights entry histogram =
     (case list_index CHROMATIC_NOTES (pitch_class (snd entry)) of
        None \<Rightarrow> Inl ValueError
      | Some pitch_class_index \<Rightarrow>
          bind_err
            (case weights of
               None \<Rightarrow> Inr 1
             | Some ws \<Rightarrow> if ws \<noteq> [] then py_get ws (fst entry) else Inr 1)
            (\<lambda>weight.
               Inr (histogram[pitch_class_index := histogram ! pitch_class_index + weight])))"

definition create_pitch_class_histogram ::
    "Note list \<Rightarrow> real list option \<Rightarrow> error + real list" where
  "create_pitch_class_histogram notes weights =
     bind_err (for_each (add_to_histogram weights) (enumerate_py notes) (replicate 12 0))
       (\<lambda>histogram.
          let total = sum_list histogram
          in if total > 0 then Inr (map (\<lambda>v. v / total) histogram) else Inr histogram)"

text \<open>
  \<open>numpy.corrcoef\<close> is a parameter of the model: \<open>corrcoef x y\<close> stands for
  \<open>np.corrcoef(x, y)[0, 1]\<close>, with \<open>None\<close> for NaN. \<open>np.roll(profile, -i)\<close> moves the
  first \<open>i\<close> entries to the end.
\<close>

type_synonym correlation = "real list \<Rightarrow> real list \<Rightarrow> real option"

definition rotated_profile :: "real list \<Rightarrow> int \<Rightarrow> real list" where
  "rotated_profile profile i =
     (let rolled = rotate (nat i) profile
      in map (\<lambda>v. v / sum_list rolled) rolled)"

definition try_key ::
    "correlation \<Rightarrow> real list \<Rightarrow> real list \<Rightarrow> string \<Rightarrow> int \<times> string \<Rightarrow> real \<times> Key
       \<Rightarrow> error + real \<times> Key" where
  "try_key corrcoef histogram profile key_mode entry best =
     (case corrcoef histogram (rotated_profile profile (fst entry)) of
        None \<Rightarrow> Inr best
      | Some correlation \<Rightarrow>
          if correlation > fst best
          then bind_err (Note_init (PitchName (snd entry)) (Some 4)) (\<lambda>t.
               bind_err (Key_init t key_mode) (\<lambda>k. Inr (correlation, k)))
          else Inr best)"

definition find_best_key_match ::
    "correlation \<Rightarrow> KeyDetector \<Rightarrow> real list \<Rightarrow> error + Key \<times> real" where
  "find_best_key_match corrcoef detector histogram =
     bind_err (Note_init (PitchName ''C'') (Some 4)) (\<lambda>c4.
     bind_err (Key_init c4 ''major'') (\<lambda>default_key.
     bind_err (for_each (try_key corrcoef histogram (major_profile detector) ''major'')
                 (enumerate_py CHROMATIC_NOTES) (- 1, default_key)) (\<lambda>best_major.
     bind_err (for_each (try_key corrcoef histogram (minor_profile detector) ''minor'')
                 (enumerate_py CHROMATIC_NOTES) best_major) (\<lambda>best.
       let best_correlation = fst best;
           best_key = snd best;
           confidence = max 0 ((best_correlation + 1) / 2)
       in Inr (best_key, confidence)))))"

definition default_key :: "error + Key \<times> real" where
  "default_key =
     bind_err (Note_init (PitchName ''C'') (Some 4)) (\<lambda>c4.
     bind_err (Key_init c4 ''major'') (\<lambda>k. Inr (k, 0)))"

definition detect_key_from_notes ::
    "correlation \<Rightarrow> KeyDetector \<Rightarrow> Note list \<Rightarrow> real list option \<Rightarrow> error + Key \<times> real" where
  "detect_key_from_notes corrcoef detector notes weights =
     (if notes = [] then default_key
      else bind_err (create_pitch_class_histogram notes weights) (\<lambda>histogram.
             find_best_key_match corrcoef detector histogram))"

text \<open>
  A MIDI note dictionary, with its three keys, each present or absent. The loop of
  \<open>detect_key_from_midi_notes\<close> skips an entry without \<open>'midi_note'\<close> (\<open>KeyError\<close>) or with
  a number outside the MIDI range (\<open>ValueError\<close>).
\<close>

record midi_note_dict =
  md_midi_note :: "int option"
  md_duration :: "real option"
  md_velocity :: "real option"

definition midi_note_weight :: "midi_note_dict \<Rightarrow> real" where
  "midi_note_weight m =
     (let duration = (case md_duration m of None \<Rightarrow> 1 | Some d \<Rightarrow> d);
          velocity = (case md_velocity m of None \<Rightarrow> 64 | Some v \<Rightarrow> v) / 127
      in duration * velocity)"

fun convert_midi_notes :: "midi_note_dict list \<Rightarrow> Note list \<times> real list" where
  "convert_midi_notes [] = ([], [])"
| "convert_midi_notes (m # ms) =
     (case (case md_midi_note m of
              None \<Rightarrow> Inl KeyError
            | Some p \<Rightarrow> Note_init (PitchMidi p) None) of
        Inl e \<Rightarrow> convert_midi_notes ms
      | Inr n \<Rightarrow> (n # fst (convert_midi_notes ms), midi_note_weight m # snd (convert_midi_notes ms)))"

definition detect_key_from_midi_notes ::
    "correlation \<Rightarrow> KeyDetector \<Rightarrow> midi_note_dict list \<Rightarrow> error + Key \<times> real" where
  "detect_key_from_midi_notes corrcoef detector midi_notes =
     (if midi_notes = [] then default_key
      else detect_key_from_notes corrcoef detector
             (fst (convert_midi_notes midi_notes)) (Some (snd (convert_midi_notes midi_notes))))"

text \<open>
  The correlations of a histogram with the 24 rotated profiles, in the order the loops
  compute them, and the best of those that are numbers; \<open>-1\<close> where none exceeds it.
\<close>

definition key_correlations :: "correlation \<Rightarrow> KeyDetector \<Rightarrow> real list \<Rightarrow> real option list" where
  "key_correlations corrcoef detector histogram =
     map (\<lambda>i. corrcoef histogram (rotated_profile (major_profile detector) (int i))) [0..<12]
     @ map (\<lambda>i. corrcoef histogram (rotated_profile (minor_profile detector) (int i))) [0..<12]"

definition best_correlation :: "correlation \<Rightarrow> KeyDetector \<Rightarrow> real list \<Rightarrow> real" where
  "best_correlation corrcoef detector histogram =
     Max (set (- 1 # [c. Some c \<leftarrow> key_correlations corrcoef detector histogram]))"

section \<open>Test fixtures: \<open>tests/conftest.py\<close>\<close>

text \<open>
  The values the test fixtures build, written out; the lemmas of the next part check
  them against the constructors.
\<close>

definition c_note :: Note where
  "c_note = \<lparr>pitch_class = ''C'', octave = 4, midi_number = 60\<rparr>"

definition c_major_chord :: Chord where
  "c_major_chord = \<lparr>root_note = c_note, quality = ''major'', bass = c_note\<rparr>"

definition g7_chord :: Chord where
  "g7_chord =
     \<lparr>root_note = \<lparr>pitch_class = ''G'', octave = 4, midi_number = 67\<rparr>,
      quality = ''dominant7'',
      bass = \<lparr>pitch_class = ''G'', octave = 4, midi_number = 67\<rparr>\<rparr>"

definition c_major_key :: Key where
  "c_major_key =
     \<lparr>tonic = c_note, mode = ''major'',
      key_scale = \<lparr>scale_tonic = c_note, scale_type = ''major'',
                   is_mode = None, parent_scale = None, mode_number = None\<rparr>\<rparr>"

definition a_minor_key :: Key where
  "a_minor_key =
     \<lparr>tonic = \<lparr>pitch_class = ''A'', octave = 4, midi_number = 69\<rparr>, mode = ''minor'',
      key_scale = \<lparr>scale_tonic = \<lparr>pitch_class = ''A'', octave = 4, midi_number = 69\<rparr>,
                   scale_type = ''natural_minor'',
                   is_mode = None, parent_scale = None, mode_number = None\<rparr>\<rparr>"

definition simple_progression :: ChordProgression where
  "simple_progression =
     \<lparr>chords =
        [c_major_chord,
         \<lparr>root_note = \<lparr>pitch_class = ''A'', octave = 4, midi_number = 69\<rparr>,
          quality = ''minor'',
          bass = \<lparr>pitch_class = ''A'', octave = 4, midi_number = 69\<rparr>\<rparr>,
         \<lparr>root_note = \<lparr>pitch_class = ''F'', octave = 4, midi_number = 65\<rparr>,
          quality = ''major'',
          bass = \<lparr>pitch_class = ''F'', octave = 4, midi_number = 65\<rparr>\<rparr>,
         \<lparr>root_note = \<lparr>pitch_class = ''G'', octave = 4, midi_number = 67\<rparr>,
          quality = ''major'',
          bass = \<lparr>pitch_class = ''G'', octave = 4, midi_number = 67\<rparr>\<rparr>],
      key = None,
      durations = [1, 1, 1, 1]\<rparr>"

section \<open>Example inputs\<close>

text \<open>
  The two-chord progression \<open>['Bdim', 'F']\<close>, whose roots lie a tritone apart, as
  \<open>ChordProgression.from_symbols\<close> builds it.
\<close>

definition bdim_f_progression :: ChordProgression where
  "bdim_f_progression =
     \<lparr>chords =
        [\<lparr>root_note = \<lparr>pitch_class = ''B'', octave = 4, midi_number = 71\<rparr>,
          quality = ''diminished'',
          bass = \<lparr>pitch_class = ''B'', octave = 4, midi_number = 71\<rparr>\<rparr>,
         \<lparr>root_note = \<lparr>pitch_class = ''F'', octave = 4, midi_number = 65\<rparr>,
          quality = ''major'',
          bass = \<lparr>pitch_class = ''F'', octave = 4, midi_number = 65\<rparr>\<rparr>],
      key = None,
      durations = [1, 1]\<rparr>"

text \<open>The notes C4 and C#4, a semitone apart.\<close>

definition c_c_sharp_notes :: "Note list" where
  "c_c_sharp_notes =
     [\<lparr>pitch_class = ''C'', octave = 4, midi_number = 60\<rparr>,
      \<lparr>pitch_class = ''C#'', octave = 4, midi_number = 61\<rparr>]"

text \<open>
  The chords \<open>Chord.from_symbol('Db')\<close> and \<open>Chord.from_symbol('Bb')\<close>, and the key
  \<open>Key(Note('F', 4), 'major')\<close>.
\<close>

definition d_flat_major_chord :: Chord where
  "d_flat_major_chord =
     \<lparr>root_note = \<lparr>pitch_class = ''Db'', octave = 4, midi_number = 61\<rparr>,
      quality = ''major'',
      bass = \<lparr>pitch_class = ''Db'', octave = 4, midi_number = 61\<rparr>\<rparr>"

definition b_flat_major_chord :: Chord where
  "b_flat_major_chord =
     \<lparr>root_note = \<lparr>pitch_class = ''Bb'', octave = 4, midi_number = 70\<rparr>,
      quality = ''major'',
      bass = \<lparr>pitch_class = ''Bb'', octave = 4, midi_number = 70\<rparr>\<rparr>"

definition f_major_key :: Key where
  "f_major_key =
     \<lparr>tonic = \<lparr>pitch_class = ''F'', octave = 4, midi_number = 65\<rparr>, mode = ''major'',
      key_scale = \<lparr>scale_tonic = \<lparr>pitch_class = ''F'', octave = 4, midi_number = 65\<rparr>,
                   scale_type = ''major'',
                   is_mode = None, parent_scale = None, mode_number = None\<rparr>\<rparr>"

text \<open>The note \<open>Note('Db', 4)\<close>.\<close>

definition d_flat_note :: Note where
  "d_flat_note = \<lparr>pitch_class = ''Db'', octave = 4, midi_number = 61\<rparr>"

section \<open>Results\<close>

subsection \<open>Notes\<close>

lemma list_index_less: "list_index xs x = Some i \<Longrightarrow> i < length xs"
  by (induction xs arbitrary: i) (auto split: if_splits)

lemma list_index_nth: "list_index xs x = Some i \<Longrightarrow> xs ! i = x"
  by (induction xs arbitrary: i) (auto split: if_splits)

lemma list_index_None: "list_index xs x = None \<longleftrightarrow> x \<notin> set xs"
  by (induction xs) auto

lemma length_scales: "length CHROMATIC_SCALE = 12" "length FLAT_SCALE = 12"
  by (simp_all add: CHROMATIC_SCALE_def FLAT_SCALE_def)

lemma Note_init_midi_bounds:
  "Note_init (PitchMidi p) oct = Inr n \<Longrightarrow>
     0 \<le> midi_number n \<and> midi_number n \<le> 127 \<and> - 1 \<le> octave n \<and> octave n \<le> 9"
  by (auto simp add: Note_init_def split: if_splits)

lemma calculate_midi_number_range:
  assumes "calculate_midi_number pc oc = Inr m"
  shows "(oc + 1) * 12 \<le> m \<and> m < (oc + 1) * 12 + 12"
proof (cases "list_index CHROMATIC_SCALE pc")
  case (Some i)
  with assms have "m = (oc + 1) * 12 + int i" by (simp add: calculate_midi_number_def)
  moreover from Some have "i < 12" using list_index_less length_scales(1) by metis
  ultimately show ?thesis by simp
next
  case None
  show ?thesis
  proof (cases "list_index FLAT_SCALE pc")
    case (Some i)
    with None assms have "m = (oc + 1) * 12 + int i" by (simp add: calculate_midi_number_def)
    moreover from Some have "i < 12" using list_index_less length_scales(2) by metis
    ultimately show ?thesis by simp
  next
    case n2: None
    with None assms show ?thesis by (simp add: calculate_midi_number_def)
  qed
qed

lemma Note_init_name_cases:
  assumes "Note_init (PitchName s) oct = Inr n"
  obtains pc oc m where "oct = Some oc" "0 \<le> oc" "oc \<le> 10"
    "normalize_pitch_class s = Inr pc"
    "calculate_midi_number pc oc = Inr m"
    "n = \<lparr>pitch_class = pc, octave = oc, midi_number = m\<rparr>"
  using assms unfolding Note_init_def
  by (simp split: sum.splits option.splits if_splits)

lemma Note_init_name_bounds:
  assumes "Note_init (PitchName s) oct = Inr n"
  shows "0 \<le> octave n \<and> octave n \<le> 10 \<and> 0 \<le> midi_number n
         \<and> (octave n \<le> 8 \<longrightarrow> midi_number n \<le> 127)"
proof -
  from assms obtain pc oc m where h: "0 \<le> oc" "oc \<le> 10"
    "calculate_midi_number pc oc = Inr m"
    "n = \<lparr>pitch_class = pc, octave = oc, midi_number = m\<rparr>"
    by (rule Note_init_name_cases)
  from calculate_midi_number_range [OF h(3)] h(1,2,4) show ?thesis by auto
qed

lemma Note_transpose_bounds:
  assumes "Note_transpose m k = Inr n"
  shows "0 \<le> midi_number n \<and> midi_number n \<le> 127 \<and> - 1 \<le> octave n \<and> octave n \<le> 9"
proof -
  from assms have "Note_init (PitchMidi (midi_number m + k)) None = Inr n"
    by (simp add: Note_transpose_def Let_def split: if_splits)
  then show ?thesis by (rule Note_init_midi_bounds)
qed

lemma list_index_Some_mem: "list_index xs x = Some i \<Longrightarrow> x \<in> set xs"
  using list_index_None [of xs x] by auto

lemma calculate_midi_number_valid:
  "calculate_midi_number pc oc = Inr m \<Longrightarrow> pc \<in> set CHROMATIC_SCALE \<union> set FLAT_SCALE"
  by (auto simp add: calculate_midi_number_def split: option.splits dest: list_index_Some_mem)

lemma pitch_names_enum:
  assumes "pc \<in> set CHROMATIC_SCALE \<union> set FLAT_SCALE"
  shows "pc \<in> {''C'', ''C#'', ''D'', ''D#'', ''E'', ''F'', ''F#'', ''G'', ''G#'', ''A'', ''A#'', ''B'',
               ''Db'', ''Eb'', ''Gb'', ''Ab'', ''Bb''}"
  using assms by (auto simp add: CHROMATIC_SCALE_def FLAT_SCALE_def)

lemma pitch_name_normal:
  assumes "pc \<in> set CHROMATIC_SCALE \<union> set FLAT_SCALE"
  shows "normalize_pitch_class pc = Inr pc"
  using pitch_names_enum [OF assms]
  by (elim insertE emptyE; simp add: normalize_pitch_class_def py_strip_def
        py_isspace_def is_note_letter_def is_accidental_def)

lemma pitch_name_shape:
  assumes "pc \<in> set CHROMATIC_SCALE \<union> set FLAT_SCALE"
  shows "\<exists>l. l \<notin> set ''#b/'' \<and> (pc = [l] \<or> (\<exists>a. a \<in> set ''#b'' \<and> pc = [l, a]))"
  using pitch_names_enum [OF assms]
  by (elim insertE emptyE; simp)

lemma Note_init_midi_octave4:
  assumes "Note_init (PitchMidi p) oct = Inr r" and "octave r = 4"
  shows "Note_init (PitchName (pitch_class r)) (Some 4) = Inr r
         \<and> pitch_class r \<in> set CHROMATIC_SCALE \<union> set FLAT_SCALE"
proof -
  from assms have r: "r = \<lparr>pitch_class = CHROMATIC_SCALE ! nat (p mod 12), octave = p div 12 - 1, midi_number = p\<rparr>"
    and rng: "0 \<le> p" "p \<le> 127"
    by (auto simp add: Note_init_def split: if_splits)
  from r assms(2) have "p div 12 = 5" by simp
  then have "p \<in> {60, 61, 62, 63, 64, 65, 66, 67, 68, 69, 70, 71}" by auto presburger
  then show ?thesis unfolding r
    by (elim insertE emptyE; simp add: Note_init_def CHROMATIC_SCALE_def FLAT_SCALE_def
          normalize_pitch_class_def py_strip_def py_isspace_def is_note_letter_def
          is_accidental_def calculate_midi_number_def)
qed

lemma Note_init_name_again:
  assumes "Note_init (PitchName s) (Some oc) = Inr r"
  shows "Note_init (PitchName (pitch_class r)) (Some oc) = Inr r
         \<and> pitch_class r \<in> set CHROMATIC_SCALE \<union> set FLAT_SCALE"
proof -
  from assms obtain pc m where h: "0 \<le> oc" "oc \<le> 10"
    "calculate_midi_number pc oc = Inr m"
    "r = \<lparr>pitch_class = pc, octave = oc, midi_number = m\<rparr>"
    by (auto elim: Note_init_name_cases)
  from h(3) have v: "pc \<in> set CHROMATIC_SCALE \<union> set FLAT_SCALE"
    by (rule calculate_midi_number_valid)
  from pitch_name_normal [OF v] h v show ?thesis by (simp add: Note_init_def)
qed

lemma Note_eq_refl: "Note_eq n n"
  by (simp add: Note_eq_def)

subsection \<open>Fixtures\<close>

lemma c_note_built: "Note_init (PitchName ''C'') (Some 4) = Inr c_note"
  by code_simp

lemma c_major_chord_built: "from_symbol ''C'' 4 = Inr c_major_chord"
  by code_simp

lemma g7_chord_built: "from_symbol ''G7'' 4 = Inr g7_chord"
  by code_simp

lemma c_major_key_built: "Key_init c_note ''major'' = Inr c_major_key"
  by code_simp

lemma a_minor_key_built:
  "Key_init \<lparr>pitch_class = ''A'', octave = 4, midi_number = 69\<rparr> ''minor'' = Inr a_minor_key"
  by code_simp

lemma simple_progression_built:
  "from_symbols [''C'', ''Am'', ''F'', ''G''] None None = Inr simple_progression"
  by code_simp

lemma bdim_f_progression_built:
  "from_symbols [''Bdim'', ''F''] None None = Inr bdim_f_progression"
  by code_simp

subsection \<open>Functional transition table\<close>

text \<open>
  C2, as stated, gives subdominant to tonic the score 0.6. The function has no branch
  for that pair, so it falls through to the default.
\<close>

theorem score_functional_transition_S_T_counterexample:
  "score_functional_transition ''subdominant'' ''tonic'' = 3 / 10
   \<and> score_functional_transition ''subdominant'' ''tonic'' \<noteq> 6 / 10"
  by (simp add: score_functional_transition_def)

text \<open>
  C2 (amended). The scoring function returns 1.0 for subdominant to dominant, 1.0 for
  dominant to tonic, 0.7 for tonic to subdominant and tonic to dominant, 0.1 for dominant
  to subdominant, 0.5 for tonic to tonic, and 0.3 for every other pair of labels,
  subdominant to tonic included.
\<close>

theorem score_functional_transition_table:
  "score_functional_transition ''subdominant'' ''dominant'' = 1
   \<and> score_functional_transition ''dominant'' ''tonic'' = 1
   \<and> score_functional_transition ''tonic'' ''subdominant'' = 7 / 10
   \<and> score_functional_transition ''tonic'' ''dominant'' = 7 / 10
   \<and> score_functional_transition ''dominant'' ''subdominant'' = 1 / 10
   \<and> score_functional_transition ''tonic'' ''tonic'' = 1 / 2
   \<and> score_functional_transition ''subdominant'' ''tonic'' = 3 / 10
   \<and> ((f1, f2) \<notin> {(''subdominant'', ''dominant''), (''dominant'', ''tonic''),
                   (''tonic'', ''subdominant''), (''tonic'', ''dominant''),
                   (''dominant'', ''subdominant''), (''tonic'', ''tonic'')}
        \<longrightarrow> score_functional_transition f1 f2 = 3 / 10)"
  by (auto simp add: score_functional_transition_def)

theorem score_functional_transition_table_witness:
  "(''dominant'', ''dominant'') \<notin> {(''subdominant'', ''dominant''), (''dominant'', ''tonic''),
                   (''tonic'', ''subdominant''), (''tonic'', ''dominant''),
                   (''dominant'', ''subdominant''), (''tonic'', ''tonic'')}
   \<and> score_functional_transition ''dominant'' ''dominant'' = 3 / 10"
  using score_functional_transition_table [of "''dominant''" "''dominant''"] by simp

subsection \<open>Range of MIDI number and octave\<close>

text \<open>
  C3, as stated, bounds every note by \<open>0 \<le> midi_number \<le> 127\<close> and
  \<open>0 \<le> octave \<le> 10\<close>. A note built from the MIDI number 0 has octave \<open>-1\<close>, since
  the constructor sets \<open>octave = pitch // 12 - 1\<close>; and the name constructor checks the
  octave only, so \<open>Note('A', 9)\<close> is built with MIDI number 129.
\<close>

theorem Note_invariant_counterexample:
  "Note_init (PitchMidi 0) None = Inr \<lparr>pitch_class = ''C'', octave = - 1, midi_number = 0\<rparr>
   \<and> Note_init (PitchName ''A'') (Some 9)
         = Inr \<lparr>pitch_class = ''A'', octave = 9, midi_number = 129\<rparr>"
  by (simp add: Note_init_def CHROMATIC_SCALE_def FLAT_SCALE_def
        normalize_pitch_class_def py_strip_def py_isspace_def is_note_letter_def
        is_accidental_def calculate_midi_number_def)

text \<open>
  C3 (amended). Every note built from a raw MIDI integer, and every note returned by
  \<open>Note.transpose\<close>, satisfies \<open>0 \<le> midi_number \<le> 127\<close> and \<open>-1 \<le> octave \<le> 9\<close>.
  Every note built from a pitch-class string with an octave satisfies
  \<open>0 \<le> octave \<le> 10\<close> and \<open>0 \<le> midi_number\<close>, and \<open>midi_number \<le> 127\<close> whenever its
  octave is at most 8.
\<close>

theorem Note_invariant:
  "(Note_init (PitchMidi p) oct = Inr n \<longrightarrow>
      0 \<le> midi_number n \<and> midi_number n \<le> 127 \<and> - 1 \<le> octave n \<and> octave n \<le> 9)
   \<and> (Note_transpose m k = Inr n' \<longrightarrow>
      0 \<le> midi_number n' \<and> midi_number n' \<le> 127 \<and> - 1 \<le> octave n' \<and> octave n' \<le> 9)
   \<and> (Note_init (PitchName s) oct' = Inr n'' \<longrightarrow>
      0 \<le> octave n'' \<and> octave n'' \<le> 10 \<and> 0 \<le> midi_number n''
      \<and> (octave n'' \<le> 8 \<longrightarrow> midi_number n'' \<le> 127))"
  using Note_init_midi_bounds [of p oct n] Note_transpose_bounds [of m k n']
    Note_init_name_bounds [of s oct' n'']
  by blast

theorem Note_invariant_witness:
  "Note_init (PitchMidi 60) None = Inr \<lparr>pitch_class = ''C'', octave = 4, midi_number = 60\<rparr>
   \<and> Note_transpose \<lparr>pitch_class = ''C'', octave = 4, midi_number = 60\<rparr> 2
         = Inr \<lparr>pitch_class = ''D'', octave = 4, midi_number = 62\<rparr>
   \<and> Note_init (PitchName ''Bb'') (Some 3)
         = Inr \<lparr>pitch_class = ''Bb'', octave = 3, midi_number = 58\<rparr>
   \<and> (0::int) \<le> 60 \<and> (60::int) \<le> 127 \<and> (0::int) \<le> 4 \<and> (4::int) \<le> 9 \<and> (58::int) \<le> 127"
  using Note_invariant [of 60 None "\<lparr>pitch_class = ''C'', octave = 4, midi_number = 60\<rparr>"
      "\<lparr>pitch_class = ''C'', octave = 4, midi_number = 60\<rparr>" 2
      "\<lparr>pitch_class = ''D'', octave = 4, midi_number = 62\<rparr>"
      "''Bb''" "Some 3" "\<lparr>pitch_class = ''Bb'', octave = 3, midi_number = 58\<rparr>"]
  by (simp add: Note_transpose_def Note_init_def CHROMATIC_SCALE_def FLAT_SCALE_def
        normalize_pitch_class_def py_strip_def py_isspace_def is_note_letter_def
        is_accidental_def calculate_midi_number_def)

subsection \<open>Chord symbols\<close>

lemma py_split_no_sep: "sep \<notin> set s \<Longrightarrow> py_split sep s = [s]"
  by (induction s) auto

lemma chord_symbol_suffix:
  assumes "(q, suf) \<in> set CHORD_SYMBOLS"
  shows "parse_quality suf = Inr q \<and> CHR ''/'' \<notin> set suf
         \<and> (case suf of [] \<Rightarrow> True | a # _ \<Rightarrow> a \<notin> set ''#b'')
         \<and> map_of CHORD_TONES q \<noteq> None"
  using assms unfolding CHORD_SYMBOLS_def set_simps
  by (elim insertE emptyE; simp add: parse_quality_def quality_map_def CHORD_TONES_def)

lemma chord_tones_symbols:
  assumes "q \<in> set (map fst CHORD_TONES)"
  shows "\<exists>suf. map_of CHORD_SYMBOLS q = Some suf"
  using assms unfolding CHORD_TONES_def list.map set_simps fst_conv
  by (elim insertE emptyE; simp add: CHORD_SYMBOLS_def)

lemma from_symbol_of_parts:
  assumes pc: "pc \<in> set CHROMATIC_SCALE \<union> set FLAT_SCALE"
      and qs: "(q, suf) \<in> set CHORD_SYMBOLS"
  shows "from_symbol (pc @ suf) oct =
           (case Note_init (PitchName pc) (Some oct) of
              Inl e \<Rightarrow> Inl e
            | Inr r \<Rightarrow> Chord_init r q None)"
proof -
  from pitch_name_shape [OF pc] obtain l where
    l: "l \<notin> set ''#b/''" and shape: "pc = [l] \<or> (\<exists>a. a \<in> set ''#b'' \<and> pc = [l, a])"
    by blast
  from chord_symbol_suffix [OF qs] have
    pq: "parse_quality suf = Inr q" and ns: "CHR ''/'' \<notin> set suf"
    and hd: "(case suf of [] \<Rightarrow> True | a # _ \<Rightarrow> a \<notin> set ''#b'')"
    by simp_all
  from l have nl: "CHR ''/'' \<noteq> l" by auto
  from shape show ?thesis
  proof
    assume p1: "pc = [l]"
    show ?thesis
    proof (cases suf)
      case Nil
      with p1 nl pq show ?thesis by (simp add: from_symbol_def split: sum.split)
    next
      case (Cons a rest)
      with hd have "a \<notin> set ''#b''" by simp
      with p1 nl pq ns Cons show ?thesis by (simp add: from_symbol_def split: sum.split)
    qed
  next
    assume "\<exists>a. a \<in> set ''#b'' \<and> pc = [l, a]"
    then obtain a where a: "a \<in> set ''#b''" and p2: "pc = [l, a]" by blast
    from a have "CHR ''/'' \<noteq> a" by auto
    with p2 nl pq ns a show ?thesis by (simp add: from_symbol_def split: sum.split)
  qed
qed

lemma Chord_eq_refl: "Chord_eq c c"
  by (simp add: Chord_eq_def Note_eq_refl)

subsection \<open>Symbol round trip\<close>

text \<open>
  C5. For every quality \<open>q\<close> of the chord catalog and every root note at octave 4,
  built from a pitch name or from a MIDI number, the chord \<open>Chord(root, q)\<close> has bass
  equal to its root, and parsing its symbol gives a chord equal to it under
  \<open>Chord.__eq__\<close>.
\<close>

theorem from_symbol_roundtrip:
  assumes q: "q \<in> set (map fst CHORD_TONES)"
      and r: "Note_init (PitchName s) (Some 4) = Inr r
              \<or> (Note_init (PitchMidi p) None = Inr r \<and> octave r = 4)"
  shows "\<exists>c sym c'. Chord_init r q None = Inr c \<and> bass c = r
           \<and> Chord_symbol c = Inr sym \<and> from_symbol sym 4 = Inr c' \<and> Chord_eq c' c"
proof -
  from r have again: "Note_init (PitchName (pitch_class r)) (Some 4) = Inr r"
    and v: "pitch_class r \<in> set CHROMATIC_SCALE \<union> set FLAT_SCALE"
    using Note_init_name_again [of s 4 r] Note_init_midi_octave4 [of p None r] by auto
  from chord_tones_symbols [OF q] obtain suf where suf: "map_of CHORD_SYMBOLS q = Some suf"
    by blast
  then have qs: "(q, suf) \<in> set CHORD_SYMBOLS" by (rule map_of_SomeD)
  from chord_symbol_suffix [OF qs] have tones: "map_of CHORD_TONES q \<noteq> None" by simp
  define c where "c = \<lparr>root_note = r, quality = q, bass = r\<rparr>"
  from tones have c1: "Chord_init r q None = Inr c" by (auto simp add: Chord_init_def c_def)
  from suf have c2: "Chord_symbol c = Inr (pitch_class r @ suf)"
    by (simp add: Chord_symbol_def c_def Note_eq_refl)
  from from_symbol_of_parts [OF v qs, of 4] again c1
  have c3: "from_symbol (pitch_class r @ suf) 4 = Inr c" by simp
  from c1 c2 c3 Chord_eq_refl [of c] show ?thesis by (auto simp add: c_def)
qed

theorem from_symbol_roundtrip_witness:
  "''minor7'' \<in> set (map fst CHORD_TONES)
   \<and> Note_init (PitchName ''Bb'') (Some 4)
        = Inr \<lparr>pitch_class = ''Bb'', octave = 4, midi_number = 70\<rparr>
   \<and> Note_init (PitchMidi 61) None = Inr \<lparr>pitch_class = ''C#'', octave = 4, midi_number = 61\<rparr>
   \<and> (\<exists>c sym c'. Chord_init \<lparr>pitch_class = ''Bb'', octave = 4, midi_number = 70\<rparr> ''minor7'' None = Inr c
          \<and> bass c = \<lparr>pitch_class = ''Bb'', octave = 4, midi_number = 70\<rparr>
          \<and> Chord_symbol c = Inr sym \<and> from_symbol sym 4 = Inr c' \<and> Chord_eq c' c)
   \<and> (\<exists>c sym c'. Chord_init \<lparr>pitch_class = ''C#'', octave = 4, midi_number = 61\<rparr> ''minor7'' None = Inr c
          \<and> bass c = \<lparr>pitch_class = ''C#'', octave = 4, midi_number = 61\<rparr>
          \<and> Chord_symbol c = Inr sym \<and> from_symbol sym 4 = Inr c' \<and> Chord_eq c' c)"
proof -
  have q: "''minor7'' \<in> set (map fst CHORD_TONES)"
    by (simp add: CHORD_TONES_def)
  have n1: "Note_init (PitchName ''Bb'') (Some 4)
        = Inr \<lparr>pitch_class = ''Bb'', octave = 4, midi_number = 70\<rparr>"
    by (simp add: Note_init_def CHROMATIC_SCALE_def FLAT_SCALE_def
          normalize_pitch_class_def py_strip_def py_isspace_def is_note_letter_def
          is_accidental_def calculate_midi_number_def)
  have n2: "Note_init (PitchMidi 61) None = Inr \<lparr>pitch_class = ''C#'', octave = 4, midi_number = 61\<rparr>"
    by (simp add: Note_init_def CHROMATIC_SCALE_def)
  from n2 have n2': "Note_init (PitchName ''x'') (Some 4) = Inr \<lparr>pitch_class = ''C#'', octave = 4, midi_number = 61\<rparr>
      \<or> (Note_init (PitchMidi 61) None = Inr \<lparr>pitch_class = ''C#'', octave = 4, midi_number = 61\<rparr>
          \<and> octave \<lparr>pitch_class = ''C#'', octave = 4, midi_number = 61\<rparr> = 4)"
    by simp
  from n1 have n1': "Note_init (PitchName ''Bb'') (Some 4) = Inr \<lparr>pitch_class = ''Bb'', octave = 4, midi_number = 70\<rparr>
      \<or> (Note_init (PitchMidi 0) None = Inr \<lparr>pitch_class = ''Bb'', octave = 4, midi_number = 70\<rparr>
          \<and> octave \<lparr>pitch_class = ''Bb'', octave = 4, midi_number = 70\<rparr> = 4)"
    by simp
  from q n1 n2 from_symbol_roundtrip [OF q n1'] from_symbol_roundtrip [OF q n2']
  show ?thesis by blast
qed

subsection \<open>Mode derivation and the scale catalog\<close>

text \<open>
  C10. Whatever the arguments, \<open>Scale.from_mode\<close> leaves the catalog
  \<open>SCALE_PATTERNS\<close> with the contents it had before the call, whether it returns a
  scale or raises. As a consequence the scale returned for tonic C4, mode 0 and parent
  \<open>'major'\<close> has the type \<open>'ionian'\<close>, which the catalog does not list, and reading
  its \<open>pattern\<close> or its \<open>notes\<close> raises \<open>KeyError\<close>.
\<close>

theorem from_mode_restores_catalog:
  "snd (from_mode cat t m parent) = cat
   \<and> Note_init (PitchName ''C'') (Some 4)
        = Inr \<lparr>pitch_class = ''C'', octave = 4, midi_number = 60\<rparr>
   \<and> from_mode SCALE_PATTERNS \<lparr>pitch_class = ''C'', octave = 4, midi_number = 60\<rparr> 0 ''major''
        = (Inr \<lparr>scale_tonic = \<lparr>pitch_class = ''C'', octave = 4, midi_number = 60\<rparr>,
                scale_type = ''ionian'', is_mode = Some True,
                parent_scale = Some ''major'', mode_number = Some 0\<rparr>, SCALE_PATTERNS)
   \<and> Scale_pattern SCALE_PATTERNS
         \<lparr>scale_tonic = \<lparr>pitch_class = ''C'', octave = 4, midi_number = 60\<rparr>,
          scale_type = ''ionian'', is_mode = Some True,
          parent_scale = Some ''major'', mode_number = Some 0\<rparr> = Inl KeyError
   \<and> Scale_notes SCALE_PATTERNS
         \<lparr>scale_tonic = \<lparr>pitch_class = ''C'', octave = 4, midi_number = 60\<rparr>,
          scale_type = ''ionian'', is_mode = Some True,
          parent_scale = Some ''major'', mode_number = Some 0\<rparr> = Inl KeyError"
proof (intro conjI)
  show "snd (from_mode cat t m parent) = cat"
    by (simp add: from_mode_def Let_def split: option.split sum.split)
  show "Note_init (PitchName ''C'') (Some 4)
        = Inr \<lparr>pitch_class = ''C'', octave = 4, midi_number = 60\<rparr>"
    by code_simp
  show "from_mode SCALE_PATTERNS \<lparr>pitch_class = ''C'', octave = 4, midi_number = 60\<rparr> 0 ''major''
        = (Inr \<lparr>scale_tonic = \<lparr>pitch_class = ''C'', octave = 4, midi_number = 60\<rparr>,
                scale_type = ''ionian'', is_mode = Some True,
                parent_scale = Some ''major'', mode_number = Some 0\<rparr>, SCALE_PATTERNS)"
    by code_simp
  show "Scale_pattern SCALE_PATTERNS
         \<lparr>scale_tonic = \<lparr>pitch_class = ''C'', octave = 4, midi_number = 60\<rparr>,
          scale_type = ''ionian'', is_mode = Some True,
          parent_scale = Some ''major'', mode_number = Some 0\<rparr> = Inl KeyError"
    by code_simp
  show "Scale_notes SCALE_PATTERNS
         \<lparr>scale_tonic = \<lparr>pitch_class = ''C'', octave = 4, midi_number = 60\<rparr>,
          scale_type = ''ionian'', is_mode = Some True,
          parent_scale = Some ''major'', mode_number = Some 0\<rparr> = Inl KeyError"
    by code_simp
qed

text \<open>
  Two runs of the first part: a call that returns the Dorian mode of the major scale, and
  a call that raises because the parent scale is unknown.
\<close>

theorem from_mode_restores_catalog_witness:
  "snd (from_mode SCALE_PATTERNS \<lparr>pitch_class = ''D'', octave = 4, midi_number = 62\<rparr> 1 ''major'')
     = SCALE_PATTERNS
   \<and> from_mode SCALE_PATTERNS \<lparr>pitch_class = ''D'', octave = 4, midi_number = 62\<rparr> 1 ''minor''
     = (Inl ValueError, SCALE_PATTERNS)"
proof -
  have "fst (from_mode SCALE_PATTERNS \<lparr>pitch_class = ''D'', octave = 4, midi_number = 62\<rparr> 1 ''minor'')
          = Inl ValueError"
    by code_simp
  with from_mode_restores_catalog
         [of SCALE_PATTERNS "\<lparr>pitch_class = ''D'', octave = 4, midi_number = 62\<rparr>" 1 "''major''"]
       from_mode_restores_catalog
         [of SCALE_PATTERNS "\<lparr>pitch_class = ''D'', octave = 4, midi_number = 62\<rparr>" 1 "''minor''"]
  show ?thesis by (simp add: prod_eq_iff)
qed

subsection \<open>Progression invariant\<close>

lemma ChordProgression_init_invariant:
  assumes "ChordProgression_init cs k ds = Inr p"
  shows "length (chords p) = length (durations p) \<and> chords p \<noteq> []"
  using assms
  by (auto simp add: ChordProgression_init_def split: if_splits option.splits)

lemma progression_transpose_invariant:
  assumes "progression_transpose p iv = Inr p'"
  shows "length (chords p') = length (durations p') \<and> chords p' \<noteq> []"
proof -
  from assms obtain cs k where "ChordProgression_init cs k (Some (durations p)) = Inr p'"
    by (auto simp add: progression_transpose_def split: sum.splits)
  then show ?thesis by (rule ChordProgression_init_invariant)
qed

lemma substitute_chord_invariant:
  assumes "substitute_chord p i c = Inr p'"
  shows "length (chords p') = length (durations p') \<and> chords p' \<noteq> []"
proof -
  from assms obtain cs where "ChordProgression_init cs (key p) (Some (durations p)) = Inr p'"
    by (auto simp add: substitute_chord_def split: sum.splits)
  then show ?thesis by (rule ChordProgression_init_invariant)
qed

lemma insert_chord_invariant:
  assumes "insert_chord p i c d = Inr p'"
  shows "length (chords p') = length (durations p') \<and> chords p' \<noteq> []"
  using assms unfolding insert_chord_def Let_def by (rule ChordProgression_init_invariant)

lemma extend_invariant:
  assumes "progression_extend p other = Inr p'"
  shows "length (chords p') = length (durations p') \<and> chords p' \<noteq> []"
  using assms unfolding progression_extend_def Let_def by (rule ChordProgression_init_invariant)

lemma repeat_invariant:
  assumes "repeat p n = Inr p'"
  shows "length (chords p') = length (durations p') \<and> chords p' \<noteq> []"
proof -
  from assms have "ChordProgression_init (py_repeat (chords p) n) (key p)
                     (Some (py_repeat (durations p) n)) = Inr p'"
    by (simp add: repeat_def Let_def split: if_splits)
  then show ?thesis by (rule ChordProgression_init_invariant)
qed

text \<open>
  On a progression that satisfies the invariant, inserting, extending and repeating do
  return a progression.
\<close>

lemma length_py_insert: "length (py_insert xs i v) = Suc (length xs)"
  by (simp add: py_insert_def)

lemma length_py_repeat: "length (py_repeat xs n) = nat n * length xs"
  by (simp add: py_repeat_def length_concat sum_list_replicate)

lemma copying_transforms_return:
  assumes "length (chords p) = length (durations p)" and "chords p \<noteq> []"
  shows "\<exists>p'. insert_chord p i c d = Inr p'"
    and "length (chords q) = length (durations q) \<Longrightarrow> \<exists>p'. progression_extend p q = Inr p'"
    and "1 \<le> n \<Longrightarrow> \<exists>p'. repeat p n = Inr p'"
proof -
  show "\<exists>p'. insert_chord p i c d = Inr p'"
    using assms
    by (simp add: insert_chord_def ChordProgression_init_def length_py_insert py_insert_def)
  show "\<exists>p'. progression_extend p q = Inr p'" if "length (chords q) = length (durations q)"
    using assms that by (simp add: progression_extend_def ChordProgression_init_def)
  show "\<exists>p'. repeat p n = Inr p'" if "1 \<le> n"
  proof -
    from that have "0 < nat n" by simp
    with assms(2) have "py_repeat (chords p) n \<noteq> []"
      using length_py_repeat [of "chords p" n] by (metis length_0_conv mult_is_0 neq0_conv)
    with assms that show ?thesis
      by (simp add: repeat_def ChordProgression_init_def length_py_repeat)
  qed
qed

text \<open>
  C7. Constructing a progression raises \<open>ValueError\<close> when the chord list is empty, and
  when a durations list is supplied whose length differs from that of the chord list.
  Every progression returned by \<open>transpose\<close>, \<open>substitute_chord\<close>, \<open>insert_chord\<close>,
  \<open>extend\<close> or \<open>repeat\<close> has as many durations as chords and at least one chord.
\<close>

theorem progression_invariant:
  "ChordProgression_init [] k ds = Inl ValueError
   \<and> (length d \<noteq> length cs \<longrightarrow> ChordProgression_init cs k (Some d) = Inl ValueError)
   \<and> (progression_transpose p iv = Inr p1 \<longrightarrow>
         length (chords p1) = length (durations p1) \<and> chords p1 \<noteq> [])
   \<and> (substitute_chord p i c = Inr p2 \<longrightarrow>
         length (chords p2) = length (durations p2) \<and> chords p2 \<noteq> [])
   \<and> (insert_chord p i c du = Inr p3 \<longrightarrow>
         length (chords p3) = length (durations p3) \<and> chords p3 \<noteq> [])
   \<and> (progression_extend p other = Inr p4 \<longrightarrow>
         length (chords p4) = length (durations p4) \<and> chords p4 \<noteq> [])
   \<and> (repeat p n = Inr p5 \<longrightarrow>
         length (chords p5) = length (durations p5) \<and> chords p5 \<noteq> [])"
proof -
  have "ChordProgression_init [] k ds = Inl ValueError"
    by (simp add: ChordProgression_init_def)
  moreover have "length d \<noteq> length cs \<longrightarrow> ChordProgression_init cs k (Some d) = Inl ValueError"
    by (simp add: ChordProgression_init_def)
  ultimately show ?thesis
    using progression_transpose_invariant [of p iv p1] substitute_chord_invariant [of p i c p2]
      insert_chord_invariant [of p i c du p3] extend_invariant [of p other p4]
      repeat_invariant [of p n p5]
    by blast
qed

theorem progression_invariant_witness:
  "length [1, 2 :: real] \<noteq> length [c_major_chord]
   \<and> ChordProgression_init [] None None = Inl ValueError
   \<and> ChordProgression_init [c_major_chord] None (Some [1, 2]) = Inl ValueError
   \<and> (\<exists>p1. progression_transpose simple_progression (Interval_init 2) = Inr p1
          \<and> length (chords p1) = length (durations p1) \<and> chords p1 \<noteq> [])
   \<and> (\<exists>p2. substitute_chord simple_progression (- 1) g7_chord = Inr p2
          \<and> length (chords p2) = length (durations p2) \<and> chords p2 \<noteq> [])
   \<and> (\<exists>p3. insert_chord simple_progression (- 1) g7_chord (1 / 2) = Inr p3
          \<and> length (chords p3) = length (durations p3) \<and> chords p3 \<noteq> [])
   \<and> (\<exists>p4. progression_extend simple_progression simple_progression = Inr p4
          \<and> length (chords p4) = length (durations p4) \<and> chords p4 \<noteq> [])
   \<and> (\<exists>p5. repeat simple_progression 3 = Inr p5
          \<and> length (chords p5) = length (durations p5) \<and> chords p5 \<noteq> [])"
proof -
  have "\<not> isl (progression_transpose simple_progression (Interval_init 2))" by code_simp
  then obtain p1 where p1: "progression_transpose simple_progression (Interval_init 2) = Inr p1"
    by (cases "progression_transpose simple_progression (Interval_init 2)") auto
  have "\<not> isl (substitute_chord simple_progression (- 1) g7_chord)" by code_simp
  then obtain p2 where p2: "substitute_chord simple_progression (- 1) g7_chord = Inr p2"
    by (cases "substitute_chord simple_progression (- 1) g7_chord") auto
  have "\<not> isl (insert_chord simple_progression (- 1) g7_chord (1 / 2))" by code_simp
  then obtain p3 where p3: "insert_chord simple_progression (- 1) g7_chord (1 / 2) = Inr p3"
    by (cases "insert_chord simple_progression (- 1) g7_chord (1 / 2)") auto
  have "\<not> isl (progression_extend simple_progression simple_progression)" by code_simp
  then obtain p4 where p4: "progression_extend simple_progression simple_progression = Inr p4"
    by (cases "progression_extend simple_progression simple_progression") auto
  have "\<not> isl (repeat simple_progression 3)" by code_simp
  then obtain p5 where p5: "repeat simple_progression 3 = Inr p5"
    by (cases "repeat simple_progression 3") auto
  have ne: "length [1, 2 :: real] \<noteq> length [c_major_chord]" by simp
  from ne p1 p2 p3 p4 p5
    progression_invariant [where k = None and ds = None and d = "[1, 2]" and cs = "[c_major_chord]"
      and p = simple_progression and iv = "Interval_init 2" and ?p1.0 = p1
      and i = "- 1" and c = g7_chord and ?p2.0 = p2 and du = "1 / 2" and ?p3.0 = p3
      and other = simple_progression and ?p4.0 = p4 and n = 3 and ?p5.0 = p5]
  show ?thesis by simp
qed

subsection \<open>Harmonic function of a chord in a key\<close>

lemma traverse_length: "traverse f xs = Inr ys \<Longrightarrow> length ys = length xs"
  by (induction xs arbitrary: ys) (auto split: sum.splits)

lemma Key_init_cases:
  assumes "Key_init t m = Inr k"
  obtains st where "st = ''major'' \<or> st = ''natural_minor''"
    "k = \<lparr>tonic = t, mode = py_lower m,
          key_scale = \<lparr>scale_tonic = t, scale_type = st,
                       is_mode = None, parent_scale = None, mode_number = None\<rparr>\<rparr>"
    "py_lower m = ''major'' \<or> py_lower m = ''minor''"
  using assms
  by (auto simp add: Key_init_def Scale_init_def Let_def split: if_splits sum.splits)

lemma major_pattern: "map_of SCALE_PATTERNS ''major'' = Some [0, 2, 4, 5, 7, 9, 11]"
  by code_simp

lemma natural_minor_pattern:
  "map_of SCALE_PATTERNS ''natural_minor'' = Some [0, 2, 3, 5, 7, 8, 10]"
  by code_simp

lemma key_pattern_length:
  assumes "st = ''major'' \<or> st = ''natural_minor''"
  shows "\<exists>p. map_of SCALE_PATTERNS st = Some p \<and> length p = 7"
  using assms major_pattern natural_minor_pattern by auto

lemma key_scale_notes_length:
  assumes "Key_init t m = Inr k" and "Scale_notes SCALE_PATTERNS (key_scale k) = Inr ns"
  shows "length ns = 7"
proof -
  from assms(1) obtain st where st: "st = ''major'' \<or> st = ''natural_minor''"
    and k: "scale_type (key_scale k) = st"
    by (rule Key_init_cases) simp
  from key_pattern_length [OF st] obtain p where p: "map_of SCALE_PATTERNS st = Some p" "length p = 7"
    by blast
  with assms(2) k have "traverse (\<lambda>st. Note_transpose (scale_tonic (key_scale k)) st) p = Inr ns"
    by (simp add: Scale_notes_def Scale_pattern_def)
  from traverse_length [OF this] p show ?thesis by simp
qed

lemma get_note_degree_range:
  assumes "Key_init t m = Inr k"
    and "get_note_degree SCALE_PATTERNS (key_scale k) n = Inr (Some d)"
  shows "1 \<le> d \<and> d \<le> 7"
proof -
  from assms(2) obtain ns i where ns: "Scale_notes SCALE_PATTERNS (key_scale k) = Inr ns"
    and i: "list_index (map pitch_class ns) (pitch_class n) = Some i" and d: "d = int i + 1"
    by (auto simp add: get_note_degree_def split: sum.splits option.splits)
  from list_index_less [OF i] key_scale_notes_length [OF assms(1) ns] d show ?thesis by simp
qed

lemma get_note_degree_None:
  assumes "get_note_degree cat s n = Inr d"
    and "Scale_pitch_classes cat s = Inr pcs"
  shows "d = None \<longleftrightarrow> pitch_class n \<notin> set pcs"
  using assms
  by (auto simp add: get_note_degree_def Scale_pitch_classes_def list_index_None
        split: sum.splits option.splits dest: list_index_Some_mem)

lemma function_of_degree_table:
  assumes "1 \<le> d" and "d \<le> 7"
  shows "(d \<in> {1, 3, 6} \<longrightarrow> function_of_degree m d = Some ''tonic'')
       \<and> (d \<in> {2, 4} \<longrightarrow> function_of_degree m d = Some ''subdominant'')
       \<and> (d \<in> {5, 7} \<longrightarrow> function_of_degree m d = Some ''dominant'')
       \<and> function_of_degree m d \<in> {Some ''tonic'', Some ''subdominant'', Some ''dominant''}"
proof -
  from assms have "d \<in> {1, 2, 3, 4, 5, 6, 7}" by auto
  then show ?thesis
    by (elim insertE emptyE; simp add: function_of_degree_def)
qed

lemma analyze_chord_cases:
  assumes "analyze_chord k c = Inr a"
  obtains (absent) "get_note_degree SCALE_PATTERNS (key_scale k) (root_note c) = Inr None"
      "degree a = None" "harmonic_function a = None"
  | (zero) "get_note_degree SCALE_PATTERNS (key_scale k) (root_note c) = Inr (Some 0)"
      "degree a = Some 0" "harmonic_function a = None"
  | (present) d where "d \<noteq> 0"
      "get_note_degree SCALE_PATTERNS (key_scale k) (root_note c) = Inr (Some d)"
      "degree a = Some d" "harmonic_function a = function_of_degree (mode k) d"
  using assms unfolding analyze_chord_def truthy_degree_def
  by (auto split: sum.splits option.splits if_splits)

lemma get_note_degree_pitch_classes:
  assumes "get_note_degree cat s n = Inr d"
  shows "\<exists>pcs. Scale_pitch_classes cat s = Inr pcs"
  using assms
  by (auto simp add: get_note_degree_def Scale_pitch_classes_def split: sum.splits)

text \<open>
  The degree table, on every key and chord for which \<open>analyze_chord\<close> returns: a degree
  that is found lies between 1 and 7 and fixes the function, by one table for both modes.
\<close>

lemma analyze_chord_table:
  assumes k: "Key_init t m = Inr k" and a: "analyze_chord k c = Inr a"
  shows "harmonic_function a \<in> {Some ''tonic'', Some ''subdominant'', Some ''dominant'', None}
     \<and> (\<forall>d. degree a = Some d \<longrightarrow>
            1 \<le> d \<and> d \<le> 7
            \<and> (d \<in> {1, 3, 6} \<longrightarrow> harmonic_function a = Some ''tonic'')
            \<and> (d \<in> {2, 4} \<longrightarrow> harmonic_function a = Some ''subdominant'')
            \<and> (d \<in> {5, 7} \<longrightarrow> harmonic_function a = Some ''dominant''))
     \<and> (degree a = None \<longrightarrow> harmonic_function a = None)
     \<and> (\<exists>pcs. Scale_pitch_classes SCALE_PATTERNS (key_scale k) = Inr pcs
            \<and> (pitch_class (root_note c) \<notin> set pcs \<longleftrightarrow> degree a = None))"
proof -
  from a show ?thesis
  proof (cases rule: analyze_chord_cases)
    case absent
    from get_note_degree_pitch_classes [OF absent(1)] obtain pcs
      where pcs: "Scale_pitch_classes SCALE_PATTERNS (key_scale k) = Inr pcs" by blast
    from get_note_degree_None [OF absent(1) pcs] have "pitch_class (root_note c) \<notin> set pcs"
      by simp
    with absent pcs show ?thesis by simp
  next
    case zero
    from get_note_degree_range [OF k zero(1)] show ?thesis by simp
  next
    case (present d)
    from get_note_degree_range [OF k present(2)] have r: "1 \<le> d" "d \<le> 7" by simp_all
    from get_note_degree_pitch_classes [OF present(2)] obtain pcs
      where pcs: "Scale_pitch_classes SCALE_PATTERNS (key_scale k) = Inr pcs" by blast
    from get_note_degree_None [OF present(2) pcs] have "pitch_class (root_note c) \<in> set pcs"
      by simp
    with function_of_degree_table [OF r, of "mode k"] present r pcs show ?thesis by auto
  qed
qed

text \<open>
  C4. The callers of \<open>analyze_chord\<close> expect the label \<open>'unknown'\<close> for a chord whose
  root is outside the key's scale. For the chord on D flat in C major the value under
  \<open>'function'\<close> is \<open>None\<close>, and \<open>None\<close> is what \<open>_get_harmonic_function\<close> reads
  with its default \<open>'unknown'\<close>. For the chord on B flat in F major, whose root is the
  fourth degree of the scale, no degree and no function are found either: the scale
  spells that note \<open>A#\<close>.
\<close>

theorem analyze_chord_function_none:
  "from_symbol ''Db'' 4 = Inr d_flat_major_chord
   \<and> analyze_chord c_major_key d_flat_major_chord
       = Inr \<lparr>an_chord = d_flat_major_chord,
              is_diatonic = False, degree = None, harmonic_function = None,
              non_chord_tones = {}\<rparr>
   \<and> get_harmonic_function d_flat_major_chord c_major_key = Inr None
   \<and> Key_init \<lparr>pitch_class = ''F'', octave = 4, midi_number = 65\<rparr> ''major'' = Inr f_major_key
   \<and> from_symbol ''Bb'' 4 = Inr b_flat_major_chord
   \<and> Scale_pitch_classes SCALE_PATTERNS (key_scale f_major_key)
       = Inr [''F'', ''G'', ''A'', ''A#'', ''C'', ''D'', ''E'']
   \<and> analyze_chord f_major_key b_flat_major_chord
       = Inr \<lparr>an_chord = b_flat_major_chord,
              is_diatonic = False, degree = None, harmonic_function = None,
              non_chord_tones = {}\<rparr>
   \<and> get_harmonic_function b_flat_major_chord f_major_key = Inr None"
  by code_simp

subsection \<open>Duplicate removal\<close>

lemma dedup_inv_empty: "dedup_inv [] []"
  by (simp add: dedup_inv_def)

lemma dedup_invD:
  assumes "dedup_inv g seen" and "map_of g k = Some s"
  shows "suggestion_key s = (Inr (fst k), snd k)"
    and "s \<in> set seen"
    and "\<And>t. t \<in> set seen \<Longrightarrow> suggestion_key t = suggestion_key s \<Longrightarrow> confidence t \<le> confidence s"
  using assms unfolding dedup_inv_def by blast+

lemma dedup_inv_seen:
  assumes "dedup_inv g seen" and "t \<in> set seen"
  obtains k s where "map_of g k = Some s" "suggestion_key t = (Inr (fst k), snd k)"
  using assms unfolding dedup_inv_def by blast

lemma dedup_inv_step_new:
  assumes inv: "dedup_inv g seen"
    and sym: "Chord_symbol (chord s) = Inr symbol"
    and new: "map_of g (symbol, position s) = None"
  shows "dedup_inv (AList.update (symbol, position s) s g) (seen @ [s])"
proof -
  let ?k = "(symbol, position s)"
  have ks: "suggestion_key s = (Inr (fst ?k), snd ?k)"
    using sym by (simp add: suggestion_key_def)
  have notseen: "suggestion_key t \<noteq> suggestion_key s" if "t \<in> set seen" for t
  proof
    assume eq: "suggestion_key t = suggestion_key s"
    from inv that obtain k' s' where m: "map_of g k' = Some s'"
      and kt: "suggestion_key t = (Inr (fst k'), snd k')"
      unfolding dedup_inv_def by blast
    from eq ks kt have "k' = ?k" by (cases k') simp
    with m new show False by simp
  qed
  show ?thesis
    unfolding dedup_inv_def
  proof (intro conjI allI impI ballI)
    show "distinct (map fst (AList.update ?k s g))"
      using inv by (simp add: dedup_inv_def distinct_update)
  next
    fix k s0 assume m: "map_of (AList.update ?k s g) k = Some s0"
    show "suggestion_key s0 = (Inr (fst k), snd k)"
    proof (cases "k = ?k")
      case True
      with m ks show ?thesis by (simp add: update_conv')
    next
      case False
      with m have "map_of g k = Some s0" by (simp add: update_conv')
      from dedup_invD(1) [OF inv this] show ?thesis .
    qed
    show "s0 \<in> set (seen @ [s])"
    proof (cases "k = ?k")
      case True
      with m show ?thesis by (simp add: update_conv')
    next
      case False
      with m have "map_of g k = Some s0" by (simp add: update_conv')
      from dedup_invD(2) [OF inv this] show ?thesis by simp
    qed
    fix t assume t: "t \<in> set (seen @ [s])" and eq: "suggestion_key t = suggestion_key s0"
    show "confidence t \<le> confidence s0"
    proof (cases "k = ?k")
      case True
      with m have "s0 = s" by (simp add: update_conv')
      with t eq notseen show ?thesis by auto
    next
      case False
      with m have m0: "map_of g k = Some s0" by (simp add: update_conv')
      with inv have k0: "suggestion_key s0 = (Inr (fst k), snd k)"
        and best: "\<forall>t \<in> set seen. suggestion_key t = suggestion_key s0 \<longrightarrow> confidence t \<le> confidence s0"
        unfolding dedup_inv_def by blast+
      from False k0 ks have "suggestion_key s \<noteq> suggestion_key s0" by (cases k) auto
      with t eq best show ?thesis by auto
    qed
  next
    fix t assume t: "t \<in> set (seen @ [s])"
    show "\<exists>k s'. map_of (AList.update ?k s g) k = Some s' \<and> suggestion_key t = (Inr (fst k), snd k)"
    proof (cases "t = s")
      case True
      with ks show ?thesis by (intro exI [of _ ?k] exI [of _ s]) (simp add: update_conv')
    next
      case False
      with t have "t \<in> set seen" by simp
      with inv obtain k' s' where m: "map_of g k' = Some s'"
        and kt: "suggestion_key t = (Inr (fst k'), snd k')"
        unfolding dedup_inv_def by blast
      from m new have "k' \<noteq> ?k" by auto
      with m kt show ?thesis by (intro exI [of _ k'] exI [of _ s']) (simp add: update_conv')
    qed
  qed
qed


lemma dedup_inv_step_replace:
  assumes inv: "dedup_inv g seen"
    and sym: "Chord_symbol (chord s) = Inr symbol"
    and old: "map_of g (symbol, position s) = Some kept"
    and better: "confidence kept < confidence s"
  shows "dedup_inv (AList.update (symbol, position s) s g) (seen @ [s])"
proof -
  let ?k = "(symbol, position s)"
  have ks: "suggestion_key s = (Inr (fst ?k), snd ?k)"
    using sym by (simp add: suggestion_key_def)
  from dedup_invD(1) [OF inv old] ks have same: "suggestion_key kept = suggestion_key s" by simp
  show ?thesis
    unfolding dedup_inv_def
  proof (intro conjI allI impI ballI)
    show "distinct (map fst (AList.update ?k s g))"
      using inv by (simp add: dedup_inv_def distinct_update)
  next
    fix k s0 assume m: "map_of (AList.update ?k s g) k = Some s0"
    show "suggestion_key s0 = (Inr (fst k), snd k)"
    proof (cases "k = ?k")
      case True
      with m ks show ?thesis by (simp add: update_conv')
    next
      case False
      with m have "map_of g k = Some s0" by (simp add: update_conv')
      from dedup_invD(1) [OF inv this] show ?thesis .
    qed
    show "s0 \<in> set (seen @ [s])"
    proof (cases "k = ?k")
      case True
      with m show ?thesis by (simp add: update_conv')
    next
      case False
      with m have "map_of g k = Some s0" by (simp add: update_conv')
      from dedup_invD(2) [OF inv this] show ?thesis by simp
    qed
    fix t assume t: "t \<in> set (seen @ [s])" and eq: "suggestion_key t = suggestion_key s0"
    show "confidence t \<le> confidence s0"
    proof (cases "k = ?k")
      case True
      with m have s0: "s0 = s" by (simp add: update_conv')
      show ?thesis
      proof (cases "t = s")
        case True
        with s0 show ?thesis by simp
      next
        case False
        with t have ts: "t \<in> set seen" by simp
        from eq s0 same have "suggestion_key t = suggestion_key kept" by simp
        from dedup_invD(3) [OF inv old ts this] better s0 show ?thesis by simp
      qed
    next
      case False
      with m have m0: "map_of g k = Some s0" by (simp add: update_conv')
      from dedup_invD(1) [OF inv m0] False ks have ne: "suggestion_key s \<noteq> suggestion_key s0"
        by (cases k) auto
      with t eq have "t \<in> set seen" by auto
      from dedup_invD(3) [OF inv m0 this eq] show ?thesis .
    qed
  next
    fix t assume t: "t \<in> set (seen @ [s])"
    show "\<exists>k s'. map_of (AList.update ?k s g) k = Some s' \<and> suggestion_key t = (Inr (fst k), snd k)"
    proof (cases "t = s")
      case True
      with ks show ?thesis by (intro exI [of _ ?k] exI [of _ s]) (simp add: update_conv')
    next
      case False
      with t have "t \<in> set seen" by simp
      with inv obtain k' s' where m: "map_of g k' = Some s'"
        and kt: "suggestion_key t = (Inr (fst k'), snd k')"
        by (rule dedup_inv_seen)
      show ?thesis
      proof (cases "k' = ?k")
        case True
        with kt show ?thesis by (intro exI [of _ ?k] exI [of _ s]) (simp add: update_conv')
      next
        case False
        with m kt show ?thesis by (intro exI [of _ k'] exI [of _ s']) (simp add: update_conv')
      qed
    qed
  qed
qed

lemma dedup_inv_step_keep:
  assumes inv: "dedup_inv g seen"
    and sym: "Chord_symbol (chord s) = Inr symbol"
    and old: "map_of g (symbol, position s) = Some kept"
    and worse: "\<not> confidence kept < confidence s"
  shows "dedup_inv g (seen @ [s])"
proof -
  let ?k = "(symbol, position s)"
  have ks: "suggestion_key s = (Inr (fst ?k), snd ?k)"
    using sym by (simp add: suggestion_key_def)
  from dedup_invD(1) [OF inv old] ks have same: "suggestion_key kept = suggestion_key s" by simp
  show ?thesis
    unfolding dedup_inv_def
  proof (intro conjI allI impI ballI)
    show "distinct (map fst g)"
      using inv by (simp add: dedup_inv_def)
  next
    fix k s0 assume m: "map_of g k = Some s0"
    from dedup_invD(1) [OF inv m] show "suggestion_key s0 = (Inr (fst k), snd k)" .
    from dedup_invD(2) [OF inv m] show "s0 \<in> set (seen @ [s])" by simp
    fix t assume t: "t \<in> set (seen @ [s])" and eq: "suggestion_key t = suggestion_key s0"
    show "confidence t \<le> confidence s0"
    proof (cases "t \<in> set seen")
      case True
      from dedup_invD(3) [OF inv m True eq] show ?thesis .
    next
      case False
      with t have ts: "t = s" by simp
      with eq ks dedup_invD(1) [OF inv m] have "k = ?k" by (cases k) simp
      with m old have "s0 = kept" by simp
      with worse ts show ?thesis by simp
    qed
  next
    fix t assume t: "t \<in> set (seen @ [s])"
    show "\<exists>k s'. map_of g k = Some s' \<and> suggestion_key t = (Inr (fst k), snd k)"
    proof (cases "t = s")
      case True
      with ks old show ?thesis by (intro exI [of _ ?k] exI [of _ kept]) simp
    next
      case False
      with t have "t \<in> set seen" by simp
      with inv show ?thesis by (auto elim: dedup_inv_seen)
    qed
  qed
qed

lemma remove_duplicates_loop_inv:
  assumes "remove_duplicates_loop g xs = Inr g'" and "dedup_inv g seen"
  shows "dedup_inv g' (seen @ xs)"
  using assms
proof (induction xs arbitrary: g seen)
  case Nil
  then show ?case by simp
next
  case (Cons s rest)
  from Cons.prems(1) obtain symbol where sym: "Chord_symbol (chord s) = Inr symbol"
    by (cases "Chord_symbol (chord s)") auto
  show ?case
  proof (cases "map_of g (symbol, position s)")
    case None
    with Cons.prems(1) sym
    have loop: "remove_duplicates_loop (AList.update (symbol, position s) s g) rest = Inr g'"
      by simp
    from Cons.IH [OF loop dedup_inv_step_new [OF Cons.prems(2) sym None]]
    show ?thesis by simp
  next
    case (Some kept)
    show ?thesis
    proof (cases "confidence kept < confidence s")
      case True
      with Cons.prems(1) sym Some
      have loop: "remove_duplicates_loop (AList.update (symbol, position s) s g) rest = Inr g'"
        by simp
      from Cons.IH [OF loop dedup_inv_step_replace [OF Cons.prems(2) sym Some True]]
      show ?thesis by simp
    next
      case False
      with Cons.prems(1) sym Some
      have loop: "remove_duplicates_loop g rest = Inr g'" by simp
      from Cons.IH [OF loop dedup_inv_step_keep [OF Cons.prems(2) sym Some False]]
      show ?thesis by simp
    qed
  qed
qed

lemma remove_duplicates_groups:
  assumes "remove_duplicates xs = Inr unique"
  obtains g where "unique = map snd g" "dedup_inv g xs"
proof -
  from assms obtain g where loop: "remove_duplicates_loop [] xs = Inr g" and u: "unique = map snd g"
    by (auto simp add: remove_duplicates_def bind_err_def split: sum.splits)
  from remove_duplicates_loop_inv [OF loop dedup_inv_empty] have "dedup_inv g xs" by simp
  with u that show ?thesis by blast
qed

lemma dedup_inv_entry:
  assumes "dedup_inv g seen" and "(k, s) \<in> set g"
  shows "map_of g k = Some s"
  using assms by (simp add: dedup_inv_def)

lemma remove_duplicates_distinct:
  assumes "remove_duplicates xs = Inr unique"
  shows "distinct (map suggestion_key unique)"
proof -
  from assms obtain g where u: "unique = map snd g" and inv: "dedup_inv g xs"
    by (rule remove_duplicates_groups)
  have eq: "map suggestion_key (map snd g) = map (\<lambda>k. (Inr (fst k), snd k)) (map fst g)"
  proof -
    have "suggestion_key (snd x) = (Inr (fst (fst x)), snd (fst x))" if "x \<in> set g" for x
    proof -
      from that have "(fst x, snd x) \<in> set g" by simp
      from dedup_invD(1) [OF inv dedup_inv_entry [OF inv this]] show ?thesis .
    qed
    then show ?thesis by simp
  qed
  have inj: "inj_on (\<lambda>k :: string \<times> real. (Inr (fst k) :: error + string, snd k)) (set (map fst g))"
    by (rule inj_onI) (auto simp add: prod_eq_iff)
  from inv have d: "distinct (map fst g)" by (simp add: dedup_inv_def)
  have "distinct (map (\<lambda>k :: string \<times> real. (Inr (fst k) :: error + string, snd k)) (map fst g))"
    using d inj by (subst distinct_map) blast
  with eq show ?thesis unfolding u by (simp only:)
qed

lemma remove_duplicates_subset:
  assumes "remove_duplicates xs = Inr unique" and "s \<in> set unique"
  shows "s \<in> set xs"
    and "\<And>t. t \<in> set xs \<Longrightarrow> suggestion_key t = suggestion_key s \<Longrightarrow> confidence t \<le> confidence s"
proof -
  from assms(1) obtain g where u: "unique = map snd g" and inv: "dedup_inv g xs"
    by (rule remove_duplicates_groups)
  from assms(2) u obtain k where "(k, s) \<in> set g" by auto
  then have m: "map_of g k = Some s" by (rule dedup_inv_entry [OF inv])
  from dedup_invD(2) [OF inv m] show "s \<in> set xs" .
  fix t assume "t \<in> set xs" "suggestion_key t = suggestion_key s"
  then show "confidence t \<le> confidence s" by (rule dedup_invD(3) [OF inv m])
qed

lemma remove_duplicates_covers:
  assumes "remove_duplicates xs = Inr unique" and "t \<in> set xs"
  shows "\<exists>s \<in> set unique. suggestion_key s = suggestion_key t"
proof -
  from assms(1) obtain g where u: "unique = map snd g" and inv: "dedup_inv g xs"
    by (rule remove_duplicates_groups)
  from inv assms(2) obtain k s where m: "map_of g k = Some s"
    and kt: "suggestion_key t = (Inr (fst k), snd k)"
    by (rule dedup_inv_seen)
  from m have "(k, s) \<in> set g" by (rule map_of_SomeD)
  then have "s \<in> set unique" unfolding u by force
  moreover from dedup_invD(1) [OF inv m] kt have "suggestion_key s = suggestion_key t" by simp
  ultimately show ?thesis by blast
qed

lemma sort_by_confidence_set: "set (sort_by_confidence xs) = set xs"
  by (simp add: sort_by_confidence_def)

lemma sort_by_confidence_length: "length (sort_by_confidence xs) = length xs"
  by (simp add: sort_by_confidence_def)

lemma sort_by_confidence_sorted:
  "sorted_wrt (\<lambda>a b. confidence b \<le> confidence a) (sort_by_confidence xs)"
proof -
  have "sorted (map (\<lambda>x. - confidence x) (sort_by_confidence xs))"
    unfolding sort_by_confidence_def by (rule sorted_sort_key)
  then show ?thesis by (simp add: sorted_map)
qed

lemma sort_by_confidence_distinct_keys:
  assumes "distinct (map suggestion_key xs)"
  shows "distinct (map suggestion_key (sort_by_confidence xs))"
proof -
  from assms have "distinct xs" and "inj_on suggestion_key (set xs)"
    by (simp_all add: distinct_map)
  then show ?thesis
    by (simp add: distinct_map sort_by_confidence_def)
qed

lemma slice_to_take: "slice_to xs m = take (slice_bound xs m) xs"
  by (simp add: slice_to_def)

lemma slice_bound_le: "0 \<le> m \<Longrightarrow> slice_bound xs m \<le> nat m"
  by (simp add: slice_bound_def Let_def)

lemma slice_to_all: "int (length xs) \<le> m \<Longrightarrow> slice_to xs m = xs"
  by (simp add: slice_to_def slice_bound_def Let_def)

lemma remove_duplicates_loop_returns:
  assumes "list_all (\<lambda>s. \<not> isl (Chord_symbol (chord s))) xs"
  shows "\<not> isl (remove_duplicates_loop g xs)"
  using assms
proof (induction xs arbitrary: g)
  case Nil
  then show ?case by simp
next
  case (Cons s rest)
  then obtain symbol where "Chord_symbol (chord s) = Inr symbol"
    by (cases "Chord_symbol (chord s)") auto
  with Cons show ?case by (simp split: option.split)
qed

lemma get_suggestions_returns:
  assumes "list_all (\<lambda>s. \<not> isl (Chord_symbol (chord s))) (collect_suggestions strategies p k names)"
  shows "\<not> isl (get_suggestions strategies p k names m)"
proof -
  from assms have "\<not> isl (remove_duplicates_loop [] (collect_suggestions strategies p k names))"
    by (rule remove_duplicates_loop_returns)
  then obtain g where "remove_duplicates_loop [] (collect_suggestions strategies p k names) = Inr g"
    by (cases "remove_duplicates_loop [] (collect_suggestions strategies p k names)") auto
  then show ?thesis
    by (simp add: get_suggestions_def remove_duplicates_def bind_err_def)
qed

subsection \<open>De-duplication, order and truncation of the engine's result\<close>

text \<open>
  With the single strategy \<open>ChromaticApproach\<close> on the progression \<open>['Bdim', 'F']\<close> in
  C major, the merged output has two suggestions of \<open>A#7\<close> at position 0.5. Asked for one
  suggestion, the engine returns \<open>A#dim7\<close> alone, so neither \<open>A#7\<close> is in the returned
  list; asked for \<open>-1\<close> suggestions, it returns two.
\<close>

theorem get_suggestions_counterexample:
  "map suggestion_key
     (collect_suggestions ChordSuggestionEngine_init bdim_f_progression (Some c_major_key)
        (Some [''ChromaticApproach'']))
     = [(Inr ''A#dim7'', 1 / 2), (Inr ''A#7'', 1 / 2), (Inr ''A#7'', 1 / 2), (Inr ''A#m7b5'', 1 / 2)]
   \<and> map_sum id (map suggestion_key)
       (get_suggestions ChordSuggestionEngine_init bdim_f_progression (Some c_major_key)
          (Some [''ChromaticApproach'']) 1)
     = Inr [(Inr ''A#dim7'', 1 / 2)]
   \<and> map_sum id length
       (get_suggestions ChordSuggestionEngine_init bdim_f_progression (Some c_major_key)
          (Some [''ChromaticApproach'']) (- 1))
     = Inr 2"
  by code_simp

text \<open>
  C6. In the list returned by \<open>get_suggestions\<close> no two suggestions share the same (chord
  symbol, position) pair; the list is sorted by confidence in descending order; its length
  is at most \<open>max_suggestions\<close> when \<open>max_suggestions\<close> is not negative; every returned
  suggestion comes from the merged strategy output and has the highest confidence of the
  merged suggestions with its pair. Before truncation, the de-duplicated list has exactly
  one suggestion for every pair of the merged output, and all of them are returned when
  \<open>max_suggestions\<close> is at least their number.
\<close>

theorem get_suggestions_deduplicated:
  assumes "get_suggestions strategies p k names m = Inr out"
  shows "distinct (map suggestion_key out)
     \<and> sorted_wrt (\<lambda>a b. confidence b \<le> confidence a) out
     \<and> (0 \<le> m \<longrightarrow> length out \<le> nat m)
     \<and> (\<forall>s \<in> set out.
           s \<in> set (collect_suggestions strategies p k names)
           \<and> (\<forall>t \<in> set (collect_suggestions strategies p k names).
                 suggestion_key t = suggestion_key s \<longrightarrow> confidence t \<le> confidence s))
     \<and> (\<exists>unique.
           remove_duplicates (collect_suggestions strategies p k names) = Inr unique
           \<and> distinct (map suggestion_key unique)
           \<and> (\<forall>t \<in> set (collect_suggestions strategies p k names).
                 \<exists>s \<in> set unique. suggestion_key s = suggestion_key t)
           \<and> (int (length unique) \<le> m \<longrightarrow> set out = set unique))"
proof -
  let ?merged = "collect_suggestions strategies p k names"
  from assms obtain unique where u: "remove_duplicates ?merged = Inr unique"
    and out: "out = slice_to (sort_by_confidence unique) m"
    by (auto simp add: get_suggestions_def bind_err_def split: sum.splits)
  have out_take: "out = take (slice_bound (sort_by_confidence unique) m) (sort_by_confidence unique)"
    using out by (simp add: slice_to_take)
  have du: "distinct (map suggestion_key unique)"
    using u by (rule remove_duplicates_distinct)
  have d: "distinct (map suggestion_key out)"
    unfolding out_take take_map [symmetric]
    by (rule distinct_take) (rule sort_by_confidence_distinct_keys [OF du])
  have s: "sorted_wrt (\<lambda>a b. confidence b \<le> confidence a) out"
    unfolding out_take by (rule sorted_wrt_take) (rule sort_by_confidence_sorted)
  have l: "0 \<le> m \<longrightarrow> length out \<le> nat m"
    unfolding out_take using slice_bound_le [of m "sort_by_confidence unique"] by auto
  have sub: "set out \<subseteq> set unique"
    unfolding out_take using set_take_subset [of _ "sort_by_confidence unique"]
    by (simp add: sort_by_confidence_set)
  have best: "\<forall>s \<in> set out. s \<in> set ?merged
      \<and> (\<forall>t \<in> set ?merged. suggestion_key t = suggestion_key s \<longrightarrow> confidence t \<le> confidence s)"
    using sub remove_duplicates_subset [OF u] by blast
  have cov: "\<forall>t \<in> set ?merged. \<exists>s \<in> set unique. suggestion_key s = suggestion_key t"
    using remove_duplicates_covers [OF u] by blast
  have all: "int (length unique) \<le> m \<longrightarrow> set out = set unique"
    unfolding out by (simp add: slice_to_all sort_by_confidence_length sort_by_confidence_set)
  from d s l best u du cov all show ?thesis by blast
qed

theorem get_suggestions_deduplicated_witness:
  "\<exists>out. get_suggestions ChordSuggestionEngine_init bdim_f_progression (Some c_major_key)
            (Some [''ChromaticApproach'']) 2 = Inr out
        \<and> map suggestion_key out = [(Inr ''A#dim7'', 1 / 2), (Inr ''A#7'', 1 / 2)]
        \<and> map confidence out = [409 / 500, 803 / 1000]
        \<and> distinct (map suggestion_key out)
        \<and> sorted_wrt (\<lambda>a b. confidence b \<le> confidence a) out
        \<and> length out \<le> nat 2"
proof -
  have "map_sum id (map (\<lambda>s. (suggestion_key s, confidence s)))
          (get_suggestions ChordSuggestionEngine_init bdim_f_progression (Some c_major_key)
             (Some [''ChromaticApproach'']) 2)
        = Inr [((Inr ''A#dim7'', 1 / 2), 409 / 500), ((Inr ''A#7'', 1 / 2), 803 / 1000)]"
    by code_simp
  then obtain out where out: "get_suggestions ChordSuggestionEngine_init bdim_f_progression
        (Some c_major_key) (Some [''ChromaticApproach'']) 2 = Inr out"
    and shown: "map (\<lambda>s. (suggestion_key s, confidence s)) out
        = [((Inr ''A#dim7'', 1 / 2), 409 / 500), ((Inr ''A#7'', 1 / 2), 803 / 1000)]"
    by (cases "get_suggestions ChordSuggestionEngine_init bdim_f_progression
        (Some c_major_key) (Some [''ChromaticApproach'']) 2") auto
  from shown have "map suggestion_key out = [(Inr ''A#dim7'', 1 / 2), (Inr ''A#7'', 1 / 2)]"
    and "map confidence out = [409 / 500, 803 / 1000]"
    by auto
  with out get_suggestions_deduplicated [OF out] show ?thesis by simp
qed

subsection \<open>Chord detection below the threshold\<close>

lemma for_each_append:
  "for_each body (xs @ ys) s =
     (case for_each body xs s of Inl e \<Rightarrow> Inl e | Inr s' \<Rightarrow> for_each body ys s')"
  by (induction xs arbitrary: s) (auto split: sum.splits)

lemma for_each_nested:
  "for_each (\<lambda>x. for_each (f x) ys) xs s
     = for_each (\<lambda>p. f (fst p) (snd p)) (concat (map (\<lambda>x. map (Pair x) ys) xs)) s"
proof (induction xs arbitrary: s)
  case Nil
  then show ?case by simp
next
  case (Cons x xs)
  have inner: "for_each (\<lambda>p. f (fst p) (snd p)) (map (Pair x) ys) t = for_each (f x) ys t" for t
    by (induction ys arbitrary: t) (auto split: sum.splits)
  show ?case
    by (simp add: for_each_append inner Cons.IH split: sum.splits)
qed

lemma find_best_chord_match_candidates:
  "find_best_chord_match score semis ns bass_note =
     bind_err (for_each (try_candidate score semis ns bass_note) (candidates semis) (- 1, None))
       (\<lambda>best. if fst best > 1 / 2 then Inr (snd best) else Inr None)"
  unfolding find_best_chord_match_def try_root_def [abs_def] candidates_def
    try_candidate_def [abs_def] for_each_nested Let_def
  by simp

text \<open>The three outcomes of one round: no new best, a new best chord, a skipped quality.\<close>

lemma try_candidate_keep:
  assumes "computed_score score semis ns c \<le> fst best"
  shows "try_candidate score semis ns bass_note c best = Inr best"
  using assms by (simp add: try_candidate_def try_template_def computed_score_def Let_def)

lemma try_candidate_valid:
  assumes "fst best < computed_score score semis ns c"
    and "Note_init (PitchMidi (fst c)) None = Inr rn"
    and "map_of CHORD_TONES (fst (snd c)) \<noteq> None"
  shows "try_candidate score semis ns bass_note c best
           = Inr (computed_score score semis ns c,
                  Some \<lparr>root_note = rn, quality = fst (snd c),
                        bass = (case bass_note of
                                  None \<Rightarrow> rn
                                | Some b \<Rightarrow> if pitch_class b = pitch_class rn then rn else b)\<rparr>)"
  using assms
  by (auto simp add: try_candidate_def try_template_def computed_score_def Let_def
        bind_err_def Chord_init_def split: option.splits)

lemma try_candidate_skipped:
  assumes "fst best < computed_score score semis ns c"
    and "Note_init (PitchMidi (fst c)) None = Inr rn"
    and "map_of CHORD_TONES (fst (snd c)) = None"
  shows "try_candidate score semis ns bass_note c best
           = Inr (computed_score score semis ns c, snd best)"
  using assms
  by (simp add: try_candidate_def try_template_def computed_score_def Let_def
        bind_err_def Chord_init_def)

lemma for_each_candidates_keep:
  assumes "\<forall>c \<in> set cs. computed_score score semis ns c \<le> fst best"
  shows "for_each (try_candidate score semis ns bass_note) cs best = Inr best"
  using assms by (induction cs) (simp_all add: try_candidate_keep)

text \<open>
  Over candidates of one root whose qualities the chord catalog has, the loop ends with
  the best computed score, and with the chord of a candidate that reached it unless no
  candidate beat the score it started from.
\<close>

lemma for_each_valid_candidates:
  assumes "Note_init (PitchMidi r0) None = Inr rn"
    and "\<forall>c \<in> set cs. fst c = r0 \<and> map_of CHORD_TONES (fst (snd c)) \<noteq> None"
  shows "\<exists>b' ch'. for_each (try_candidate score semis ns bass_note) cs (b, ch) = Inr (b', ch')
           \<and> b \<le> b'
           \<and> (\<forall>c \<in> set cs. computed_score score semis ns c \<le> b')
           \<and> ((b' = b \<and> ch' = ch)
               \<or> (\<exists>c \<in> set cs. b' = computed_score score semis ns c
                     \<and> ch' = Some \<lparr>root_note = rn, quality = fst (snd c),
                                   bass = (case bass_note of
                                             None \<Rightarrow> rn
                                           | Some x \<Rightarrow>
                                               if pitch_class x = pitch_class rn then rn else x)\<rparr>))"
  using assms(2)
proof (induction cs arbitrary: b ch)
  case Nil
  then show ?case by simp
next
  case (Cons c cs)
  from Cons.prems have c: "fst c = r0" "map_of CHORD_TONES (fst (snd c)) \<noteq> None"
    and cs: "\<forall>c \<in> set cs. fst c = r0 \<and> map_of CHORD_TONES (fst (snd c)) \<noteq> None"
    by simp_all
  let ?chord = "\<lambda>d. \<lparr>root_note = rn, quality = fst (snd d),
                     bass = (case bass_note of
                               None \<Rightarrow> rn
                             | Some x \<Rightarrow> if pitch_class x = pitch_class rn then rn else x)\<rparr>"
  show ?case
  proof (cases "computed_score score semis ns c \<le> b")
    case True
    then have step: "try_candidate score semis ns bass_note c (b, ch) = Inr (b, ch)"
      using try_candidate_keep [of score semis ns c "(b, ch)" bass_note] by simp
    from Cons.IH [OF cs, of b ch]
    obtain b' ch' where
      run: "for_each (try_candidate score semis ns bass_note) cs (b, ch) = Inr (b', ch')"
      and ge: "b \<le> b'"
      and le: "\<forall>d \<in> set cs. computed_score score semis ns d \<le> b'"
      and res: "(b' = b \<and> ch' = ch)
               \<or> (\<exists>d \<in> set cs. b' = computed_score score semis ns d \<and> ch' = Some (?chord d))"
      by blast
    have run': "for_each (try_candidate score semis ns bass_note) (c # cs) (b, ch) = Inr (b', ch')"
      using step run by simp
    have le': "\<forall>d \<in> set (c # cs). computed_score score semis ns d \<le> b'"
      using True ge le by simp
    have res': "(b' = b \<and> ch' = ch)
               \<or> (\<exists>d \<in> set (c # cs). b' = computed_score score semis ns d
                     \<and> ch' = Some (?chord d))"
      using res by auto
    from run' ge le' res' show ?thesis by blast
  next
    case False
    from False assms(1) c
    have step: "try_candidate score semis ns bass_note c (b, ch)
                  = Inr (computed_score score semis ns c, Some (?chord c))"
      using try_candidate_valid [of "(b, ch)" score semis ns c rn bass_note]
      by simp
    from Cons.IH [OF cs, of "computed_score score semis ns c" "Some (?chord c)"]
    obtain b' ch' where
      run: "for_each (try_candidate score semis ns bass_note) cs
              (computed_score score semis ns c, Some (?chord c)) = Inr (b', ch')"
      and ge: "computed_score score semis ns c \<le> b'"
      and le: "\<forall>d \<in> set cs. computed_score score semis ns d \<le> b'"
      and res: "(b' = computed_score score semis ns c \<and> ch' = Some (?chord c))
               \<or> (\<exists>d \<in> set cs. b' = computed_score score semis ns d \<and> ch' = Some (?chord d))"
      by blast
    have run': "for_each (try_candidate score semis ns bass_note) (c # cs) (b, ch) = Inr (b', ch')"
      using step run by simp
    from False ge have ge': "b \<le> b'" by simp
    have le': "\<forall>d \<in> set (c # cs). computed_score score semis ns d \<le> b'"
      using ge le by simp
    have res': "\<exists>d \<in> set (c # cs). b' = computed_score score semis ns d \<and> ch' = Some (?chord d)"
      using res by auto
    from run' ge' le' res' show ?thesis by blast
  qed
qed

lemma computed_score_close:
  assumes "score_within eps score"
  shows "\<bar>computed_score score semis ns c - candidate_score semis ns c\<bar> \<le> eps"
  using assms by (simp add: score_within_def computed_score_def candidate_score_def)

text \<open>
  C1. The detector is meant to return the candidate of highest score when that score
  exceeds \<open>0.5\<close>, and no chord otherwise. On the notes C4 and C#4 the candidate of highest
  score is (C, \<open>dominant7b9\<close>), with score \<open>3/5\<close>; the detector returns a triad on C, and
  each of the six triads on C scores \<open>17/60\<close>, below the threshold. This holds for every
  computed score within \<open>1/100\<close> of the exact one.
\<close>

theorem detect_chord_from_notes_below_threshold:
  assumes "score_within (1 / 100) score"
  shows "(\<exists>q \<in> set [''major'', ''minor'', ''diminished'', ''augmented'', ''sus2'', ''sus4''].
            detect_chord_from_notes score 2 c_c_sharp_notes None
              = Inr (Some \<lparr>root_note = \<lparr>pitch_class = ''C'', octave = - 1, midi_number = 0\<rparr>,
                           quality = q,
                           bass = \<lparr>pitch_class = ''C'', octave = - 1, midi_number = 0\<rparr>\<rparr>))
       \<and> map (\<lambda>c. (fst c, fst (snd c), candidate_score [0, 1] c_c_sharp_notes c))
             (take 6 (candidates [0, 1]))
           = [(0, ''major'', 17 / 60), (0, ''minor'', 17 / 60), (0, ''diminished'', 17 / 60),
              (0, ''augmented'', 17 / 60), (0, ''sus2'', 17 / 60), (0, ''sus4'', 17 / 60)]
       \<and> candidates [0, 1] ! 24 = (0, ''dominant7b9'', [0, 4, 7, 10, 1])
       \<and> candidate_score [0, 1] c_c_sharp_notes (0, ''dominant7b9'', [0, 4, 7, 10, 1]) = 3 / 5
       \<and> list_all (\<lambda>c. candidate_score [0, 1] c_c_sharp_notes c \<le> 3 / 5) (candidates [0, 1])"
proof -
  define A where "A = take 6 (candidates [0, 1])"
  define B where "B = take 18 (drop 6 (candidates [0, 1]))"
  define R where "R = drop 25 (candidates [0, 1])"
  define b9 :: "int \<times> string \<times> int list" where "b9 = (0, ''dominant7b9'', [0, 4, 7, 10, 1])"
  define rn where "rn = \<lparr>pitch_class = ''C'', octave = - 1, midi_number = 0\<rparr>"
  let ?sc = "computed_score score [0, 1] c_c_sharp_notes"
  let ?ex = "candidate_score [0, 1] c_c_sharp_notes"
  have close: "\<bar>?sc c - ?ex c\<bar> \<le> 1 / 100" for c
    using computed_score_close [OF assms] by simp
  have lo: "?ex c - 1 / 100 \<le> ?sc c" for c
    using close [of c] by linarith
  have hi: "?sc c \<le> ?ex c + 1 / 100" for c
    using close [of c] by linarith
  have split: "candidates [0, 1] = A @ B @ b9 # R"
    unfolding A_def B_def R_def b9_def by code_simp
  have exA: "map (\<lambda>c. (fst c, fst (snd c), ?ex c)) A
           = [(0, ''major'', 17 / 60), (0, ''minor'', 17 / 60), (0, ''diminished'', 17 / 60),
              (0, ''augmented'', 17 / 60), (0, ''sus2'', 17 / 60), (0, ''sus4'', 17 / 60)]"
    unfolding A_def by code_simp
  have validA: "list_all (\<lambda>c. fst c = 0 \<and> map_of CHORD_TONES (fst (snd c)) \<noteq> None
                  \<and> ?ex c = 17 / 60
                  \<and> fst (snd c) \<in> set [''major'', ''minor'', ''diminished'', ''augmented'',
                                         ''sus2'', ''sus4'']) A"
    unfolding A_def by code_simp
  have neA: "(0, ''major'', [0, 4, 7]) \<in> set A"
    unfolding A_def by code_simp
  have exB: "list_all (\<lambda>c. ?ex c \<le> 1 / 5) B"
    unfolding B_def by code_simp
  have nth: "candidates [0, 1] ! 24 = (0, ''dominant7b9'', [0, 4, 7, 10, 1])"
    by code_simp
  have ex9: "?ex b9 = 3 / 5" "map_of CHORD_TONES (fst (snd b9)) = None" "fst b9 = 0"
    unfolding b9_def by code_simp+
  have exR: "list_all (\<lambda>c. ?ex c \<le> 1 / 2) R"
    unfolding R_def by code_simp
  have all: "list_all (\<lambda>c. ?ex c \<le> 3 / 5) (candidates [0, 1])"
    by code_simp
  have root: "Note_init (PitchMidi 0) None = Inr rn"
    unfolding rn_def by code_simp
  have semis: "pitch_class_semitones (remdups (map pitch_class c_c_sharp_notes)) = Inr [0, 1]"
    by code_simp
  have enough: "\<not> int (length c_c_sharp_notes) < 2"
    "\<not> int (length (remdups (map pitch_class c_c_sharp_notes))) < 2"
    by code_simp+
  from for_each_valid_candidates [OF root, of A score "[0, 1]" c_c_sharp_notes None "- 1" None]
    validA
  obtain b1 ch1 where
    runA: "for_each (try_candidate score [0, 1] c_c_sharp_notes None) A (- 1, None) = Inr (b1, ch1)"
    and leA: "\<forall>c \<in> set A. ?sc c \<le> b1"
    and resA: "(b1 = - 1 \<and> ch1 = None)
             \<or> (\<exists>c \<in> set A. b1 = ?sc c
                   \<and> ch1 = Some \<lparr>root_note = rn, quality = fst (snd c), bass = rn\<rparr>)"
    by (auto simp add: list_all_iff)
  have lowA: "17 / 60 - 1 / 100 \<le> b1"
  proof -
    from validA neA have "?ex (0, ''major'', [0, 4, 7]) = 17 / 60" by (auto simp add: list_all_iff)
    moreover from leA neA have "?sc (0, ''major'', [0, 4, 7]) \<le> b1" by blast
    ultimately show ?thesis using lo [of "(0, ''major'', [0, 4, 7])"] by linarith
  qed
  with resA obtain c where c: "c \<in> set A" and b1: "b1 = ?sc c"
    and ch1: "ch1 = Some \<lparr>root_note = rn, quality = fst (snd c), bass = rn\<rparr>"
    by auto
  from c validA have exc: "?ex c = 17 / 60"
    and qc: "fst (snd c) \<in> set [''major'', ''minor'', ''diminished'', ''augmented'', ''sus2'', ''sus4'']"
    by (auto simp add: list_all_iff)
  from hi [of c] exc b1 have highA: "b1 \<le> 17 / 60 + 1 / 100" by simp
  have "\<forall>d \<in> set B. ?sc d \<le> fst (b1, ch1)"
  proof
    fix d assume "d \<in> set B"
    with exB have "?ex d \<le> 1 / 5" by (simp add: list_all_iff)
    with hi [of d] lowA show "?sc d \<le> fst (b1, ch1)" by simp
  qed
  then have runB: "for_each (try_candidate score [0, 1] c_c_sharp_notes None) B (b1, ch1) = Inr (b1, ch1)"
    by (rule for_each_candidates_keep)
  have "fst (b1, ch1) < ?sc b9"
    using lo [of b9] ex9(1) highA by simp
  then have run9: "try_candidate score [0, 1] c_c_sharp_notes None b9 (b1, ch1) = Inr (?sc b9, ch1)"
    using try_candidate_skipped [of "(b1, ch1)" score "[0, 1]" c_c_sharp_notes b9 rn None]
      root ex9 by simp
  have "\<forall>d \<in> set R. ?sc d \<le> fst (?sc b9, ch1)"
  proof
    fix d assume "d \<in> set R"
    with exR have "?ex d \<le> 1 / 2" by (simp add: list_all_iff)
    with hi [of d] lo [of b9] ex9(1) show "?sc d \<le> fst (?sc b9, ch1)" by simp
  qed
  then have runR: "for_each (try_candidate score [0, 1] c_c_sharp_notes None) R (?sc b9, ch1)
                     = Inr (?sc b9, ch1)"
    by (rule for_each_candidates_keep)
  from runA runB run9 runR
  have run: "for_each (try_candidate score [0, 1] c_c_sharp_notes None) (candidates [0, 1]) (- 1, None)
               = Inr (?sc b9, ch1)"
    unfolding split by (simp add: for_each_append)
  have "1 / 2 < ?sc b9" using lo [of b9] ex9(1) by simp
  with run have "find_best_chord_match score [0, 1] c_c_sharp_notes None = Inr ch1"
    by (simp add: find_best_chord_match_candidates bind_err_def)
  with semis enough have "detect_chord_from_notes score 2 c_c_sharp_notes None = Inr ch1"
    by (simp add: detect_chord_from_notes_def Let_def bind_err_def)
  with ch1 qc have first: "\<exists>q \<in> set [''major'', ''minor'', ''diminished'', ''augmented'', ''sus2'', ''sus4''].
            detect_chord_from_notes score 2 c_c_sharp_notes None
              = Inr (Some \<lparr>root_note = rn, quality = q, bass = rn\<rparr>)"
    by blast
  from first exA nth ex9(1) all show ?thesis
    unfolding A_def b9_def rn_def by simp
qed

theorem detect_chord_from_notes_below_threshold_witness:
  "score_within (1 / 100) calculate_chord_score
   \<and> detect_chord_from_notes calculate_chord_score 2 c_c_sharp_notes None
       = Inr (Some \<lparr>root_note = \<lparr>pitch_class = ''C'', octave = - 1, midi_number = 0\<rparr>,
                    quality = ''major'',
                    bass = \<lparr>pitch_class = ''C'', octave = - 1, midi_number = 0\<rparr>\<rparr>)
   \<and> (\<exists>q \<in> set [''major'', ''minor'', ''diminished'', ''augmented'', ''sus2'', ''sus4''].
            detect_chord_from_notes calculate_chord_score 2 c_c_sharp_notes None
              = Inr (Some \<lparr>root_note = \<lparr>pitch_class = ''C'', octave = - 1, midi_number = 0\<rparr>,
                           quality = q,
                           bass = \<lparr>pitch_class = ''C'', octave = - 1, midi_number = 0\<rparr>\<rparr>))"
proof -
  have within: "score_within (1 / 100) calculate_chord_score"
    by (simp add: score_within_def)
  have exact: "detect_chord_from_notes calculate_chord_score 2 c_c_sharp_notes None
       = Inr (Some \<lparr>root_note = \<lparr>pitch_class = ''C'', octave = - 1, midi_number = 0\<rparr>,
                    quality = ''major'',
                    bass = \<lparr>pitch_class = ''C'', octave = - 1, midi_number = 0\<rparr>\<rparr>)"
    by code_simp
  from detect_chord_from_notes_below_threshold [OF within] within exact show ?thesis
    by blast
qed

subsection \<open>Confidence of the detected key\<close>

lemma default_key_built: "default_key = Inr (c_major_key, 0)"
  by code_simp

lemma keys_built:
  "list_all (\<lambda>name. \<not> isl (bind_err (Note_init (PitchName name) (Some 4)) (\<lambda>t. Key_init t ''major''))
                   \<and> \<not> isl (bind_err (Note_init (PitchName name) (Some 4)) (\<lambda>t. Key_init t ''minor'')))
     CHROMATIC_NOTES"
  by code_simp

lemma key_built:
  assumes "name \<in> set CHROMATIC_NOTES" and "key_mode = ''major'' \<or> key_mode = ''minor''"
  shows "\<exists>k. bind_err (Note_init (PitchName name) (Some 4)) (\<lambda>t. Key_init t key_mode) = Inr k"
proof -
  from keys_built assms
  have "\<not> isl (bind_err (Note_init (PitchName name) (Some 4)) (\<lambda>t. Key_init t key_mode))"
    unfolding list_all_iff by blast
  then show ?thesis
    by (cases "bind_err (Note_init (PitchName name) (Some 4)) (\<lambda>t. Key_init t key_mode)") auto
qed

lemma try_key_loop:
  assumes "\<forall>e \<in> set es. snd e \<in> set CHROMATIC_NOTES"
    and "key_mode = ''major'' \<or> key_mode = ''minor''"
  shows "\<exists>k'. for_each (try_key corrcoef h profile key_mode) es (b, k)
           = Inr (fold max [c. Some c \<leftarrow> map (\<lambda>e. corrcoef h (rotated_profile profile (fst e))) es] b, k')"
  using assms(1)
proof (induction es arbitrary: b k)
  case Nil
  then show ?case by simp
next
  case (Cons e es)
  from Cons.prems have e: "snd e \<in> set CHROMATIC_NOTES"
    and es: "\<forall>e \<in> set es. snd e \<in> set CHROMATIC_NOTES"
    by simp_all
  show ?case
  proof (cases "corrcoef h (rotated_profile profile (fst e))")
    case None
    then show ?thesis using Cons.IH [OF es, of b k] by (simp add: try_key_def)
  next
    case (Some c)
    show ?thesis
    proof (cases "c > b")
      case True
      from key_built [OF e assms(2)] obtain k1 where
        "bind_err (Note_init (PitchName (snd e)) (Some 4)) (\<lambda>t. Key_init t key_mode) = Inr k1"
        by blast
      then have "try_key corrcoef h profile key_mode e (b, k) = Inr (c, k1)"
        using Some True by (auto simp add: try_key_def bind_err_def split: sum.splits)
      then show ?thesis using Cons.IH [OF es, of c k1] Some True by (simp add: max_def)
    next
      case False
      then have "try_key corrcoef h profile key_mode e (b, k) = Inr (b, k)"
        using Some by (simp add: try_key_def)
      then show ?thesis using Cons.IH [OF es, of b k] Some False by (simp add: max_def)
    qed
  qed
qed

lemma enumerate_chromatic_fst: "map fst (enumerate_py CHROMATIC_NOTES) = map int [0..<12]"
  by code_simp

lemma enumerate_chromatic_snd:
  "\<forall>e \<in> set (enumerate_py CHROMATIC_NOTES). snd e \<in> set CHROMATIC_NOTES"
  by (auto simp add: enumerate_py_def dest: set_zip_rightD)

lemma enumerated_correlations:
  "map (\<lambda>e. corrcoef h (rotated_profile profile (fst e))) (enumerate_py CHROMATIC_NOTES)
     = map (\<lambda>i. corrcoef h (rotated_profile profile (int i))) [0..<12]"
proof -
  have "map (\<lambda>e. corrcoef h (rotated_profile profile (fst e))) (enumerate_py CHROMATIC_NOTES)
          = map (\<lambda>i. corrcoef h (rotated_profile profile i)) (map fst (enumerate_py CHROMATIC_NOTES))"
    by (simp add: comp_def)
  also have "\<dots> = map (\<lambda>i. corrcoef h (rotated_profile profile (int i))) [0..<12]"
    unfolding enumerate_chromatic_fst by (simp add: comp_def)
  finally show ?thesis .
qed

lemma find_best_key_match_returns:
  "\<exists>k. find_best_key_match corrcoef d h
         = Inr (k, max 0 ((best_correlation corrcoef d h + 1) / 2))"
proof -
  define a where
    "a = fold max [c. Some c \<leftarrow> map (\<lambda>i. corrcoef h (rotated_profile (major_profile d) (int i))) [0..<12]] (- 1)"
  define b where
    "b = fold max [c. Some c \<leftarrow> map (\<lambda>i. corrcoef h (rotated_profile (minor_profile d) (int i))) [0..<12]] a"
  have c4: "Note_init (PitchName ''C'') (Some 4) = Inr c_note" by (rule c_note_built)
  have k0: "Key_init c_note ''major'' = Inr c_major_key" by (rule c_major_key_built)
  from try_key_loop [OF enumerate_chromatic_snd, of "''major''" corrcoef h "major_profile d" "- 1" c_major_key]
  obtain k1 where major:
    "for_each (try_key corrcoef h (major_profile d) ''major'') (enumerate_py CHROMATIC_NOTES)
       (- 1, c_major_key) = Inr (a, k1)"
    unfolding enumerated_correlations a_def by auto
  from try_key_loop [OF enumerate_chromatic_snd, of "''minor''" corrcoef h "minor_profile d" a k1]
  obtain k2 where minor:
    "for_each (try_key corrcoef h (minor_profile d) ''minor'') (enumerate_py CHROMATIC_NOTES)
       (a, k1) = Inr (b, k2)"
    unfolding enumerated_correlations b_def by auto
  have best: "best_correlation corrcoef d h = b"
    unfolding best_correlation_def key_correlations_def Max.set_eq_fold a_def b_def
    by (simp only: map_append concat_append fold_append comp_def)
  show ?thesis
    unfolding find_best_key_match_def
    by (simp add: c4 k0 major minor best bind_err_def)
qed

lemma best_correlation_range:
  assumes "\<forall>x y c. corrcoef x y = Some c \<longrightarrow> - 1 \<le> c \<and> c \<le> 1"
  shows "- 1 \<le> best_correlation corrcoef d h \<and> best_correlation corrcoef d h \<le> 1"
proof -
  let ?cs = "- 1 # [c. Some c \<leftarrow> key_correlations corrcoef d h]"
  have "Max (set ?cs) \<in> set ?cs" by (rule Max_in [OF finite_set]) simp
  moreover have "\<forall>c \<in> set ?cs. - 1 \<le> c \<and> c \<le> 1"
    using assms by (auto simp add: key_correlations_def split: option.splits)
  ultimately show ?thesis unfolding best_correlation_def by blast
qed

lemma add_to_histogram_loop:
  assumes "\<forall>e \<in> set es. pitch_class (snd e) \<in> set CHROMATIC_NOTES"
    and "\<forall>e \<in> set es. \<forall>ws. weights = Some ws \<and> ws \<noteq> [] \<longrightarrow> 0 \<le> fst e \<and> fst e < int (length ws)"
  shows "\<exists>h'. for_each (add_to_histogram weights) es h = Inr h'"
  using assms
proof (induction es arbitrary: h)
  case Nil
  then show ?case by simp
next
  case (Cons e es)
  from Cons.prems(1) obtain j where j: "list_index CHROMATIC_NOTES (pitch_class (snd e)) = Some j"
    using list_index_None [of CHROMATIC_NOTES "pitch_class (snd e)"] by auto
  have "\<exists>w. (case weights of None \<Rightarrow> Inr 1
               | Some ws \<Rightarrow> if ws \<noteq> [] then py_get ws (fst e) else Inr 1) = Inr w"
    using Cons.prems(2) by (auto simp add: py_get_def py_index_def split: option.splits)
  with j obtain h1 where "add_to_histogram weights e h = Inr h1"
    by (auto simp add: add_to_histogram_def bind_err_def)
  moreover from Cons.IH [of h1] Cons.prems
  obtain h' where "for_each (add_to_histogram weights) es h1 = Inr h'" by auto
  ultimately show ?case by simp
qed

lemma enumerate_py_entries:
  assumes "e \<in> set (enumerate_py xs)"
  shows "snd e \<in> set xs \<and> 0 \<le> fst e \<and> fst e < int (length xs)"
proof -
  obtain i x where e: "e = (i, x)" by (cases e)
  with assms have "i \<in> set (map int [0..<length xs])" "x \<in> set xs"
    unfolding enumerate_py_def by (auto dest: set_zip_leftD set_zip_rightD)
  with e show ?thesis by auto
qed

lemma create_pitch_class_histogram_returns:
  assumes "\<forall>n \<in> set notes. pitch_class n \<in> set CHROMATIC_NOTES"
    and "\<forall>ws. weights = Some ws \<and> ws \<noteq> [] \<longrightarrow> length notes \<le> length ws"
  shows "\<exists>h. create_pitch_class_histogram notes weights = Inr h"
proof -
  have "\<exists>h'. for_each (add_to_histogram weights) (enumerate_py notes) (replicate 12 0) = Inr h'"
  proof (rule add_to_histogram_loop)
    show "\<forall>e \<in> set (enumerate_py notes). pitch_class (snd e) \<in> set CHROMATIC_NOTES"
      using assms(1) enumerate_py_entries by blast
    show "\<forall>e \<in> set (enumerate_py notes). \<forall>ws. weights = Some ws \<and> ws \<noteq> []
            \<longrightarrow> 0 \<le> fst e \<and> fst e < int (length ws)"
      using assms(2) enumerate_py_entries [of _ "notes"] by fastforce
  qed
  then show ?thesis
    by (auto simp add: create_pitch_class_histogram_def bind_err_def Let_def)
qed

text \<open>On sharp-spelled notes without weights, key detection returns.\<close>

lemma detect_key_from_notes_returns:
  assumes "\<forall>n \<in> set notes. pitch_class n \<in> set CHROMATIC_NOTES"
    and "\<forall>ws. weights = Some ws \<and> ws \<noteq> [] \<longrightarrow> length notes \<le> length ws"
  shows "\<exists>k conf. detect_key_from_notes corrcoef d notes weights = Inr (k, conf)"
proof (cases "notes = []")
  case True
  then show ?thesis by (simp add: detect_key_from_notes_def default_key_built)
next
  case False
  from create_pitch_class_histogram_returns [OF assms] obtain h where
    "create_pitch_class_histogram notes weights = Inr h" by blast
  with False find_best_key_match_returns [of corrcoef d h] show ?thesis
    by (auto simp add: detect_key_from_notes_def bind_err_def)
qed

lemma convert_midi_notes_sharp:
  "(\<forall>n \<in> set (fst (convert_midi_notes ms)). pitch_class n \<in> set CHROMATIC_NOTES)
   \<and> length (fst (convert_midi_notes ms)) = length (snd (convert_midi_notes ms))"
proof (induction ms)
  case Nil
  then show ?case by simp
next
  case (Cons m ms)
  have sharp: "CHROMATIC_SCALE ! nat (p mod 12) \<in> set CHROMATIC_NOTES" for p :: int
  proof -
    have "nat (p mod 12) < length CHROMATIC_SCALE" by (simp add: length_scales nat_less_iff)
    then have "CHROMATIC_SCALE ! nat (p mod 12) \<in> set CHROMATIC_SCALE" by (rule nth_mem)
    then show ?thesis by (simp add: CHROMATIC_SCALE_def CHROMATIC_NOTES_def)
  qed
  show ?case
  proof (cases "md_midi_note m")
    case None
    with Cons show ?thesis by simp
  next
    case (Some p)
    show ?thesis
    proof (cases "Note_init (PitchMidi p) None")
      case (Inl e)
      with Some Cons show ?thesis by simp
    next
      case (Inr n)
      then have "pitch_class n = CHROMATIC_SCALE ! nat (p mod 12)"
        by (auto simp add: Note_init_def split: if_splits)
      with sharp have "pitch_class n \<in> set CHROMATIC_NOTES" by simp
      with Some Inr Cons show ?thesis by simp
    qed
  qed
qed

text \<open>
  Where the calls return: on an empty input both entry points give C major with
  confidence \<open>0\<close>; on a non-empty note list a returned confidence is
  \<open>max(0, (best correlation + 1) / 2)\<close> and lies between \<open>0\<close> and \<open>1\<close>, for every
  correlation function with values in \<open>[-1, 1]\<close>; \<open>detect_key_from_midi_notes\<close> returns
  on every input.
\<close>

lemma detect_key_returned_confidence:
  assumes "\<forall>x y c. corrcoef x y = Some c \<longrightarrow> - 1 \<le> c \<and> c \<le> 1"
  shows "detect_key_from_notes corrcoef d [] weights = Inr (c_major_key, 0)
       \<and> detect_key_from_midi_notes corrcoef d [] = Inr (c_major_key, 0)
       \<and> (notes \<noteq> [] \<and> detect_key_from_notes corrcoef d notes weights = Inr (k, conf)
            \<longrightarrow> (\<exists>h. create_pitch_class_histogram notes weights = Inr h
                      \<and> conf = max 0 ((best_correlation corrcoef d h + 1) / 2))
                \<and> 0 \<le> conf \<and> conf \<le> 1)
       \<and> (\<exists>k' conf'.
             detect_key_from_midi_notes corrcoef d midi_notes = Inr (k', conf')
             \<and> 0 \<le> conf' \<and> conf' \<le> 1
             \<and> (fst (convert_midi_notes midi_notes) = [] \<longrightarrow> conf' = 0)
             \<and> (fst (convert_midi_notes midi_notes) \<noteq> [] \<longrightarrow>
                  (\<exists>h. create_pitch_class_histogram (fst (convert_midi_notes midi_notes))
                          (Some (snd (convert_midi_notes midi_notes))) = Inr h
                      \<and> conf' = max 0 ((best_correlation corrcoef d h + 1) / 2))))"
proof -
  have range: "0 \<le> max 0 ((best_correlation corrcoef d h + 1) / 2)
             \<and> max 0 ((best_correlation corrcoef d h + 1) / 2) \<le> 1" for h
    using best_correlation_range [OF assms, of d h] by simp
  have empty: "detect_key_from_notes corrcoef d [] weights = Inr (c_major_key, 0)"
    by (simp add: detect_key_from_notes_def default_key_built)
  have empty_midi: "detect_key_from_midi_notes corrcoef d [] = Inr (c_major_key, 0)"
    by (simp add: detect_key_from_midi_notes_def default_key_built)
  have nonempty: "(\<exists>h. create_pitch_class_histogram ns ws = Inr h
                      \<and> cf = max 0 ((best_correlation corrcoef d h + 1) / 2))
                \<and> 0 \<le> cf \<and> cf \<le> 1"
    if "ns \<noteq> []" and "detect_key_from_notes corrcoef d ns ws = Inr (ky, cf)" for ns ws ky cf
  proof -
    from that obtain h where h: "create_pitch_class_histogram ns ws = Inr h"
      and m: "find_best_key_match corrcoef d h = Inr (ky, cf)"
      by (auto simp add: detect_key_from_notes_def bind_err_def split: sum.splits)
    from m find_best_key_match_returns [of corrcoef d h]
    have "cf = max 0 ((best_correlation corrcoef d h + 1) / 2)" by auto
    with h range [of h] show ?thesis by auto
  qed
  let ?ns = "fst (convert_midi_notes midi_notes)"
  let ?ws = "snd (convert_midi_notes midi_notes)"
  have midi: "\<exists>k' conf'.
             detect_key_from_midi_notes corrcoef d midi_notes = Inr (k', conf')
             \<and> 0 \<le> conf' \<and> conf' \<le> 1
             \<and> (?ns = [] \<longrightarrow> conf' = 0)
             \<and> (?ns \<noteq> [] \<longrightarrow>
                  (\<exists>h. create_pitch_class_histogram ?ns (Some ?ws) = Inr h
                      \<and> conf' = max 0 ((best_correlation corrcoef d h + 1) / 2)))"
  proof (cases "?ns = []")
    case True
    then have "detect_key_from_midi_notes corrcoef d midi_notes = Inr (c_major_key, 0)"
      by (simp add: detect_key_from_midi_notes_def detect_key_from_notes_def default_key_built)
    with True show ?thesis by simp
  next
    case False
    then have ne: "midi_notes \<noteq> []" by auto
    from convert_midi_notes_sharp [of midi_notes]
    have "\<forall>n \<in> set ?ns. pitch_class n \<in> set CHROMATIC_NOTES"
      and "\<forall>ws. Some ?ws = Some ws \<and> ws \<noteq> [] \<longrightarrow> length ?ns \<le> length ws"
      by simp_all
    from detect_key_from_notes_returns [OF this, of corrcoef d]
    obtain ky cf where r: "detect_key_from_notes corrcoef d ?ns (Some ?ws) = Inr (ky, cf)"
      by blast
    from nonempty [OF False r] r ne False show ?thesis
      by (simp add: detect_key_from_midi_notes_def)
  qed
  from empty empty_midi nonempty [of "notes" weights k conf] midi show ?thesis by blast
qed

text \<open>
  C8. On every non-empty input \<open>detect_key_from_notes\<close> is meant to return a confidence
  between \<open>0\<close> and \<open>1\<close>. On the single note \<open>Note('Db', 4)\<close>, which the constructor
  of \<open>Note\<close> builds, it raises \<open>ValueError\<close>, whatever the weights, the profiles and the
  correlation function: \<open>list.index\<close> finds no \<open>'Db'\<close> in \<open>CHROMATIC_NOTES\<close>.
\<close>

theorem detect_key_from_notes_flat_raises:
  "Note_init (PitchName ''Db'') (Some 4) = Inr d_flat_note
   \<and> detect_key_from_notes corrcoef d [d_flat_note] weights = Inl ValueError"
proof -
  have built: "Note_init (PitchName ''Db'') (Some 4) = Inr d_flat_note"
    by code_simp
  have "list_index CHROMATIC_NOTES (pitch_class d_flat_note) = None"
    by code_simp
  then have "detect_key_from_notes corrcoef d [d_flat_note] weights = Inl ValueError"
    by (simp add: detect_key_from_notes_def create_pitch_class_histogram_def enumerate_py_def
          add_to_histogram_def bind_err_def)
  with built show ?thesis by simp
qed

subsection \<open>Bounds of the suggested scores\<close>

lemma all_within_bounds_bind:
  assumes "\<And>x. m = Inr x \<Longrightarrow> all_within_bounds (f x)"
  shows "all_within_bounds (bind_err m f)"
  using assms by (cases m) (simp_all add: bind_err_def all_within_bounds_def)

lemma all_within_bounds_Inr [simp]:
  "all_within_bounds (Inr xs) \<longleftrightarrow> list_all within_bounds xs"
  by (simp add: all_within_bounds_def)

lemma all_within_bounds_Inl [simp]: "all_within_bounds (Inl e)"
  by (simp add: all_within_bounds_def)

lemma all_within_bounds_D:
  "all_within_bounds m \<Longrightarrow> m = Inr xs \<Longrightarrow> list_all within_bounds xs"
  by (simp add: all_within_bounds_def)

lemma try_except_within_bounds:
  assumes "all_within_bounds m"
  shows "list_all within_bounds (try_except m [])"
  using assms by (cases m) (simp_all add: try_except_def)

lemma try_steps_within_bounds:
  assumes "\<forall>m \<in> set ms. all_within_bounds m"
  shows "list_all within_bounds (try_steps ms)"
  using assms by (induction ms) (auto split: sum.splits)

lemma traverse_within_bounds:
  assumes "\<And>x. x \<in> set xs \<Longrightarrow> all_within_bounds (f x)"
  shows "all_within_bounds (bind_err (traverse f xs) (\<lambda>found. Inr (g (concat found))))
         \<longleftrightarrow> (\<forall>found. traverse f xs = Inr found \<longrightarrow> list_all within_bounds (g (concat found)))"
  by (cases "traverse f xs") (simp_all add: bind_err_def)

lemma traverse_concat_within_bounds:
  assumes "\<And>x. x \<in> set xs \<Longrightarrow> all_within_bounds (f x)"
    and "traverse f xs = Inr found"
  shows "list_all within_bounds (concat found)"
  using assms
proof (induction xs arbitrary: found)
  case Nil
  then show ?case by simp
next
  case (Cons x xs)
  from Cons.prems(2) obtain ys yss where x: "f x = Inr ys" and rest: "traverse f xs = Inr yss"
    and found: "found = ys # yss"
    by (auto split: sum.splits)
  from Cons.prems(1) [of x] x have "list_all within_bounds ys" by simp
  moreover from Cons.IH [OF _ rest] Cons.prems(1) have "list_all within_bounds (concat yss)" by simp
  ultimately show ?case using found by simp
qed

lemma concat_map_within_bounds:
  assumes "\<And>x. x \<in> set xs \<Longrightarrow> list_all within_bounds (f x)"
  shows "list_all within_bounds (concat (map f xs))"
  using assms by (induction xs) simp_all

lemma sort_by_confidence_within_bounds [simp]:
  "list_all within_bounds (sort_by_confidence xs) \<longleftrightarrow> list_all within_bounds xs"
  by (simp add: list_all_iff sort_by_confidence_set)

lemma ChordSuggestion_init_within_bounds [simp]:
  "within_bounds (ChordSuggestion_init c conf r pos vlq)
     \<longleftrightarrow> 0 \<le> conf \<and> conf \<le> 1 \<and> 0 \<le> vlq \<and> vlq \<le> 1"
  by (simp add: within_bounds_def ChordSuggestion_init_def)

lemma clip_range: "(0 :: real) \<le> min 1 (max 0 x) \<and> min 1 (max 0 x) \<le> 1"
  by simp

lemma voice_leading_quality_range:
  assumes "calculate_voice_leading_quality c1 c2 = Inr v"
  shows "0 \<le> v \<and> v \<le> 1"
proof (cases "Chord_pitch_classes c1")
  case Inl
  with assms show ?thesis by (simp add: calculate_voice_leading_quality_def bind_err_def)
next
  case pc1: (Inr pc1)
  show ?thesis
  proof (cases "Chord_pitch_classes c2")
    case Inl
    with assms pc1 show ?thesis by (simp add: calculate_voice_leading_quality_def bind_err_def)
  next
    case pc2: (Inr pc2)
    show ?thesis
    proof (cases "min (card pc1) (card pc2) = 0")
      case True
      with assms pc1 pc2 show ?thesis
        by (simp add: calculate_voice_leading_quality_def bind_err_def)
    next
      case False
      with assms show ?thesis
        unfolding calculate_voice_leading_quality_def bind_err_def pc1 pc2 sum.case Let_def
        by (simp only: if_False sum.inject) (erule subst, rule clip_range)
    qed
  qed
qed

lemma calculate_borrowed_chord_confidence_range:
  assumes "calculate_borrowed_chord_confidence cc bc k pos p = Inr c"
  shows "0 \<le> c \<and> c \<le> 1"
  using assms voice_leading_quality_range [of cc bc]
  by (auto simp add: calculate_borrowed_chord_confidence_def bind_err_def Let_def
        split: sum.splits if_splits)

lemma calculate_modal_borrowed_confidence_range:
  assumes "calculate_modal_borrowed_confidence cc bc k source_mode = Inr c"
  shows "0 \<le> c \<and> c \<le> 1"
  using assms voice_leading_quality_range [of cc bc]
  by (auto simp add: calculate_modal_borrowed_confidence_def bind_err_def Let_def
        split: sum.splits if_splits)

lemma generate_modal_borrowed_chords_bounded:
  "list_all within_bounds (generate_modal_borrowed_chords cc k deg pos p)"
  by (auto simp add: generate_modal_borrowed_chords_def
        intro!: try_except_within_bounds all_within_bounds_bind
        dest!: calculate_modal_borrowed_confidence_range voice_leading_quality_range)

lemma generate_borrowed_chords_bounded:
  "all_within_bounds (generate_borrowed_chords cc k pos p)"
  by (auto simp add: generate_borrowed_chords_def generate_modal_borrowed_chords_bounded
        intro!: try_except_within_bounds all_within_bounds_bind
        dest!: calculate_borrowed_chord_confidence_range voice_leading_quality_range
        split: option.splits)

lemma strategy_loop_bounded:
  assumes "\<And>x. x \<in> set xs \<Longrightarrow> all_within_bounds (f x)"
  shows "all_within_bounds (bind_err (traverse f xs) (\<lambda>found. Inr (sort_by_confidence (concat found))))"
proof (cases "traverse f xs")
  case (Inl e)
  then show ?thesis by (simp add: bind_err_def)
next
  case (Inr found)
  with traverse_concat_within_bounds [OF assms Inr] show ?thesis
    by (simp add: bind_err_def)
qed

lemma BorrowedChord_suggest_bounded: "all_within_bounds (BorrowedChord_suggest p k)"
proof (cases "analysis_key_of p k")
  case None
  then show ?thesis by (simp add: BorrowedChord_suggest_def)
next
  case (Some ak)
  show ?thesis
    unfolding BorrowedChord_suggest_def Some option.case
    by (rule strategy_loop_bounded)
       (auto intro!: all_within_bounds_bind simp add: generate_borrowed_chords_bounded)
qed

lemma passing_chord_suggestion_bounded:
  assumes "0 \<le> base" and "0 \<le> cap" and "cap \<le> 1" and "0 \<le> fst (snd option)"
  shows "list_all within_bounds (passing_chord_suggestion base cap lead r c1 c2 pos option)"
proof -
  obtain q confidence_mod suffix where option: "option = (q, confidence_mod, suffix)"
    by (cases option)
  with assms have "0 \<le> base * confidence_mod" by simp
  with assms(2,3) show ?thesis
    unfolding passing_chord_suggestion_def option prod.case Let_def
    by (auto intro!: try_except_within_bounds all_within_bounds_bind
          dest!: voice_leading_quality_range)
qed

lemma passing_chord_qualities_nonneg:
  "opt \<in> set (get_passing_chord_qualities r c1 c2 k direction) \<Longrightarrow> 0 \<le> fst (snd opt)"
  by (auto simp add: get_passing_chord_qualities_def)

lemma generate_passing_chords_bounded:
  "all_within_bounds (generate_passing_chords c1 c2 k pos)"
  by (auto simp add: generate_passing_chords_def Let_def generate_descending_passing_chords_def
        generate_ascending_passing_chords_def
        intro!: all_within_bounds_bind concat_map_within_bounds passing_chord_suggestion_bounded
          passing_chord_qualities_nonneg)

lemma ChromaticApproach_suggest_bounded: "all_within_bounds (ChromaticApproach_suggest p k)"
proof (cases "analysis_key_of p k")
  case None
  then show ?thesis by (simp add: ChromaticApproach_suggest_def)
next
  case (Some ak)
  show ?thesis
    unfolding ChromaticApproach_suggest_def Some option.case
    by (rule strategy_loop_bounded)
       (auto simp add: Let_def generate_passing_chords_bounded)
qed

lemma analyze_neapolitan_resolution_nonneg:
  assumes "analyze_neapolitan_resolution p pos k = Inr res"
  shows "0 \<le> resolution_quality res"
  using assms
  by (auto simp add: analyze_neapolitan_resolution_def bind_err_def Let_def
        split: if_splits sum.splits)

lemma neapolitan_base_confidence_nonneg: "0 \<le> neapolitan_base_confidence chord_type"
  by (simp add: neapolitan_base_confidence_def)

lemma calculate_neapolitan_confidence_range:
  assumes "calculate_neapolitan_confidence cc nc k pos chord_type p = Inr c"
  shows "0 \<le> c \<and> c \<le> 1"
proof -
  define b where "b = neapolitan_base_confidence chord_type"
  have b: "0 \<le> b" unfolding b_def by (rule neapolitan_base_confidence_nonneg)
  from assms obtain func res v where
    res: "analyze_neapolitan_resolution p pos k = Inr res"
    and v: "calculate_voice_leading_quality cc nc = Inr v"
    and c: "c = min (95 / 100)
               ((if has_dominant_resolution res
                 then (if get_scale_degree cc k = Some 2
                       then (if func = Some ''subdominant''
                             then (if mode k = ''minor'' then b + 1 / 10 else b) + 1 / 10
                             else (if mode k = ''minor'' then b + 1 / 10 else b)) + 15 / 100
                       else (if func = Some ''subdominant''
                             then (if mode k = ''minor'' then b + 1 / 10 else b) + 1 / 10
                             else (if mode k = ''minor'' then b + 1 / 10 else b))) + 1 / 10
                 else (if get_scale_degree cc k = Some 2
                       then (if func = Some ''subdominant''
                             then (if mode k = ''minor'' then b + 1 / 10 else b) + 1 / 10
                             else (if mode k = ''minor'' then b + 1 / 10 else b)) + 15 / 100
                       else (if func = Some ''subdominant''
                             then (if mode k = ''minor'' then b + 1 / 10 else b) + 1 / 10
                             else (if mode k = ''minor'' then b + 1 / 10 else b))))
                + resolution_quality res * (2 / 10)
                + (if chord_type = ''sixth'' then v + 1 / 10 else v) * (1 / 10))"
    unfolding calculate_neapolitan_confidence_def bind_err_def Let_def b_def
    by (auto split: sum.splits)
  from analyze_neapolitan_resolution_nonneg [OF res] voice_leading_quality_range [OF v] b
  show ?thesis unfolding c by (auto split: if_splits)
qed

lemma neapolitan_suggestion_bounded:
  "all_within_bounds (neapolitan_suggestion cc nc k pos chord_type p)"
  unfolding neapolitan_suggestion_def
  by (auto intro!: all_within_bounds_bind
        dest!: calculate_neapolitan_confidence_range voice_leading_quality_range)

lemma generate_neapolitan_chords_bounded:
  "all_within_bounds (generate_neapolitan_chords cc k pos p)"
  unfolding generate_neapolitan_chords_def
proof (rule all_within_bounds_bind, goal_cases)
  case (1 flat_ii_root)
  show ?case
  proof (cases "Chord_init flat_ii_root ''major'' None")
    case (Inl e)
    then show ?thesis by simp
  next
    case (Inr neapolitan_triad)
    show ?thesis
      unfolding Inr sum.case all_within_bounds_Inr
      by (rule try_steps_within_bounds)
         (auto simp add: neapolitan_suggestion_bounded split: option.splits)
  qed
qed

lemma Neapolitan_suggest_bounded: "all_within_bounds (Neapolitan_suggest p k)"
proof (cases "analysis_key_of p k")
  case None
  then show ?thesis by (simp add: Neapolitan_suggest_def)
next
  case (Some ak)
  show ?thesis
    unfolding Neapolitan_suggest_def Some option.case
    by (rule strategy_loop_bounded)
       (auto intro!: all_within_bounds_bind simp add: generate_neapolitan_chords_bounded)
qed

lemma calculate_sub_confidence_range:
  assumes "calculate_sub_confidence oc sc k pos p = Inr c"
  shows "0 \<le> c \<and> c \<le> 95 / 100"
  using assms
  by (auto simp add: calculate_sub_confidence_def bind_err_def Let_def
        split: sum.splits if_splits)

lemma calculate_tritone_voice_leading_range:
  assumes "calculate_tritone_voice_leading oc sc p pos = Inr v"
  shows "0 \<le> v \<and> v \<le> 1"
  using assms
  by (auto simp add: calculate_tritone_voice_leading_def bind_err_def Let_def
        split: sum.splits if_splits)

lemma generate_sub_variations_bounded:
  "list_all within_bounds (generate_sub_variations sub_root oc k pos p)"
  unfolding generate_sub_variations_def
  by (auto intro!: concat_map_within_bounds try_except_within_bounds all_within_bounds_bind
        dest!: calculate_sub_confidence_range)

lemma generate_tritone_substitutions_bounded:
  "all_within_bounds (generate_tritone_substitutions dc k pos p)"
  unfolding generate_tritone_substitutions_def
  by (auto intro!: try_except_within_bounds all_within_bounds_bind
        simp add: generate_sub_variations_bounded
        dest!: calculate_sub_confidence_range calculate_tritone_voice_leading_range)

lemma SubV7_suggest_bounded: "all_within_bounds (SubV7_suggest p k)"
proof (cases "analysis_key_of p k")
  case None
  then show ?thesis by (simp add: SubV7_suggest_def)
next
  case (Some ak)
  show ?thesis
    unfolding SubV7_suggest_def Some option.case
    by (rule strategy_loop_bounded)
       (auto intro!: all_within_bounds_bind simp add: generate_tritone_substitutions_bounded)
qed

lemma suspension_base_confidence_nonneg: "0 \<le> suspension_base_confidence sus_type"
  by (simp add: suspension_base_confidence_def)

lemma calculate_suspension_confidence_range:
  assumes "calculate_suspension_confidence oc sc k pos sus_type = Inr c"
  shows "0 \<le> c \<and> c \<le> 95 / 100"
proof -
  define b where "b = suspension_base_confidence sus_type"
  have b: "0 \<le> b" unfolding b_def by (rule suspension_base_confidence_nonneg)
  from assms b show ?thesis
    unfolding calculate_suspension_confidence_def bind_err_def Let_def b_def [symmetric]
    by (auto simp add: min_def split: sum.splits option.splits if_splits)
qed

lemma generate_suspensions_bounded:
  "list_all within_bounds (generate_suspensions c k pos)"
  unfolding generate_suspensions_def Let_def list_all_append
  by (auto intro!: try_except_within_bounds all_within_bounds_bind
        dest!: calculate_suspension_confidence_range voice_leading_quality_range)

lemma generate_suspension_resolutions_bounded:
  "all_within_bounds (generate_suspension_resolutions chord1 chord2 k pos)"
  unfolding generate_suspension_resolutions_def
  by (auto intro!: all_within_bounds_bind split: option.splits)

lemma Suspend_suggest_bounded: "all_within_bounds (Suspend_suggest p k)"
proof -
  define ak where "ak = analysis_key_of p k"
  define suspensions where
    "suspensions = concat (map (\<lambda>(i, c). if is_good_suspension_candidate c ak
                                 then generate_suspensions c ak i else [])
                             (enumerate_py (chords p)))"
  have s: "list_all within_bounds suspensions"
    unfolding suspensions_def
    by (rule concat_map_within_bounds) (auto simp add: generate_suspensions_bounded)
  show ?thesis
  proof (cases "traverse (\<lambda>(i, chord1, chord2). generate_suspension_resolutions chord1 chord2 ak i)
                  (adjacent_pairs (chords p))")
    case (Inl e)
    then show ?thesis
      by (simp add: Suspend_suggest_def Let_def ak_def [symmetric] bind_err_def)
  next
    case (Inr found)
    have "list_all within_bounds (concat found)"
      by (rule traverse_concat_within_bounds [OF _ Inr])
         (auto simp add: generate_suspension_resolutions_bounded)
    with s Inr show ?thesis
      by (simp add: Suspend_suggest_def Let_def ak_def [symmetric] bind_err_def
            suspensions_def [symmetric])
  qed
qed

lemma calculate_functional_confidence_range:
  assumes "calculate_functional_confidence cc sc func k pos = Inr c"
  shows "0 \<le> c \<and> c \<le> 95 / 100"
proof (cases "truthy_degree (get_scale_degree sc k)")
  case False
  with assms show ?thesis by (simp add: calculate_functional_confidence_def Let_def)
next
  case True
  define P where "P = (case func of
                         None \<Rightarrow> False
                       | Some f \<Rightarrow>
                           (case map_of primary_degrees f of
                              None \<Rightarrow> False
                            | Some d \<Rightarrow> get_scale_degree sc k = Some d))"
  define Q where "Q = (case func of
                         None \<Rightarrow> False
                       | Some f \<Rightarrow>
                           (case map_of common_substitutions f of
                              None \<Rightarrow> False
                            | Some ds \<Rightarrow> get_scale_degree sc k \<in> Some ` set ds))"
  from assms True obtain v where v: "calculate_voice_leading_quality cc sc = Inr v"
    and c: "c = min (95 / 100)
                  ((if Q then (if P then 6 / 10 + 2 / 10 else 6 / 10) + 15 / 100
                    else (if P then 6 / 10 + 2 / 10 else 6 / 10)) + v * (15 / 100))"
    unfolding calculate_functional_confidence_def Let_def bind_err_def P_def [symmetric]
      Q_def [symmetric]
    by (simp only: not_True_eq_False if_False split: sum.splits) auto
  from voice_leading_quality_range [OF v] show ?thesis
    unfolding c by (auto simp add: min_def)
qed

lemma suggest_functional_improvements_bounded:
  "all_within_bounds (suggest_functional_improvements p pos current_function k)"
  unfolding suggest_functional_improvements_def Let_def
  by (auto intro!: all_within_bounds_bind concat_map_within_bounds try_except_within_bounds
        dest!: calculate_functional_confidence_range voice_leading_quality_range
        split: option.splits)

lemma get_functional_bridge_suggestions_bounded:
  "all_within_bounds (get_functional_bridge_suggestions func1 func2 k pos)"
  unfolding get_functional_bridge_suggestions_def
  by (auto intro!: all_within_bounds_bind concat_map_within_bounds try_except_within_bounds)

lemma suggest_cadential_completions_bounded:
  "list_all within_bounds (suggest_cadential_completions p functional_analysis k)"
  unfolding suggest_cadential_completions_def Let_def
  by (auto intro!: all_within_bounds_bind try_except_within_bounds)

lemma suggest_functional_completions_bounded:
  "all_within_bounds (suggest_functional_completions p functional_analysis k)"
proof (cases "traverse
          (\<lambda>(i, current, following).
             if should_insert_functional_bridge (snd current) (snd following)
             then get_functional_bridge_suggestions (snd current) (snd following) k i
             else Inr [])
          (adjacent_pairs functional_analysis)")
  case (Inl e)
  then show ?thesis by (simp add: suggest_functional_completions_def bind_err_def)
next
  case (Inr bridges)
  have "list_all within_bounds (concat bridges)"
    by (rule traverse_concat_within_bounds [OF _ Inr])
       (auto simp add: get_functional_bridge_suggestions_bounded)
  with Inr show ?thesis
    by (simp add: suggest_functional_completions_def bind_err_def
          suggest_cadential_completions_bounded)
qed

lemma TSDMovement_suggest_bounded: "all_within_bounds (TSDMovement_suggest p k)"
proof (cases "analysis_key_of p k")
  case None
  then show ?thesis by (simp add: TSDMovement_suggest_def)
next
  case (Some ak)
  show ?thesis
    unfolding TSDMovement_suggest_def Some option.case
  proof (rule all_within_bounds_bind, rule all_within_bounds_bind, rule all_within_bounds_bind,
      goal_cases)
    case (1 functional_analysis improvements completions)
    have "list_all within_bounds (concat improvements)"
      by (rule traverse_concat_within_bounds [OF _ 1(2)])
         (auto simp add: suggest_functional_improvements_bounded)
    moreover from suggest_functional_completions_bounded [of p functional_analysis ak] 1(3)
    have "list_all within_bounds completions" by simp
    ultimately show ?case by simp
  qed
qed

lemma strategy_source_within_bounds [simp]:
  "within_bounds (x\<lparr>strategy_source := src\<rparr>) \<longleftrightarrow> within_bounds x"
  by (simp add: within_bounds_def)

lemma engine_strategies_bounded:
  assumes "s \<in> set ChordSuggestionEngine_init"
  shows "all_within_bounds (suggest s p k)"
  using assms BorrowedChord_suggest_bounded [of p k] ChromaticApproach_suggest_bounded [of p k]
    Neapolitan_suggest_bounded [of p k] SubV7_suggest_bounded [of p k]
    Suspend_suggest_bounded [of p k] TSDMovement_suggest_bounded [of p k]
  by (auto simp add: ChordSuggestionEngine_init_def)

lemma collect_suggestions_bounded:
  assumes "\<And>s. s \<in> set strategies \<Longrightarrow> all_within_bounds (suggest s p k)"
  shows "list_all within_bounds (collect_suggestions strategies p k strategy_filter)"
  unfolding collect_suggestions_def Let_def
proof (rule concat_map_within_bounds, rule try_except_within_bounds, rule all_within_bounds_bind)
  fix s xs
  assume s: "s \<in> set (case strategy_filter of
               None \<Rightarrow> strategies
             | Some names \<Rightarrow>
                 if names \<noteq> []
                 then filter (\<lambda>s. get_strategy_name s \<in> set names) strategies
                 else strategies)"
    and xs: "suggest s p k = Inr xs"
  from s have "s \<in> set strategies" by (auto split: option.splits if_splits)
  from assms [OF this] xs have "list_all within_bounds xs" by simp
  then show "all_within_bounds
               (Inr (map (\<lambda>x. x\<lparr>strategy_source := Some (get_strategy_name s)\<rparr>) xs))"
    by (simp add: list_all_iff)
qed

lemma get_suggestions_bounded:
  assumes "\<And>s. s \<in> set strategies \<Longrightarrow> all_within_bounds (suggest s p k)"
  shows "all_within_bounds (get_suggestions strategies p k strategy_filter max_suggestions)"
proof (cases "remove_duplicates (collect_suggestions strategies p k strategy_filter)")
  case (Inl e)
  then show ?thesis by (simp add: get_suggestions_def bind_err_def)
next
  case (Inr unique)
  from collect_suggestions_bounded [OF assms] remove_duplicates_subset(1) [OF Inr]
  have "list_all within_bounds unique" by (auto simp add: list_all_iff)
  then have "list_all within_bounds (sort_by_confidence unique)" by simp
  then have "list_all within_bounds (slice_to (sort_by_confidence unique) max_suggestions)"
    unfolding slice_to_take list_all_iff by (meson in_set_takeD)
  with Inr show ?thesis by (simp add: get_suggestions_def bind_err_def)
qed

lemma update_entries:
  "e \<in> set (AList.update k v al) \<Longrightarrow> e = (k, v) \<or> e \<in> set al"
  by (induction al) (auto split: if_splits)

lemma get_suggestions_by_strategy_bounded:
  assumes "\<And>s. s \<in> set strategies \<Longrightarrow> all_within_bounds (suggest s p k)"
    and "e \<in> set (get_suggestions_by_strategy strategies p k)"
  shows "list_all within_bounds (snd e)"
proof -
  let ?step = "\<lambda>results s.
      AList.update (get_strategy_name s)
        (try_except
           (bind_err (suggest s p k) (\<lambda>suggestions. Inr (sort_by_confidence suggestions)))
           [])
        results"
  have step: "list_all within_bounds
      (try_except (bind_err (suggest s p k) (\<lambda>suggestions. Inr (sort_by_confidence suggestions))) [])"
    if "s \<in> set strategies" for s
    using assms(1) [OF that]
    by (auto intro!: try_except_within_bounds all_within_bounds_bind dest!: all_within_bounds_D)
  have "\<forall>e \<in> set (foldl ?step results ss). list_all within_bounds (snd e)"
    if "\<forall>e \<in> set results. list_all within_bounds (snd e)" and "set ss \<subseteq> set strategies"
    for results ss
    using that
  proof (induction ss arbitrary: results)
    case Nil
    then show ?case by simp
  next
    case (Cons s ss)
    from Cons.prems have "\<forall>e \<in> set (?step results s). list_all within_bounds (snd e)"
      using step [of s] by (auto dest!: update_entries)
    with Cons.prems(2) show ?case
      unfolding foldl_Cons by (intro Cons.IH) auto
  qed
  from this [of "[]" strategies] assms(2) show ?thesis
    by (simp add: get_suggestions_by_strategy_def)
qed

lemma get_suggestions_for_position_bounded:
  assumes "\<And>s. s \<in> set strategies \<Longrightarrow> all_within_bounds (suggest s p k)"
  shows "all_within_bounds (get_suggestions_for_position strategies p pos k strategy_filter)"
  unfolding get_suggestions_for_position_def
proof (rule all_within_bounds_bind)
  fix all_suggestions
  assume run: "get_suggestions strategies p k strategy_filter 20 = Inr all_suggestions"
  have "all_within_bounds (get_suggestions strategies p k strategy_filter 20)"
    by (rule get_suggestions_bounded) (rule assms)
  with run have "list_all within_bounds all_suggestions" by simp
  then show "all_within_bounds
      (Inr (filter (\<lambda>suggestion. \<bar>position suggestion - of_int pos\<bar> < 1 / 10) all_suggestions))"
    by (simp add: list_all_iff)
qed

text \<open>
  C9. Every suggestion returned by one of the six strategies of the engine, and hence
  every suggestion returned by the engine (by \<open>get_suggestions\<close>, by
  \<open>get_suggestions_by_strategy\<close> and by \<open>get_suggestions_for_position\<close>), has its
  confidence and its voice-leading quality between \<open>0\<close> and \<open>1\<close>. In the source a
  confidence is a literal, the minimum of a literal cap of at most \<open>0.95\<close> and a sum of
  non-negative terms, or such a minimum times \<open>0.85\<close> or \<open>0.75\<close>; a voice-leading
  quality is a literal, a value clamped by \<open>min\<close> and \<open>max\<close>, or the mean of two
  clamped values. No score is obtained by a subtraction.
\<close>

theorem suggestions_within_bounds:
  "(\<forall>s \<in> set ChordSuggestionEngine_init. \<forall>xs.
      suggest s p k = Inr xs \<longrightarrow> list_all within_bounds xs)
   \<and> (\<forall>out.
        get_suggestions ChordSuggestionEngine_init p k strategy_filter max_suggestions = Inr out \<longrightarrow>
        list_all within_bounds out)
   \<and> (\<forall>e \<in> set (get_suggestions_by_strategy ChordSuggestionEngine_init p k).
        list_all within_bounds (snd e))
   \<and> (\<forall>out.
        get_suggestions_for_position ChordSuggestionEngine_init p pos k strategy_filter = Inr out \<longrightarrow>
        list_all within_bounds out)"
proof -
  have strategies: "\<And>s. s \<in> set ChordSuggestionEngine_init \<Longrightarrow> all_within_bounds (suggest s p k)"
    by (rule engine_strategies_bounded)
  have "\<forall>s \<in> set ChordSuggestionEngine_init. \<forall>xs.
      suggest s p k = Inr xs \<longrightarrow> list_all within_bounds xs"
    using all_within_bounds_D [OF strategies] by blast
  moreover have "all_within_bounds
      (get_suggestions ChordSuggestionEngine_init p k strategy_filter max_suggestions)"
    by (rule get_suggestions_bounded) (rule strategies)
  then have "\<forall>out.
      get_suggestions ChordSuggestionEngine_init p k strategy_filter max_suggestions = Inr out \<longrightarrow>
      list_all within_bounds out"
    by (auto dest!: all_within_bounds_D)
  moreover have "\<forall>e \<in> set (get_suggestions_by_strategy ChordSuggestionEngine_init p k).
      list_all within_bounds (snd e)"
    using get_suggestions_by_strategy_bounded [OF strategies] by blast
  moreover have "all_within_bounds
      (get_suggestions_for_position ChordSuggestionEngine_init p pos k strategy_filter)"
    by (rule get_suggestions_for_position_bounded) (rule strategies)
  then have "\<forall>out.
      get_suggestions_for_position ChordSuggestionEngine_init p pos k strategy_filter = Inr out \<longrightarrow>
      list_all within_bounds out"
    by (auto dest!: all_within_bounds_D)
  ultimately show ?thesis by blast
qed

theorem suggestions_within_bounds_witness:
  "\<exists>xs out.
     get_strategy_name (ChordSuggestionEngine_init ! 1) = ''ChromaticApproach''
     \<and> suggest (ChordSuggestionEngine_init ! 1) bdim_f_progression (Some c_major_key) = Inr xs
     \<and> map (\<lambda>s. (confidence s, voice_leading_quality s)) xs
         = [(409 / 500, 17 / 50), (803 / 1000, 16 / 25), (1531 / 2000, 16 / 25),
            (1261 / 2000, 17 / 50)]
     \<and> get_suggestions ChordSuggestionEngine_init bdim_f_progression (Some c_major_key)
           (Some [''ChromaticApproach'']) 2 = Inr out
     \<and> map (\<lambda>s. (confidence s, voice_leading_quality s)) out
         = [(409 / 500, 17 / 50), (803 / 1000, 16 / 25)]
     \<and> list_all within_bounds xs
     \<and> list_all within_bounds out"
proof -
  let ?s = "ChordSuggestionEngine_init ! 1"
  let ?run = "get_suggestions ChordSuggestionEngine_init bdim_f_progression (Some c_major_key)
                (Some [''ChromaticApproach'']) 2"
  have name: "get_strategy_name ?s = ''ChromaticApproach''"
    by (simp add: ChordSuggestionEngine_init_def)
  have member: "?s \<in> set ChordSuggestionEngine_init"
    by (simp add: ChordSuggestionEngine_init_def)
  have "map_sum id (map (\<lambda>s. (confidence s, voice_leading_quality s)))
          (suggest ?s bdim_f_progression (Some c_major_key))
        = Inr [(409 / 500, 17 / 50), (803 / 1000, 16 / 25), (1531 / 2000, 16 / 25),
               (1261 / 2000, 17 / 50)]"
    by code_simp
  then obtain xs where xs: "suggest ?s bdim_f_progression (Some c_major_key) = Inr xs"
    and xs_scores: "map (\<lambda>s. (confidence s, voice_leading_quality s)) xs
        = [(409 / 500, 17 / 50), (803 / 1000, 16 / 25), (1531 / 2000, 16 / 25),
           (1261 / 2000, 17 / 50)]"
    by (cases "suggest ?s bdim_f_progression (Some c_major_key)") auto
  have "map_sum id (map (\<lambda>s. (confidence s, voice_leading_quality s))) ?run
        = Inr [(409 / 500, 17 / 50), (803 / 1000, 16 / 25)]"
    by code_simp
  then obtain out where out: "?run = Inr out"
    and out_scores: "map (\<lambda>s. (confidence s, voice_leading_quality s)) out
        = [(409 / 500, 17 / 50), (803 / 1000, 16 / 25)]"
    by (cases ?run) auto
  from suggestions_within_bounds
         [of bdim_f_progression "Some c_major_key" "Some [''ChromaticApproach'']" 2]
       member xs out
  have bounds_xs: "list_all within_bounds xs" and bounds_out: "list_all within_bounds out"
    by blast+
  show ?thesis
    by (rule exI [of _ xs], rule exI [of _ out])
       (intro conjI name xs xs_scores out out_scores bounds_xs bounds_out)
qed

end
